theory Spec2Isabelle
  imports Complex_Main
begin

section \<open>The keyframe interpolator of libQGLViewer\<close>

text \<open>
  A shallow embedding of \<^verbatim>\<open>QGLViewer/keyFrameInterpolator.cpp\<close>. The C++ scalars of type
  \<^verbatim>\<open>float\<close> are read as real numbers (rounding, infinities and NaN are outside the model),
  the owning keyframe list \<^verbatim>\<open>keyFrame_\<close> is a HOL list, and the four list iterators
  \<^verbatim>\<open>currentFrame_[0..3]\<close> are indices into that list. A pointer to a \<^verbatim>\<open>Frame\<close> is an
  address (\<open>None\<close> is the null pointer); the frames the keyframes point to live in a heap
  that the interpolator only reads. Signals and the calls made on the associated frame are
  recorded in an event log.
\<close>

subsection \<open>Vectors, quaternions and frames\<close>

datatype Vec = Vec real real real

fun vadd :: "Vec \<Rightarrow> Vec \<Rightarrow> Vec" where
  "vadd (Vec a b c) (Vec x y z) = Vec (a + x) (b + y) (c + z)"

fun vsub :: "Vec \<Rightarrow> Vec \<Rightarrow> Vec" where
  "vsub (Vec a b c) (Vec x y z) = Vec (a - x) (b - y) (c - z)"

fun smul :: "real \<Rightarrow> Vec \<Rightarrow> Vec" where
  "smul k (Vec x y z) = Vec (k * x) (k * y) (k * z)"

datatype Quaternion = Quaternion real real real real

text \<open>
  Modelled from the spec: \<^verbatim>\<open>Quaternion::dot\<close> and \<^verbatim>\<open>Quaternion::negate\<close> belong to the
  quaternion class, which is not part of the sources at hand. The specification calls them
  the dot product of two orientation quaternions and the negation of a quaternion.
\<close>

fun dot :: "Quaternion \<Rightarrow> Quaternion \<Rightarrow> real" where
  "dot (Quaternion a b c d) (Quaternion x y z w) = a * x + b * y + c * z + d * w"

fun negate :: "Quaternion \<Rightarrow> Quaternion" where
  "negate (Quaternion a b c d) = Quaternion (- a) (- b) (- c) (- d)"

text \<open>
  \<^verbatim>\<open>Quaternion::squad\<close> and \<^verbatim>\<open>Quaternion::squadTangent\<close> are not part of the sources
  either, and the specification does not fix their formulas. Every operation that calls them
  takes them as parameters.
\<close>

type_synonym squad_fn = "Quaternion \<Rightarrow> Quaternion \<Rightarrow> Quaternion \<Rightarrow> Quaternion \<Rightarrow> real \<Rightarrow> Quaternion"
type_synonym squadTangent_fn = "Quaternion \<Rightarrow> Quaternion \<Rightarrow> Quaternion \<Rightarrow> Quaternion"

datatype Frame = Frame (position: Vec) (orientation: Quaternion)

type_synonym addr = nat
type_synonym heap = "addr \<Rightarrow> Frame"

subsection \<open>The private class KeyFrame\<close>

record KeyFrame =
  kf_p :: Vec
  kf_q :: Quaternion
  kf_tgP :: Vec
  kf_tgQ :: Quaternion
  kf_time :: real
  kf_frame :: "addr option"

text \<open>
  The two constructors leave \<^verbatim>\<open>tgP_\<close> and \<^verbatim>\<open>tgQ_\<close> default-constructed (the null vector
  and the identity quaternion); both are overwritten by \<^verbatim>\<open>computeTangent\<close> before they are
  read, since every append clears \<^verbatim>\<open>valuesAreValid_\<close>.
\<close>

definition KeyFrame_value :: "Frame \<Rightarrow> real \<Rightarrow> KeyFrame" where
  "KeyFrame_value fr t =
     \<lparr>kf_p = position fr, kf_q = orientation fr, kf_tgP = Vec 0 0 0,
      kf_tgQ = Quaternion 0 0 0 1, kf_time = t, kf_frame = None\<rparr>"

text \<open>\<^verbatim>\<open>updateValuesFromPointer\<close> reads the frame at the address \<open>a\<close> held in \<^verbatim>\<open>frame_\<close>.\<close>

definition updateValuesFromPointer :: "heap \<Rightarrow> addr \<Rightarrow> KeyFrame \<Rightarrow> KeyFrame" where
  "updateValuesFromPointer H a kf = kf\<lparr>kf_p := position (H a), kf_q := orientation (H a)\<rparr>"

definition KeyFrame_pointer :: "heap \<Rightarrow> addr \<Rightarrow> real \<Rightarrow> KeyFrame" where
  "KeyFrame_pointer H a t =
     updateValuesFromPointer H a
       \<lparr>kf_p = Vec 0 0 0, kf_q = Quaternion 0 0 0 1, kf_tgP = Vec 0 0 0,
        kf_tgQ = Quaternion 0 0 0 1, kf_time = t, kf_frame = Some a\<rparr>"

definition computeTangent :: "squadTangent_fn \<Rightarrow> KeyFrame \<Rightarrow> KeyFrame \<Rightarrow> KeyFrame \<Rightarrow> KeyFrame" where
  "computeTangent squadTangent prev nxt kf =
     kf\<lparr>kf_tgP := smul (1/2) (vsub (kf_p nxt) (kf_p prev)),
        kf_tgQ := squadTangent (kf_q prev) (kf_q kf) (kf_q nxt)\<rparr>"

definition flipOrientation :: "Quaternion \<Rightarrow> KeyFrame \<Rightarrow> KeyFrame" where
  "flipOrientation prev kf =
     (if dot prev (kf_q kf) < 0 then kf\<lparr>kf_q := negate (kf_q kf)\<rparr> else kf)"

subsection \<open>The interpolator state\<close>

datatype Event =
    Warning
  | Interpolated
  | EndReached
  | SetPositionAndOrientation addr Vec Quaternion

record Interpolator =
  keyFrame :: "KeyFrame list"
  frame :: "addr option"
  currentFrame0 :: nat
  currentFrame1 :: nat
  currentFrame2 :: nat
  currentFrame3 :: nat
  timer :: "int option"
  period :: int
  interpolationTime :: real
  interpolationSpeed :: real
  interpolationStarted :: bool
  closedPath :: bool
  loopInterpolation :: bool
  pathIsValid :: bool
  valuesAreValid :: bool
  currentFrameValid :: bool
  splineCacheIsValid :: bool
  cache_v1 :: Vec
  cache_v2 :: Vec
  path :: "Frame list"
  connections :: "addr list"
  events :: "Event list"

text \<open>
  The constructor does not initialise \<^verbatim>\<open>splineCacheIsValid_\<close>: the indeterminate flag is
  the argument \<open>b\<close>. The vectors \<^verbatim>\<open>v1\<close> and \<^verbatim>\<open>v2\<close> are default-constructed.
\<close>

definition KeyFrameInterpolator :: "addr option \<Rightarrow> bool \<Rightarrow> Interpolator" where
  "KeyFrameInterpolator fr b =
     \<lparr>keyFrame = [], frame = fr,
      currentFrame0 = 0, currentFrame1 = 0, currentFrame2 = 0, currentFrame3 = 0,
      timer = None, period = 40, interpolationTime = 0, interpolationSpeed = 1,
      interpolationStarted = False, closedPath = False, loopInterpolation = False,
      pathIsValid = False, valuesAreValid = True, currentFrameValid = False,
      splineCacheIsValid = b, cache_v1 = Vec 0 0 0, cache_v2 = Vec 0 0 0,
      path = [], connections = [], events = []\<rparr>"

definition setFrame :: "addr option \<Rightarrow> Interpolator \<Rightarrow> Interpolator" where
  "setFrame fr s = s\<lparr>frame := fr\<rparr>"

definition setInterpolationTime :: "real \<Rightarrow> Interpolator \<Rightarrow> Interpolator" where
  "setInterpolationTime t s = s\<lparr>interpolationTime := t\<rparr>"

definition setInterpolationPeriod :: "int \<Rightarrow> Interpolator \<Rightarrow> Interpolator" where
  "setInterpolationPeriod p s = s\<lparr>period := p\<rparr>"

definition setInterpolationSpeed :: "real \<Rightarrow> Interpolator \<Rightarrow> Interpolator" where
  "setInterpolationSpeed v s = s\<lparr>interpolationSpeed := v\<rparr>"

definition setLoopInterpolation :: "bool \<Rightarrow> Interpolator \<Rightarrow> Interpolator" where
  "setLoopInterpolation b s = s\<lparr>loopInterpolation := b\<rparr>"

definition firstTime :: "Interpolator \<Rightarrow> real" where
  "firstTime s = (if keyFrame s = [] then 0 else kf_time (hd (keyFrame s)))"

definition lastTime :: "Interpolator \<Rightarrow> real" where
  "lastTime s = (if keyFrame s = [] then 0 else kf_time (last (keyFrame s)))"

definition numberOfKeyFrames :: "Interpolator \<Rightarrow> nat" where
  "numberOfKeyFrames s = length (keyFrame s)"

definition stopInterpolation :: "Interpolator \<Rightarrow> Interpolator" where
  "stopInterpolation s = s\<lparr>timer := None, interpolationStarted := False\<rparr>"

definition resetInterpolation :: "Interpolator \<Rightarrow> Interpolator" where
  "resetInterpolation s = setInterpolationTime (firstTime s) (stopInterpolation s)"

subsection \<open>Appending keyframes\<close>

text \<open>
  The tail shared by both \<^verbatim>\<open>addKeyFrame\<close> overloads: the monotonicity test, the append,
  then (whatever the test said) the three flags and \<^verbatim>\<open>resetInterpolation\<close>. The overload
  taking a pointer connects the frame's \<^verbatim>\<open>modified\<close> signal in between.
\<close>

definition appendKeyFrame :: "KeyFrame \<Rightarrow> real \<Rightarrow> Interpolator \<Rightarrow> Interpolator" where
  "appendKeyFrame kf t s =
     (if keyFrame s \<noteq> [] \<and> kf_time (last (keyFrame s)) > t
      then s\<lparr>events := events s @ [Warning]\<rparr>
      else s\<lparr>keyFrame := keyFrame s @ [kf]\<rparr>)"

definition invalidateAll :: "Interpolator \<Rightarrow> Interpolator" where
  "invalidateAll s =
     resetInterpolation
       (s\<lparr>valuesAreValid := False, pathIsValid := False, currentFrameValid := False\<rparr>)"

definition addKeyFrame_pointer :: "heap \<Rightarrow> addr option \<Rightarrow> real \<Rightarrow> Interpolator \<Rightarrow> Interpolator" where
  "addKeyFrame_pointer H fr t s =
     (case fr of
        None \<Rightarrow> s
      | Some a \<Rightarrow>
          let s1 = (if keyFrame s = [] then s\<lparr>interpolationTime := t\<rparr> else s);
              s2 = appendKeyFrame (KeyFrame_pointer H a t) t s1;
              s3 = s2\<lparr>connections := connections s2 @ [a]\<rparr>
          in invalidateAll s3)"

definition addKeyFrame_value :: "Frame \<Rightarrow> real \<Rightarrow> Interpolator \<Rightarrow> Interpolator" where
  "addKeyFrame_value fr t s =
     (let s1 = (if keyFrame s = [] then s\<lparr>interpolationTime := t\<rparr> else s);
          s2 = appendKeyFrame (KeyFrame_value fr t) t s1
      in invalidateAll s2)"

definition addKeyFrame_pointer_auto :: "heap \<Rightarrow> addr option \<Rightarrow> Interpolator \<Rightarrow> Interpolator" where
  "addKeyFrame_pointer_auto H fr s =
     addKeyFrame_pointer H fr (if keyFrame s = [] then 0 else lastTime s + 1) s"

definition addKeyFrame_value_auto :: "Frame \<Rightarrow> Interpolator \<Rightarrow> Interpolator" where
  "addKeyFrame_value_auto fr s =
     addKeyFrame_value fr (if keyFrame s = [] then 0 else kf_time (last (keyFrame s)) + 1) s"

definition deletePath :: "Interpolator \<Rightarrow> Interpolator" where
  "deletePath s =
     (stopInterpolation s)\<lparr>keyFrame := [], pathIsValid := False, valuesAreValid := False,
        currentFrameValid := False\<rparr>"

subsection \<open>Refreshing the keyframe values\<close>

text \<open>
  The first loop of \<^verbatim>\<open>updateModifiedFrameValues\<close>: each keyframe is refreshed from its
  frame when it has one, then flipped against the orientation of the keyframe before it.
\<close>

fun flipLoop :: "heap \<Rightarrow> Quaternion \<Rightarrow> KeyFrame list \<Rightarrow> KeyFrame list" where
  "flipLoop H prevQ [] = []"
| "flipLoop H prevQ (kf # kfs) =
     (let kf1 = (case kf_frame kf of None \<Rightarrow> kf | Some a \<Rightarrow> updateValuesFromPointer H a kf);
          kf2 = flipOrientation prevQ kf1
      in kf2 # flipLoop H (kf_q kf2) kfs)"

text \<open>
  The second loop: \<open>prev\<close> is the keyframe before \<open>kf\<close> (the first keyframe itself at the
  start), and the last keyframe stands in for its own successor.
\<close>

fun tangentLoop :: "squadTangent_fn \<Rightarrow> KeyFrame \<Rightarrow> KeyFrame list \<Rightarrow> KeyFrame list" where
  "tangentLoop sqt prev [] = []"
| "tangentLoop sqt prev [kf] = [computeTangent sqt prev kf kf]"
| "tangentLoop sqt prev (kf # nxt # rest) =
     (let kf1 = computeTangent sqt prev nxt kf
      in kf1 # tangentLoop sqt kf1 (nxt # rest))"

text \<open>
  \<^verbatim>\<open>updateModifiedFrameValues\<close> is private and dereferences \<^verbatim>\<open>keyFrame_.getFirst()\<close>:
  its two callers test \<^verbatim>\<open>keyFrame_.isEmpty()\<close> first, so the list is never empty here.
\<close>

definition updateModifiedFrameValues :: "squadTangent_fn \<Rightarrow> heap \<Rightarrow> Interpolator \<Rightarrow> Interpolator" where
  "updateModifiedFrameValues sqt H s =
     (let kfs1 = flipLoop H (kf_q (hd (keyFrame s))) (keyFrame s);
          kfs2 = tangentLoop sqt (hd kfs1) kfs1
      in s\<lparr>keyFrame := kfs2, valuesAreValid := True\<rparr>)"

subsection \<open>Tracking the current segment\<close>

text \<open>
  The two \<^verbatim>\<open>while\<close> loops of \<^verbatim>\<open>updateCurrentKeyFrameForTime\<close>, on the cursor and the
  flag \<^verbatim>\<open>currentFrameValid_\<close>. A cursor always designates a keyframe of the (non-empty)
  list, so \<^verbatim>\<open>atFirst\<close> is \<open>i = 0\<close> and \<^verbatim>\<open>atLast\<close> is \<open>Suc i = length kfs\<close>. The test
  \<open>i < length kfs\<close> of \<open>walkForward\<close> is there for the termination proof only: the
  invariant below keeps every cursor that is read within the list.
\<close>

fun walkBack :: "KeyFrame list \<Rightarrow> real \<Rightarrow> nat \<Rightarrow> bool \<Rightarrow> nat \<times> bool" where
  "walkBack kfs t i valid =
     (if kf_time (kfs ! i) > t
      then (if i = 0 then (i, False) else walkBack kfs t (i - 1) False)
      else (i, valid))"

function walkForward :: "KeyFrame list \<Rightarrow> real \<Rightarrow> nat \<Rightarrow> bool \<Rightarrow> nat \<times> bool" where
  "walkForward kfs t i valid =
     (if i < length kfs \<and> kf_time (kfs ! i) < t
      then (if Suc i = length kfs then (i, False) else walkForward kfs t (Suc i) False)
      else (i, valid))"
  by pat_completeness auto
termination
  by (relation "measure (\<lambda>(kfs, t, i, valid). length kfs - i)") auto

definition updateCurrentKeyFrameForTime :: "real \<Rightarrow> Interpolator \<Rightarrow> Interpolator" where
  "updateCurrentKeyFrameForTime t s =
     (let kfs = keyFrame s;
          s1 = (if \<not> currentFrameValid s then s\<lparr>currentFrame1 := 0\<rparr> else s);
          (c1, valid1) = walkBack kfs t (currentFrame1 s1) (currentFrameValid s1);
          s2 = s1\<lparr>currentFrame1 := c1, currentFrameValid := valid1\<rparr>;
          s3 = (if \<not> currentFrameValid s2 then s2\<lparr>currentFrame2 := currentFrame1 s2\<rparr> else s2);
          (c2, valid2) = walkForward kfs t (currentFrame2 s3) (currentFrameValid s3);
          s4 = s3\<lparr>currentFrame2 := c2, currentFrameValid := valid2\<rparr>
      in if \<not> currentFrameValid s4
         then
           let n1 = (if c2 \<noteq> 0 \<and> t < kf_time (kfs ! c2) then c2 - 1 else c2);
               n0 = (if n1 \<noteq> 0 then n1 - 1 else n1);
               n3 = (if Suc c2 \<noteq> length kfs then Suc c2 else c2)
           in s4\<lparr>currentFrame0 := n0, currentFrame1 := n1, currentFrame3 := n3,
                 currentFrameValid := True, splineCacheIsValid := False\<rparr>
         else s4)"

subsection \<open>The spline cache and the evaluation\<close>

definition spline_v1 :: "KeyFrame \<Rightarrow> KeyFrame \<Rightarrow> Vec" where
  "spline_v1 k1 k2 =
     (let delta = vsub (kf_p k2) (kf_p k1)
      in vsub (vsub (smul 3 delta) (smul 2 (kf_tgP k1))) (kf_tgP k2))"

definition spline_v2 :: "KeyFrame \<Rightarrow> KeyFrame \<Rightarrow> Vec" where
  "spline_v2 k1 k2 =
     (let delta = vsub (kf_p k2) (kf_p k1)
      in vadd (vadd (smul (- 2) delta) (kf_tgP k1)) (kf_tgP k2))"

definition updateSplineCache :: "Interpolator \<Rightarrow> Interpolator" where
  "updateSplineCache s =
     (let k1 = keyFrame s ! currentFrame1 s; k2 = keyFrame s ! currentFrame2 s
      in s\<lparr>cache_v1 := spline_v1 k1 k2, cache_v2 := spline_v2 k1 k2,
           splineCacheIsValid := True\<rparr>)"

definition emit :: "Event \<Rightarrow> Interpolator \<Rightarrow> Interpolator" where
  "emit e s = s\<lparr>events := events s @ [e]\<rparr>"

definition cubic :: "Vec \<Rightarrow> Vec \<Rightarrow> Vec \<Rightarrow> Vec \<Rightarrow> real \<Rightarrow> Vec" where
  "cubic p tg v1 v2 alpha = vadd p (smul alpha (vadd tg (smul alpha (vadd v1 (smul alpha v2)))))"

definition interpolateAtTime :: "squad_fn \<Rightarrow> squadTangent_fn \<Rightarrow> heap \<Rightarrow> real \<Rightarrow> Interpolator \<Rightarrow> Interpolator" where
  "interpolateAtTime sq sqt H t s0 =
     (let s = setInterpolationTime t s0
      in if keyFrame s = [] \<or> frame s = None then s
         else
           let s1 = (if \<not> valuesAreValid s then updateModifiedFrameValues sqt H s else s);
               s2 = updateCurrentKeyFrameForTime t s1;
               s3 = (if \<not> splineCacheIsValid s2 then updateSplineCache s2 else s2);
               k1 = keyFrame s3 ! currentFrame1 s3;
               k2 = keyFrame s3 ! currentFrame2 s3;
               dt = kf_time k2 - kf_time k1;
               alpha = (if dt = 0 then 0 else (t - kf_time k1) / dt);
               pos = cubic (kf_p k1) (kf_tgP k1) (cache_v1 s3) (cache_v2 s3) alpha;
               q = sq (kf_q k1) (kf_tgQ k1) (kf_tgQ k2) (kf_q k2) alpha
           in case frame s3 of
                None \<Rightarrow> s3
              | Some a \<Rightarrow> emit Interpolated (emit (SetPositionAndOrientation a pos q) s3))"

subsection \<open>Playback\<close>

text \<open>
  \<^verbatim>\<open>update\<close> dereferences \<^verbatim>\<open>keyFrame_.getLast()\<close> without a test: on an empty list that
  is a null pointer, and the model returns \<open>None\<close>.
\<close>

definition update :: "squad_fn \<Rightarrow> squadTangent_fn \<Rightarrow> heap \<Rightarrow> Interpolator \<Rightarrow> Interpolator option" where
  "update sq sqt H s =
     (let s1 = interpolateAtTime sq sqt H (interpolationTime s) s;
          s2 = s1\<lparr>interpolationTime :=
                  interpolationTime s1 + interpolationSpeed s1 * real_of_int (period s1) / 1000\<rparr>
      in if keyFrame s2 = [] then None
         else if interpolationTime s2 > kf_time (last (keyFrame s2))
         then Some (emit EndReached
           (if loopInterpolation s2
            then setInterpolationTime
                   (kf_time (hd (keyFrame s2)) + interpolationTime s2 - kf_time (last (keyFrame s2))) s2
            else stopInterpolation
                   (interpolateAtTime sq sqt H (kf_time (last (keyFrame s2))) s2)))
         else if interpolationTime s2 < kf_time (hd (keyFrame s2))
         then Some (emit EndReached
           (if loopInterpolation s2
            then setInterpolationTime
                   (kf_time (last (keyFrame s2)) - kf_time (hd (keyFrame s2)) + interpolationTime s2) s2
            else stopInterpolation
                   (interpolateAtTime sq sqt H (kf_time (hd (keyFrame s2))) s2)))
         else Some s2)"

definition startInterpolation :: "squad_fn \<Rightarrow> squadTangent_fn \<Rightarrow> heap \<Rightarrow> int \<Rightarrow> Interpolator \<Rightarrow> Interpolator option" where
  "startInterpolation sq sqt H p s0 =
     (let s = (if p \<ge> 0 then setInterpolationPeriod p s0 else s0)
      in if keyFrame s \<noteq> []
         then
           let s1 = (if interpolationSpeed s > 0 \<and> interpolationTime s \<ge> kf_time (last (keyFrame s))
                     then setInterpolationTime (kf_time (hd (keyFrame s))) s else s);
               s2 = (if interpolationSpeed s1 < 0 \<and> interpolationTime s1 \<le> kf_time (hd (keyFrame s1))
                     then setInterpolationTime (kf_time (last (keyFrame s1))) s1 else s1);
               s3 = s2\<lparr>timer := Some (period s2), interpolationStarted := True\<rparr>
           in update sq sqt H s3
         else Some s)"

subsection \<open>Sampling the path\<close>

text \<open>
  The part of \<^verbatim>\<open>drawPath\<close> that fills \<^verbatim>\<open>path_\<close>; the OpenGL calls that follow only read
  it. \<^verbatim>\<open>nbSteps\<close> is the constant 30.
\<close>

definition nbSteps :: nat where
  "nbSteps = 30"

definition pathFrame :: "squad_fn \<Rightarrow> KeyFrame \<Rightarrow> KeyFrame \<Rightarrow> nat \<Rightarrow> Frame" where
  "pathFrame sq k1 k2 step =
     (let alpha = real step / real nbSteps
      in Frame (cubic (kf_p k1) (kf_tgP k1) (spline_v1 k1 k2) (spline_v2 k1 k2) alpha)
               (sq (kf_q k1) (kf_tgQ k1) (kf_tgQ k2) (kf_q k2) alpha))"

text \<open>
  The \<^verbatim>\<open>while (kf_[2])\<close> loop: \<open>k1\<close> and \<open>k2\<close> are \<^verbatim>\<open>kf_[1]\<close> and \<^verbatim>\<open>kf_[2]\<close>, the list
  holds the keyframes after \<^verbatim>\<open>kf_[2]\<close> (empty when \<^verbatim>\<open>kf_[3]\<close> is null), and the result
  pairs the path with the final \<^verbatim>\<open>kf_[2]\<close>.
\<close>

fun pathLoop :: "squad_fn \<Rightarrow> KeyFrame \<Rightarrow> KeyFrame \<Rightarrow> KeyFrame list \<Rightarrow> Frame list \<Rightarrow> Frame list \<times> KeyFrame" where
  "pathLoop sq k1 k2 [] pth = (pth @ map (pathFrame sq k1 k2) [0..<nbSteps], k2)"
| "pathLoop sq k1 k2 (k3 # rest) pth =
     pathLoop sq k2 k3 rest (pth @ map (pathFrame sq k1 k2) [0..<nbSteps])"

definition drawPath :: "squad_fn \<Rightarrow> squadTangent_fn \<Rightarrow> heap \<Rightarrow> Interpolator \<Rightarrow> Interpolator" where
  "drawPath sq sqt H s =
     (if \<not> pathIsValid s
      then
        let s1 = s\<lparr>path := []\<rparr>
        in if keyFrame s1 = [] then s1
           else
             let s2 = (if \<not> valuesAreValid s1 then updateModifiedFrameValues sqt H s1 else s1);
                 s3 = (case keyFrame s2 of
                         [] \<Rightarrow> s2
                       | [k] \<Rightarrow> s2\<lparr>path := path s2 @ [Frame (kf_p k) (kf_q k)]\<rparr>
                       | k0 # k1 # rest \<Rightarrow>
                           (let (pth, kl) = pathLoop sq k0 k1 rest (path s2)
                            in s2\<lparr>path := pth @ [Frame (kf_p kl) (kf_q kl)]\<rparr>))
             in s3\<lparr>pathIsValid := True\<rparr>
      else s)"

subsection \<open>The invariant of the interpolator\<close>

text \<open>
  What every operation above keeps (the slot \<^verbatim>\<open>invalidateValues\<close>, which a modified keyframe
  frame triggers, is defined in the header and is not among them): keyframe times never
  decrease along the list; a valid window has its two middle cursors on the same keyframe
  or on neighbours, was computed on refreshed values, and a valid spline cache holds the
  coefficients of that window; after a refresh consecutive orientations have a non-negative
  dot product; and the timer runs exactly while the interpolation is started, which needs
  keyframes.
\<close>

definition continuity :: "KeyFrame list \<Rightarrow> bool" where
  "continuity kfs = successively (\<lambda>a b. 0 \<le> dot a b) (map kf_q kfs)"

definition window_ok :: "Interpolator \<Rightarrow> bool" where
  "window_ok s =
     (valuesAreValid s \<and> currentFrame1 s \<le> currentFrame2 s \<and>
      currentFrame2 s \<le> Suc (currentFrame1 s) \<and> currentFrame2 s < length (keyFrame s))"

definition cache_ok :: "Interpolator \<Rightarrow> bool" where
  "cache_ok s =
     (cache_v1 s = spline_v1 (keyFrame s ! currentFrame1 s) (keyFrame s ! currentFrame2 s) \<and>
      cache_v2 s = spline_v2 (keyFrame s ! currentFrame1 s) (keyFrame s ! currentFrame2 s))"

definition consistent :: "Interpolator \<Rightarrow> bool" where
  "consistent s =
     (sorted (map kf_time (keyFrame s)) \<and>
      (if currentFrameValid s then window_ok s \<and> (if splineCacheIsValid s then cache_ok s else True)
       else True) \<and>
      (if valuesAreValid s then continuity (keyFrame s) else True) \<and>
      (if interpolationStarted s then keyFrame s \<noteq> [] \<and> timer s \<noteq> None
       else timer s = None))"

text \<open>
  The states an interpolator can be in: built by the constructor and changed by the
  operations above, each on whatever the keyframe frames hold at that moment.
\<close>

inductive reachable :: "squad_fn \<Rightarrow> squadTangent_fn \<Rightarrow> Interpolator \<Rightarrow> bool"
  for sq :: squad_fn and sqt :: squadTangent_fn where
    constructed: "reachable sq sqt (KeyFrameInterpolator fr b)"
  | frame_set: "reachable sq sqt s \<Longrightarrow> reachable sq sqt (setFrame fr s)"
  | time_set: "reachable sq sqt s \<Longrightarrow> reachable sq sqt (setInterpolationTime t s)"
  | period_set: "reachable sq sqt s \<Longrightarrow> reachable sq sqt (setInterpolationPeriod p s)"
  | speed_set: "reachable sq sqt s \<Longrightarrow> reachable sq sqt (setInterpolationSpeed v s)"
  | loop_set: "reachable sq sqt s \<Longrightarrow> reachable sq sqt (setLoopInterpolation l s)"
  | added_value: "reachable sq sqt s \<Longrightarrow> reachable sq sqt (addKeyFrame_value f t s)"
  | added_pointer: "reachable sq sqt s \<Longrightarrow> reachable sq sqt (addKeyFrame_pointer H p t s)"
  | deleted: "reachable sq sqt s \<Longrightarrow> reachable sq sqt (deletePath s)"
  | stopped: "reachable sq sqt s \<Longrightarrow> reachable sq sqt (stopInterpolation s)"
  | reset: "reachable sq sqt s \<Longrightarrow> reachable sq sqt (resetInterpolation s)"
  | interpolated: "reachable sq sqt s \<Longrightarrow> reachable sq sqt (interpolateAtTime sq sqt H t s)"
  | updated: "reachable sq sqt s \<Longrightarrow> update sq sqt H s = Some s' \<Longrightarrow> reachable sq sqt s'"
  | started: "reachable sq sqt s \<Longrightarrow> startInterpolation sq sqt H p s = Some s' \<Longrightarrow>
              reachable sq sqt s'"
  | path_drawn: "reachable sq sqt s \<Longrightarrow> reachable sq sqt (drawPath sq sqt H s)"

subsection \<open>Auxiliary notions for the proofs\<close>

text \<open>One pass of the first refresh loop on a single keyframe.\<close>

definition refreshOne :: "heap \<Rightarrow> Quaternion \<Rightarrow> KeyFrame \<Rightarrow> KeyFrame" where
  "refreshOne H p k =
     flipOrientation p
       (case kf_frame k of None \<Rightarrow> k | Some a \<Rightarrow> updateValuesFromPointer H a k)"

text \<open>
  The two middle cursors that \<^verbatim>\<open>updateCurrentKeyFrameForTime\<close> ends with, and whether the
  window was kept as it was.
\<close>

definition located :: "real \<Rightarrow> Interpolator \<Rightarrow> nat \<times> nat \<times> bool" where
  "located t s =
     (let (c1, v1) = walkBack (keyFrame s) t (if currentFrameValid s then currentFrame1 s else 0)
                       (currentFrameValid s);
          (c2, v2) = walkForward (keyFrame s) t (if v1 then currentFrame2 s else c1) v1
      in if v2 then (c1, c2, True)
         else ((if c2 \<noteq> 0 \<and> t < kf_time (keyFrame s ! c2) then c2 - 1 else c2), c2, False))"

text \<open>
  The state \<^verbatim>\<open>interpolateAtTime\<close> has reached when it computes the pose (values refreshed,
  window located, spline cache filled), the parameter \<^verbatim>\<open>alpha\<close> and the pose itself.
\<close>

definition prepared :: "squadTangent_fn \<Rightarrow> heap \<Rightarrow> real \<Rightarrow> Interpolator \<Rightarrow> Interpolator" where
  "prepared sqt H t s =
     (let s0 = setInterpolationTime t s;
          s1 = (if \<not> valuesAreValid s0 then updateModifiedFrameValues sqt H s0 else s0);
          s2 = updateCurrentKeyFrameForTime t s1
      in if \<not> splineCacheIsValid s2 then updateSplineCache s2 else s2)"

definition segmentAlpha :: "real \<Rightarrow> Interpolator \<Rightarrow> real" where
  "segmentAlpha t s =
     (let k1 = keyFrame s ! currentFrame1 s; k2 = keyFrame s ! currentFrame2 s;
          dt = kf_time k2 - kf_time k1
      in if dt = 0 then 0 else (t - kf_time k1) / dt)"

definition evalPosition :: "real \<Rightarrow> Interpolator \<Rightarrow> Vec" where
  "evalPosition t s =
     (let k1 = keyFrame s ! currentFrame1 s
      in cubic (kf_p k1) (kf_tgP k1) (cache_v1 s) (cache_v2 s) (segmentAlpha t s))"

definition evalOrientation :: "squad_fn \<Rightarrow> real \<Rightarrow> Interpolator \<Rightarrow> Quaternion" where
  "evalOrientation sq t s =
     (let k1 = keyFrame s ! currentFrame1 s; k2 = keyFrame s ! currentFrame2 s
      in sq (kf_q k1) (kf_tgQ k1) (kf_tgQ k2) (kf_q k2) (segmentAlpha t s))"

text \<open>
  The time \<^verbatim>\<open>update\<close> advances to, and the state it has reached before it compares that
  time with the ends of the path.
\<close>

definition advanced :: "Interpolator \<Rightarrow> real" where
  "advanced s = interpolationTime s + interpolationSpeed s * real_of_int (period s) / 1000"

definition ticked :: "squad_fn \<Rightarrow> squadTangent_fn \<Rightarrow> heap \<Rightarrow> Interpolator \<Rightarrow> Interpolator" where
  "ticked sq sqt H s = (interpolateAtTime sq sqt H (interpolationTime s) s)\<lparr>interpolationTime := advanced s\<rparr>"

text \<open>
  What an evaluation at time \<open>t\<close> hands to the attached frame, read off the state the
  evaluation leaves: the call of \<^verbatim>\<open>setPositionAndOrientationWithConstraint\<close> with the
  position and the orientation computed from the window and the spline cache, then the
  signal \<^verbatim>\<open>interpolated\<close>; nothing when no frame is attached.
\<close>

definition poseEvents :: "squad_fn \<Rightarrow> real \<Rightarrow> Interpolator \<Rightarrow> Event list" where
  "poseEvents sq t s =
     (case frame s of
        None \<Rightarrow> []
      | Some a \<Rightarrow> [SetPositionAndOrientation a (evalPosition t s) (evalOrientation sq t s),
                   Interpolated])"

text \<open>The keyframes \<^verbatim>\<open>drawPath\<close> samples: refreshed first unless their values are valid.\<close>

definition sampled :: "squadTangent_fn \<Rightarrow> heap \<Rightarrow> Interpolator \<Rightarrow> KeyFrame list" where
  "sampled sqt H s =
     (if valuesAreValid s then keyFrame s else keyFrame (updateModifiedFrameValues sqt H s))"

subsection \<open>Concrete interpolators\<close>

text \<open>
  Stand-ins for the two quaternion routines on concrete inputs: a componentwise linear
  blend of the two end orientations, and the middle orientation as tangent.
\<close>

fun ex_squad :: squad_fn where
  "ex_squad (Quaternion a b c d) ta tb (Quaternion x y z w) t =
     Quaternion ((1 - t) * a + t * x) ((1 - t) * b + t * y) ((1 - t) * c + t * z)
       ((1 - t) * d + t * w)"

definition ex_squadTangent :: squadTangent_fn where
  "ex_squadTangent p q n = q"

definition ex_heap :: heap where
  "ex_heap a = Frame (Vec 2 0 0) (Quaternion 0 0 0 (- 1))"

text \<open>An interpolator attached to the frame at address 7, then given keyframes by value.\<close>

definition ex_new :: Interpolator where
  "ex_new = KeyFrameInterpolator (Some 7) False"

definition ex_one :: Interpolator where
  "ex_one = addKeyFrame_value (Frame (Vec 0 0 0) (Quaternion 0 0 0 1)) 1 ex_new"

definition ex_two :: Interpolator where
  "ex_two = addKeyFrame_value (Frame (Vec 1 0 0) (Quaternion 0 0 0 (- 1))) 2 ex_one"

text \<open>A third keyframe that follows the frame at address 3 of \<open>ex_heap\<close>.\<close>

definition ex_live :: Interpolator where
  "ex_live = addKeyFrame_pointer ex_heap (Some 3) 3 ex_two"

text \<open>
  \<open>ex_two\<close> after \<^verbatim>\<open>startInterpolation(40)\<close>: the timer runs and one tick has been made.
\<close>

definition ex_running :: Interpolator where
  "ex_running =
     ticked ex_squad ex_squadTangent ex_heap
       ((setInterpolationPeriod 40 ex_two)\<lparr>timer := Some 40, interpolationStarted := True\<rparr>)"

text \<open>Paths on which two keyframes share a time, at the end and at the start.\<close>

definition ex_dup_last :: Interpolator where
  "ex_dup_last =
     addKeyFrame_value (Frame (Vec 1 1 0) (Quaternion 0 0 0 1)) 1
       (addKeyFrame_value (Frame (Vec 1 0 0) (Quaternion 0 0 0 1)) 1
          (addKeyFrame_value (Frame (Vec 0 0 0) (Quaternion 0 0 0 1)) 0 ex_new))"

definition ex_dup_first :: Interpolator where
  "ex_dup_first =
     addKeyFrame_value (Frame (Vec 0 0 1) (Quaternion 0 0 0 1)) 1
       (addKeyFrame_value (Frame (Vec 0 1 0) (Quaternion 0 0 0 1)) 0
          (addKeyFrame_value (Frame (Vec 0 0 0) (Quaternion 0 0 0 1)) 0 ex_new))"

section \<open>Properties\<close>

subsection \<open>Quaternions and the refresh loops\<close>

lemma dot_negate [simp]: "dot a (negate b) = - dot a b"
  by (cases a; cases b) simp

lemma dot_self_nonneg [simp]: "0 \<le> dot a a"
  by (cases a) simp

lemma dot_self_not_neg [simp]: "\<not> dot a a < 0"
  by (cases a) (simp add: not_less)

lemma dot_negate_self [simp]: "dot (negate a) a = - dot a a"
  by (cases a) simp

lemma flipOrientation_dot: "0 \<le> dot p (kf_q (flipOrientation p k))"
  by (simp add: flipOrientation_def)

lemma flipOrientation_fields [simp]:
  "kf_p (flipOrientation p k) = kf_p k" "kf_time (flipOrientation p k) = kf_time k"
  "kf_frame (flipOrientation p k) = kf_frame k" "kf_tgP (flipOrientation p k) = kf_tgP k"
  "kf_tgQ (flipOrientation p k) = kf_tgQ k"
  by (simp_all add: flipOrientation_def)

lemma computeTangent_fields [simp]:
  "kf_p (computeTangent sqt a b k) = kf_p k" "kf_q (computeTangent sqt a b k) = kf_q k"
  "kf_time (computeTangent sqt a b k) = kf_time k" "kf_frame (computeTangent sqt a b k) = kf_frame k"
  by (simp_all add: computeTangent_def)

lemma successively_nth:
  "successively P xs \<Longrightarrow> Suc i < length xs \<Longrightarrow> P (xs ! i) (xs ! Suc i)"
proof (induction P xs arbitrary: i rule: successively.induct)
  case (3 P x y xs)
  then show ?case by (cases i) auto
qed auto

lemma length_flipLoop [simp]: "length (flipLoop H p kfs) = length kfs"
  by (induction kfs arbitrary: p) (auto simp: Let_def)

lemma length_tangentLoop [simp]: "length (tangentLoop sqt prev kfs) = length kfs"
  by (induction sqt prev kfs rule: tangentLoop.induct) (auto simp: Let_def)

lemma map_time_flipLoop [simp]: "map kf_time (flipLoop H p kfs) = map kf_time kfs"
  by (induction kfs arbitrary: p) (auto simp: Let_def updateValuesFromPointer_def split: option.splits)

lemma map_frame_flipLoop [simp]: "map kf_frame (flipLoop H p kfs) = map kf_frame kfs"
  by (induction kfs arbitrary: p) (auto simp: Let_def updateValuesFromPointer_def split: option.splits)

lemma map_time_tangentLoop [simp]: "map kf_time (tangentLoop sqt prev kfs) = map kf_time kfs"
  by (induction sqt prev kfs rule: tangentLoop.induct) (auto simp: Let_def)

lemma map_q_tangentLoop [simp]: "map kf_q (tangentLoop sqt prev kfs) = map kf_q kfs"
  by (induction sqt prev kfs rule: tangentLoop.induct) (auto simp: Let_def)

lemma map_p_tangentLoop [simp]: "map kf_p (tangentLoop sqt prev kfs) = map kf_p kfs"
  by (induction sqt prev kfs rule: tangentLoop.induct) (auto simp: Let_def)

lemma map_frame_tangentLoop [simp]: "map kf_frame (tangentLoop sqt prev kfs) = map kf_frame kfs"
  by (induction sqt prev kfs rule: tangentLoop.induct) (auto simp: Let_def)

lemma flipLoop_successively:
  "successively (\<lambda>a b. 0 \<le> dot a b) (p # map kf_q (flipLoop H p kfs))"
proof (induction kfs arbitrary: p)
  case Nil
  show ?case by simp
next
  case (Cons k kfs)
  show ?case using Cons.IH
    by (simp add: Let_def flipOrientation_dot)
qed

lemma flipLoop_continuity: "continuity (flipLoop H p kfs)"
  using flipLoop_successively [of p H kfs] by (auto simp: continuity_def successively_Cons)

lemma refresh_continuity: "continuity (keyFrame (updateModifiedFrameValues sqt H s))"
  by (simp add: updateModifiedFrameValues_def Let_def continuity_def flipLoop_continuity [unfolded continuity_def])

lemma flipLoop_Cons: "flipLoop H p (k # ks) = refreshOne H p k # flipLoop H (kf_q (refreshOne H p k)) ks"
  by (simp add: refreshOne_def Let_def)

lemma negate_negate [simp]: "negate (negate a) = a"
  by (cases a) simp

lemma dot_neg_nonzero: "dot p a < 0 \<Longrightarrow> 0 < dot a a"
proof (cases p; cases a)
  fix x1 x2 x3 x4 y1 y2 y3 y4
  assume h: "dot p a < 0" and p: "p = Quaternion x1 x2 x3 x4" and a: "a = Quaternion y1 y2 y3 y4"
  have "y1 \<noteq> 0 \<or> y2 \<noteq> 0 \<or> y3 \<noteq> 0 \<or> y4 \<noteq> 0"
    using h p a by auto
  then have "0 < y1 * y1 + y2 * y2 + y3 * y3 + y4 * y4"
    by (metis add_pos_nonneg add_nonneg_pos zero_le_square not_real_square_gt_zero add_nonneg_nonneg)
  then show ?thesis using a by simp
qed

lemma refreshOne_same_prev: "refreshOne H p (refreshOne H p k) = refreshOne H p k"
  by (cases "kf_frame k") (auto simp: refreshOne_def flipOrientation_def updateValuesFromPointer_def)

lemma refreshOne_own_prev: "refreshOne H (kf_q (refreshOne H p k)) (refreshOne H p k) = refreshOne H p k"
proof (cases "kf_frame k")
  case None
  then show ?thesis by (auto simp: refreshOne_def flipOrientation_def)
next
  case (Some a)
  show ?thesis
  proof (cases "dot p (orientation (H a)) < 0")
    case True
    from dot_neg_nonzero [OF this] show ?thesis using Some True
      by (auto simp: refreshOne_def flipOrientation_def updateValuesFromPointer_def)
  next
    case False
    then show ?thesis using Some
      by (auto simp: refreshOne_def flipOrientation_def updateValuesFromPointer_def)
  qed
qed

lemma flipLoop_idem: "flipLoop H p (flipLoop H p ks) = flipLoop H p ks"
proof (induction ks arbitrary: p)
  case Nil
  show ?case by simp
next
  case (Cons k ks)
  show ?case
    by (simp only: flipLoop_Cons refreshOne_same_prev Cons.IH)
qed

lemma flipLoop_idem_hd:
  "flipLoop H (kf_q (hd (flipLoop H p ks))) (flipLoop H p ks) = flipLoop H p ks"
proof (cases ks)
  case Nil
  then show ?thesis by simp
next
  case (Cons k ks')
  show ?thesis unfolding Cons
    by (simp only: flipLoop_Cons list.sel refreshOne_own_prev flipLoop_idem)
qed

text \<open>flipLoop ignores the tangent fields and carries them along.\<close>

lemma refreshOne_tangent:
  "refreshOne H p (k\<lparr>kf_tgP := a, kf_tgQ := b\<rparr>) = (refreshOne H p k)\<lparr>kf_tgP := a, kf_tgQ := b\<rparr>"
  by (cases "kf_frame k") (auto simp: refreshOne_def flipOrientation_def updateValuesFromPointer_def)

lemma refreshOne_fix_tangent:
  "refreshOne H p k = k \<Longrightarrow> refreshOne H p (computeTangent sqt x y k) = computeTangent sqt x y k"
  by (simp add: computeTangent_def refreshOne_tangent)

lemma flipLoop_Cons_fix:
  "flipLoop H p (k # ks) = k # ks \<longleftrightarrow> refreshOne H p k = k \<and> flipLoop H (kf_q k) ks = ks"
  by (metis flipLoop_Cons list.inject)

lemma flipLoop_tangentLoop_fix:
  "flipLoop H p ks = ks \<Longrightarrow> flipLoop H p (tangentLoop sqt prev ks) = tangentLoop sqt prev ks"
proof (induction sqt prev ks arbitrary: p rule: tangentLoop.induct)
  case (1 sqt prev)
  show ?case by simp
next
  case (2 sqt prev kf)
  note ab = flipLoop_Cons_fix [THEN iffD1, OF "2.prems"]
  show ?case using refreshOne_fix_tangent [OF ab [THEN conjunct1], of sqt prev kf]
    by (simp only: tangentLoop.simps flipLoop_Cons_fix flipLoop.simps(1) simp_thms)
next
  case (3 sqt prev kf nxt rest)
  let ?k1 = "computeTangent sqt prev nxt kf"
  note ab = flipLoop_Cons_fix [THEN iffD1, OF "3.prems"]
  note a = ab [THEN conjunct1] and b = ab [THEN conjunct2]
  have q: "kf_q ?k1 = kf_q kf" by simp
  have c: "flipLoop H (kf_q ?k1) (tangentLoop sqt ?k1 (nxt # rest)) = tangentLoop sqt ?k1 (nxt # rest)"
    unfolding q using "3.IH" [OF refl b] .
  show ?case using refreshOne_fix_tangent [OF a, of sqt prev nxt] c
    by (simp only: tangentLoop.simps Let_def flipLoop_Cons_fix simp_thms)
qed

lemma tangentLoop_idem:
  "kf_p prev' = kf_p prev \<Longrightarrow> kf_q prev' = kf_q prev \<Longrightarrow>
   tangentLoop sqt prev' (tangentLoop sqt prev ks) = tangentLoop sqt prev ks"
proof (induction sqt prev ks arbitrary: prev' rule: tangentLoop.induct)
  case (1 sqt prev)
  show ?case by simp
next
  case (2 sqt prev kf)
  then show ?case by (simp add: computeTangent_def)
next
  case (3 sqt prev kf nxt rest)
  have "tangentLoop sqt (computeTangent sqt prev' nxt (computeTangent sqt prev nxt kf))
          (tangentLoop sqt (computeTangent sqt prev nxt kf) (nxt # rest)) =
        tangentLoop sqt (computeTangent sqt prev nxt kf) (nxt # rest)"
    by (rule "3.IH" [OF refl]) simp_all
  moreover have "computeTangent sqt prev' nxt (computeTangent sqt prev nxt kf) = computeTangent sqt prev nxt kf"
    using "3.prems" by (simp add: computeTangent_def)
  moreover have "\<exists>y ys. tangentLoop sqt (computeTangent sqt prev nxt kf) (nxt # rest) = y # ys \<and> kf_p y = kf_p nxt \<and> kf_q y = kf_q nxt"
    by (cases rest) (simp_all add: Let_def)
  ultimately show ?case
    by (auto simp: Let_def computeTangent_def)
qed

lemma hd_flipLoop_tangent:
  "ks \<noteq> [] \<Longrightarrow> kf_q (hd (tangentLoop sqt prev ks)) = kf_q (hd ks) \<and> kf_p (hd (tangentLoop sqt prev ks)) = kf_p (hd ks)"
  by (induction sqt prev ks rule: tangentLoop.induct) (simp_all add: Let_def)

subsection \<open>The segment tracker\<close>

lemma walkBack_cases:
  "walkBack kfs t i v = (c, v') \<Longrightarrow>
     c \<le> i \<and> (if t < kf_time (kfs ! i) then \<not> v' else c = i \<and> v' = v) \<and>
     (t < kf_time (kfs ! c) \<longrightarrow> c = 0)"
proof (induction kfs t i v rule: walkBack.induct)
  case (1 kfs t i valid)
  show ?case
  proof (cases "t < kf_time (kfs ! i)")
    case False
    with "1.prems" show ?thesis by simp
  next
    case True
    show ?thesis
    proof (cases "i = 0")
      case True
      with \<open>t < kf_time (kfs ! i)\<close> "1.prems" show ?thesis by simp
    next
      case False
      with True "1.prems" have w: "walkBack kfs t (i - 1) False = (c, v')" by simp
      from "1.IH" [OF True False w] True show ?thesis
        by (auto split: if_splits)
    qed
  qed
qed

lemma walkForward_cases:
  "walkForward kfs t i v = (c, v') \<Longrightarrow> i < length kfs \<Longrightarrow>
     i \<le> c \<and> c < length kfs \<and>
     (if kf_time (kfs ! i) < t then \<not> v' else c = i \<and> v' = v) \<and>
     (kf_time (kfs ! c) < t \<longrightarrow> Suc c = length kfs) \<and>
     (i < c \<longrightarrow> kf_time (kfs ! (c - 1)) < t)"
proof (induction kfs t i v rule: walkForward.induct)
  case (1 kfs t i valid)
  show ?case
  proof (cases "kf_time (kfs ! i) < t")
    case False
    with "1.prems" show ?thesis by simp
  next
    case True
    show ?thesis
    proof (cases "Suc i = length kfs")
      case True
      with \<open>kf_time (kfs ! i) < t\<close> "1.prems" show ?thesis by auto
    next
      case False
      with True "1.prems" have w: "walkForward kfs t (Suc i) False = (c, v')"
        and l: "Suc i < length kfs" by auto
      have t: "i < length kfs \<and> kf_time (kfs ! i) < t" using True "1.prems" by simp
      from "1.IH" [OF t False w l] True show ?thesis
        by (cases "c = Suc i") (auto split: if_splits)
    qed
  qed
qed

lemma locate_unfold:
  "updateCurrentKeyFrameForTime t s =
     (case located t s of
        (c1, c2, kept) \<Rightarrow>
          if kept then s\<lparr>currentFrame1 := c1, currentFrame2 := c2, currentFrameValid := True\<rparr>
          else s\<lparr>currentFrame0 := (if c1 \<noteq> 0 then c1 - 1 else c1), currentFrame1 := c1,
                  currentFrame2 := c2,
                  currentFrame3 := (if Suc c2 \<noteq> length (keyFrame s) then Suc c2 else c2),
                  currentFrameValid := True, splineCacheIsValid := False\<rparr>)"
proof -
  let ?kfs = "keyFrame s"
  let ?i1 = "if currentFrameValid s then currentFrame1 s else 0"
  obtain b1 v1 where wb: "walkBack ?kfs t ?i1 (currentFrameValid s) = (b1, v1)"
    by (cases "walkBack ?kfs t ?i1 (currentFrameValid s)")
  let ?i2 = "if v1 then currentFrame2 s else b1"
  obtain f2 v2 where wf: "walkForward ?kfs t ?i2 v1 = (f2, v2)"
    by (cases "walkForward ?kfs t ?i2 v1")
  have wb': "walkBack ?kfs t (currentFrame1 (if \<not> currentFrameValid s then s\<lparr>currentFrame1 := 0\<rparr> else s))
       (currentFrameValid (if \<not> currentFrameValid s then s\<lparr>currentFrame1 := 0\<rparr> else s)) = (b1, v1)"
    using wb by (cases "currentFrameValid s") (simp_all del: walkBack.simps)
  have L: "located t s = (if v2 then (b1, f2, True)
         else ((if f2 \<noteq> 0 \<and> t < kf_time (keyFrame s ! f2) then f2 - 1 else f2), f2, False))"
    unfolding located_def Let_def wb prod.case wf ..
  show ?thesis
    unfolding L updateCurrentKeyFrameForTime_def Let_def wb' prod.case
    using wf
    by (cases "currentFrameValid s"; cases v1; cases v2) (simp_all del: walkBack.simps walkForward.simps)
qed

lemma located_eq:
  assumes "walkBack (keyFrame s) t (if currentFrameValid s then currentFrame1 s else 0)
             (currentFrameValid s) = (b1, v1)"
    and "walkForward (keyFrame s) t (if v1 then currentFrame2 s else b1) v1 = (f2, v2)"
  shows "located t s = (if v2 then (b1, f2, True)
         else ((if f2 \<noteq> 0 \<and> t < kf_time (keyFrame s ! f2) then f2 - 1 else f2), f2, False))"
  unfolding located_def Let_def assms prod.case ..

lemma located_props:
  assumes ne: "keyFrame s \<noteq> []"
    and w: "currentFrameValid s \<Longrightarrow> currentFrame1 s \<le> currentFrame2 s \<and>
              currentFrame2 s \<le> Suc (currentFrame1 s) \<and> currentFrame2 s < length (keyFrame s)"
    and l: "located t s = (c1, c2, kept)"
  shows "c1 \<le> c2 \<and> c2 \<le> Suc c1 \<and> c2 < length (keyFrame s) \<and>
         (kept \<longrightarrow> currentFrameValid s \<and> c1 = currentFrame1 s \<and> c2 = currentFrame2 s) \<and>
         (kf_time (keyFrame s ! c1) \<le> t \<or> (c1 = 0 \<and> c2 = 0)) \<and>
         (t \<le> kf_time (keyFrame s ! c2) \<or> (Suc c2 = length (keyFrame s) \<and> c1 = c2))"
proof -
  define kfs where "kfs = keyFrame s"
  define i1 where "i1 = (if currentFrameValid s then currentFrame1 s else 0)"
  obtain b1 v1 where wb: "walkBack kfs t i1 (currentFrameValid s) = (b1, v1)"
    by (cases "walkBack kfs t i1 (currentFrameValid s)")
  define i2 where "i2 = (if v1 then currentFrame2 s else b1)"
  obtain f2 v2 where wf: "walkForward kfs t i2 v1 = (f2, v2)"
    by (cases "walkForward kfs t i2 v1")
  have n: "0 < length kfs" using ne by (simp add: kfs_def)
  have B1: "b1 \<le> i1" and B2: "t < kf_time (kfs ! i1) \<Longrightarrow> \<not> v1"
    and B3: "\<not> t < kf_time (kfs ! i1) \<Longrightarrow> b1 = i1 \<and> v1 = currentFrameValid s"
    and B4: "t < kf_time (kfs ! b1) \<Longrightarrow> b1 = 0"
    using walkBack_cases [OF wb] by (simp_all split: if_splits)
  have i1: "i1 < length kfs"
  proof (cases "currentFrameValid s")
    case True
    with w show ?thesis by (simp add: i1_def kfs_def)
  next
    case False
    with n show ?thesis by (simp add: i1_def)
  qed
  have v1: "currentFrameValid s \<and> b1 = currentFrame1 s \<and> \<not> t < kf_time (kfs ! b1)" if "v1"
  proof -
    from that B2 have nt: "\<not> t < kf_time (kfs ! i1)" by blast
    from B3 [OF nt] that have "b1 = i1" "currentFrameValid s" by simp_all
    then show ?thesis using nt by (simp add: i1_def)
  qed
  have i2: "i2 < length kfs"
  proof (cases v1)
    case True
    with v1 w show ?thesis by (simp add: i2_def kfs_def)
  next
    case False
    with B1 i1 show ?thesis by (simp add: i2_def)
  qed
  have F1: "i2 \<le> f2" and F2: "f2 < length kfs"
    and F3: "kf_time (kfs ! i2) < t \<Longrightarrow> \<not> v2"
    and F4: "\<not> kf_time (kfs ! i2) < t \<Longrightarrow> f2 = i2 \<and> v2 = v1"
    and F5: "kf_time (kfs ! f2) < t \<Longrightarrow> Suc f2 = length kfs"
    and F6: "i2 < f2 \<Longrightarrow> kf_time (kfs ! (f2 - 1)) < t"
    using walkForward_cases [OF wf i2] by (simp_all split: if_splits)
  have L: "(c1, c2, kept) = (if v2 then (b1, f2, True)
         else ((if f2 \<noteq> 0 \<and> t < kf_time (kfs ! f2) then f2 - 1 else f2), f2, False))"
    using located_eq [OF wb [unfolded kfs_def i1_def] wf [unfolded kfs_def i2_def]] l
    by (simp only: kfs_def)
  show ?thesis
  proof (cases v2)
    case True
    from L True have e: "c1 = b1" "c2 = f2" "kept" by simp_all
    from True F3 have nt: "\<not> kf_time (kfs ! i2) < t" by blast
    from F4 [OF nt] True have "f2 = i2" "v1" by simp_all
    from v1 [OF \<open>v1\<close>] have cv: "currentFrameValid s" and b: "b1 = currentFrame1 s"
      and nb: "\<not> t < kf_time (kfs ! b1)" by blast+
    have f: "f2 = currentFrame2 s" using \<open>f2 = i2\<close> \<open>v1\<close> by (simp add: i2_def)
    from w [OF cv] e b f cv nb nt \<open>f2 = i2\<close> show ?thesis
      by (simp add: kfs_def not_less)
  next
    case False
    show ?thesis
    proof (cases "f2 \<noteq> 0 \<and> t < kf_time (kfs ! f2)")
      case True
      from L True False have e: "c1 = f2 - 1" "c2 = f2" "\<not> kept" by simp_all
      have moved: "i2 < f2"
      proof (rule ccontr)
        assume "\<not> i2 < f2"
        with F1 have e2: "f2 = i2" by simp
        show False
        proof (cases v1)
          case True
          from True e2 F4 False have "kf_time (kfs ! f2) < t" by auto
          with \<open>f2 \<noteq> 0 \<and> t < kf_time (kfs ! f2)\<close> show False by simp
        next
          case False
          with e2 have "f2 = b1" by (simp add: i2_def)
          with B4 \<open>f2 \<noteq> 0 \<and> t < kf_time (kfs ! f2)\<close> show False by simp
        qed
      qed
      from F6 [OF moved] have "kf_time (kfs ! (f2 - 1)) < t" .
      with e True F2 show ?thesis by (simp add: kfs_def)
    next
      case nostep: False
      from L nostep False have e: "c1 = f2" "c2 = f2" "\<not> kept" by auto
      have F5': "t \<le> kf_time (kfs ! f2) \<or> Suc f2 = length kfs"
        using F5 by (cases "kf_time (kfs ! f2) < t") simp_all
      have lo: "kf_time (kfs ! f2) \<le> t \<or> f2 = 0"
        using nostep by (cases "f2 = 0") simp_all
      from e F2 F5' lo show ?thesis by (auto simp: kfs_def)
    qed
  qed
qed

subsection \<open>Appending\<close>

lemmas append_defs = addKeyFrame_value_def addKeyFrame_pointer_def appendKeyFrame_def
  invalidateAll_def resetInterpolation_def stopInterpolation_def setInterpolationTime_def
  firstTime_def

lemma rejected_value:
  assumes "keyFrame s \<noteq> []" "t < kf_time (last (keyFrame s))"
  shows "addKeyFrame_value fr t s =
     s\<lparr>events := events s @ [Warning], valuesAreValid := False, pathIsValid := False,
       currentFrameValid := False, timer := None, interpolationStarted := False,
       interpolationTime := firstTime s\<rparr>"
  using assms by (simp add: append_defs)

lemma rejected_pointer:
  assumes "keyFrame s \<noteq> []" "t < kf_time (last (keyFrame s))"
  shows "addKeyFrame_pointer H (Some a) t s =
     s\<lparr>events := events s @ [Warning], connections := connections s @ [a],
       valuesAreValid := False, pathIsValid := False, currentFrameValid := False,
       timer := None, interpolationStarted := False, interpolationTime := firstTime s\<rparr>"
  using assms by (simp add: append_defs)

lemma accepted_value:
  assumes "keyFrame s \<noteq> []" "kf_time (last (keyFrame s)) \<le> t"
  shows "keyFrame (addKeyFrame_value fr t s) = keyFrame s @ [KeyFrame_value fr t]"
  using assms by (simp add: append_defs)

lemma accepted_pointer:
  assumes "keyFrame s \<noteq> []" "kf_time (last (keyFrame s)) \<le> t"
  shows "keyFrame (addKeyFrame_pointer H (Some a) t s) = keyFrame s @ [KeyFrame_pointer H a t]"
  using assms by (simp add: append_defs)

lemma keyFrame_ex_one:
  "keyFrame ex_one = [KeyFrame_value (Frame (Vec 0 0 0) (Quaternion 0 0 0 1)) 1]"
  by (simp add: ex_one_def ex_new_def KeyFrameInterpolator_def append_defs)

lemma keyFrame_ex_two:
  "keyFrame ex_two = [KeyFrame_value (Frame (Vec 0 0 0) (Quaternion 0 0 0 1)) 1,
                      KeyFrame_value (Frame (Vec 1 0 0) (Quaternion 0 0 0 (- 1))) 2]"
  by (simp add: ex_two_def keyFrame_ex_one append_defs KeyFrame_value_def)

lemma keyFrame_ex_live:
  "keyFrame ex_live = [KeyFrame_value (Frame (Vec 0 0 0) (Quaternion 0 0 0 1)) 1,
                       KeyFrame_value (Frame (Vec 1 0 0) (Quaternion 0 0 0 (- 1))) 2,
                       KeyFrame_pointer ex_heap 3 3]"
  by (simp add: ex_live_def keyFrame_ex_two append_defs KeyFrame_value_def)

subsection \<open>Evaluation\<close>

lemma last_time_map: "xs \<noteq> [] \<Longrightarrow> kf_time (last xs) = last (map kf_time xs)"
  by (simp add: last_map)

lemma hd_time_map: "xs \<noteq> [] \<Longrightarrow> kf_time (hd xs) = hd (map kf_time xs)"
  by (simp add: hd_map)

lemma refresh_times [simp]:
  "map kf_time (keyFrame (updateModifiedFrameValues sqt H s)) = map kf_time (keyFrame s)"
  by (simp add: updateModifiedFrameValues_def Let_def)

lemma refresh_length [simp]:
  "length (keyFrame (updateModifiedFrameValues sqt H s)) = length (keyFrame s)"
  by (simp add: updateModifiedFrameValues_def Let_def)

lemma locate_shape:
  "\<exists>c0 c1 c2 c3 sv. updateCurrentKeyFrameForTime t s =
     s\<lparr>currentFrame0 := c0, currentFrame1 := c1, currentFrame2 := c2, currentFrame3 := c3,
       currentFrameValid := True, splineCacheIsValid := sv\<rparr>"
proof -
  obtain c1 c2 kept where l: "located t s = (c1, c2, kept)" by (cases "located t s")
  show ?thesis
  proof (cases kept)
    case True
    have "updateCurrentKeyFrameForTime t s =
      s\<lparr>currentFrame0 := currentFrame0 s, currentFrame1 := c1, currentFrame2 := c2, currentFrame3 := currentFrame3 s,
       currentFrameValid := True, splineCacheIsValid := splineCacheIsValid s\<rparr>"
      using True by (simp add: locate_unfold l)
    then show ?thesis by blast
  next
    case False
    then show ?thesis unfolding locate_unfold l by simp blast
  qed
qed

lemma interpolateAtTime_idle:
  "keyFrame s = [] \<or> frame s = None \<Longrightarrow> interpolateAtTime sq sqt H t s = setInterpolationTime t s"
  by (auto simp: interpolateAtTime_def setInterpolationTime_def)

lemma prepared_shape:
  "\<exists>kfs vv c0 c1 c2 c3 v1 v2.
     prepared sqt H t s =
       s\<lparr>interpolationTime := t, keyFrame := kfs, valuesAreValid := vv,
         currentFrame0 := c0, currentFrame1 := c1, currentFrame2 := c2, currentFrame3 := c3,
         currentFrameValid := True, splineCacheIsValid := True, cache_v1 := v1, cache_v2 := v2\<rparr> \<and>
     map kf_time kfs = map kf_time (keyFrame s)"
proof -
  define s0 where "s0 = setInterpolationTime t s"
  define s1 where "s1 = (if \<not> valuesAreValid s0 then updateModifiedFrameValues sqt H s0 else s0)"
  define s2 where "s2 = updateCurrentKeyFrameForTime t s1"
  define s3 where "s3 = (if \<not> splineCacheIsValid s2 then updateSplineCache s2 else s2)"
  have p: "prepared sqt H t s = s3"
    unfolding prepared_def Let_def s3_def s2_def s1_def s0_def ..
  obtain c0 c1 c2 c3 sv where s2: "s2 =
     s1\<lparr>currentFrame0 := c0, currentFrame1 := c1, currentFrame2 := c2, currentFrame3 := c3,
       currentFrameValid := True, splineCacheIsValid := sv\<rparr>"
    using locate_shape [of t s1] unfolding s2_def by blast
  have s1: "s1 = s\<lparr>interpolationTime := t, keyFrame := keyFrame s1, valuesAreValid := valuesAreValid s1\<rparr>"
    unfolding s1_def s0_def setInterpolationTime_def
    by (cases "valuesAreValid s") (simp_all add: updateModifiedFrameValues_def Let_def)
  have t1: "map kf_time (keyFrame s1) = map kf_time (keyFrame s)"
    unfolding s1_def s0_def setInterpolationTime_def by simp
  have s3: "s3 = s2\<lparr>cache_v1 := cache_v1 s3, cache_v2 := cache_v2 s3, splineCacheIsValid := True\<rparr>"
    unfolding s3_def by (cases "splineCacheIsValid s2") (simp_all add: updateSplineCache_def Let_def)
  have "s3 = s\<lparr>interpolationTime := t, keyFrame := keyFrame s1, valuesAreValid := valuesAreValid s1,
         currentFrame0 := c0, currentFrame1 := c1, currentFrame2 := c2, currentFrame3 := c3,
         currentFrameValid := True, splineCacheIsValid := True, cache_v1 := cache_v1 s3, cache_v2 := cache_v2 s3\<rparr>"
    by (subst s3, subst s2, subst s1) simp
  with t1 p show ?thesis by metis
qed

lemma interpolateAtTime_active:
  assumes "keyFrame s \<noteq> []" "frame s = Some a"
  shows "interpolateAtTime sq sqt H t s =
     emit Interpolated
       (emit (SetPositionAndOrientation a (evalPosition t (prepared sqt H t s))
                (evalOrientation sq t (prepared sqt H t s)))
          (prepared sqt H t s))"
proof -
  obtain kfs vv c0 c1 c2 c3 v1 v2 where
    "prepared sqt H t s =
       s\<lparr>interpolationTime := t, keyFrame := kfs, valuesAreValid := vv,
         currentFrame0 := c0, currentFrame1 := c1, currentFrame2 := c2, currentFrame3 := c3,
         currentFrameValid := True, splineCacheIsValid := True, cache_v1 := v1, cache_v2 := v2\<rparr>"
    using prepared_shape [of sqt H t s] by blast
  then have f: "frame (prepared sqt H t s) = Some a" using assms by simp
  have "interpolateAtTime sq sqt H t s =
     (case frame (prepared sqt H t s) of None \<Rightarrow> prepared sqt H t s
      | Some a \<Rightarrow> emit Interpolated
       (emit (SetPositionAndOrientation a (evalPosition t (prepared sqt H t s))
                (evalOrientation sq t (prepared sqt H t s)))
          (prepared sqt H t s)))"
    using assms unfolding interpolateAtTime_def prepared_def evalPosition_def evalOrientation_def segmentAlpha_def Let_def
    by (simp add: setInterpolationTime_def)
  then show ?thesis by (simp add: f)
qed

subsection \<open>Playback\<close>

lemma interpolateAtTime_shape:
  "\<exists>kfs vv c0 c1 c2 c3 cv sv v1 v2 ev.
     interpolateAtTime sq sqt H t s =
       s\<lparr>interpolationTime := t, keyFrame := kfs, valuesAreValid := vv,
         currentFrame0 := c0, currentFrame1 := c1, currentFrame2 := c2, currentFrame3 := c3,
         currentFrameValid := cv, splineCacheIsValid := sv, cache_v1 := v1, cache_v2 := v2,
         events := events s @ ev\<rparr> \<and>
     map kf_time kfs = map kf_time (keyFrame s) \<and> count_list ev EndReached = 0"
proof (cases "keyFrame s = [] \<or> frame s = None")
  case True
  have "interpolateAtTime sq sqt H t s = s\<lparr>interpolationTime := t, keyFrame := keyFrame s, valuesAreValid := valuesAreValid s,
         currentFrame0 := currentFrame0 s, currentFrame1 := currentFrame1 s, currentFrame2 := currentFrame2 s, currentFrame3 := currentFrame3 s,
         currentFrameValid := currentFrameValid s, splineCacheIsValid := splineCacheIsValid s, cache_v1 := cache_v1 s, cache_v2 := cache_v2 s,
         events := events s @ []\<rparr>"
    by (simp add: interpolateAtTime_idle [OF True] setInterpolationTime_def)
  moreover have "count_list ([]::Event list) EndReached = 0" by simp
  ultimately show ?thesis by blast
next
  case False
  then obtain a where a: "frame s = Some a" and ne: "keyFrame s \<noteq> []" by auto
  obtain kfs vv c0 c1 c2 c3 v1 v2 where
    p: "prepared sqt H t s =
       s\<lparr>interpolationTime := t, keyFrame := kfs, valuesAreValid := vv,
         currentFrame0 := c0, currentFrame1 := c1, currentFrame2 := c2, currentFrame3 := c3,
         currentFrameValid := True, splineCacheIsValid := True, cache_v1 := v1, cache_v2 := v2\<rparr>"
    and tm: "map kf_time kfs = map kf_time (keyFrame s)"
    using prepared_shape [of sqt H t s] by blast
  define ev where "ev = [SetPositionAndOrientation a (evalPosition t (prepared sqt H t s))
                (evalOrientation sq t (prepared sqt H t s)), Interpolated]"
  have "interpolateAtTime sq sqt H t s = (prepared sqt H t s)\<lparr>events := events (prepared sqt H t s) @ ev\<rparr>"
    by (simp add: interpolateAtTime_active [OF ne a] emit_def ev_def)
  also have "\<dots> = s\<lparr>interpolationTime := t, keyFrame := kfs, valuesAreValid := vv,
         currentFrame0 := c0, currentFrame1 := c1, currentFrame2 := c2, currentFrame3 := c3,
         currentFrameValid := True, splineCacheIsValid := True, cache_v1 := v1, cache_v2 := v2,
         events := events s @ ev\<rparr>"
    by (subst (1 2) p) simp
  finally have "interpolateAtTime sq sqt H t s = s\<lparr>interpolationTime := t, keyFrame := kfs, valuesAreValid := vv,
         currentFrame0 := c0, currentFrame1 := c1, currentFrame2 := c2, currentFrame3 := c3,
         currentFrameValid := True, splineCacheIsValid := True, cache_v1 := v1, cache_v2 := v2,
         events := events s @ ev\<rparr>" .
  moreover have "count_list ev EndReached = 0" by (simp add: ev_def)
  ultimately show ?thesis using tm by blast
qed

lemma interpolateAtTime_fields:
  "interpolationTime (interpolateAtTime sq sqt H t s) = t"
  "interpolationSpeed (interpolateAtTime sq sqt H t s) = interpolationSpeed s"
  "period (interpolateAtTime sq sqt H t s) = period s"
  "loopInterpolation (interpolateAtTime sq sqt H t s) = loopInterpolation s"
  "interpolationStarted (interpolateAtTime sq sqt H t s) = interpolationStarted s"
  "timer (interpolateAtTime sq sqt H t s) = timer s"
  "frame (interpolateAtTime sq sqt H t s) = frame s"
  "map kf_time (keyFrame (interpolateAtTime sq sqt H t s)) = map kf_time (keyFrame s)"
  "count_list (events (interpolateAtTime sq sqt H t s)) EndReached = count_list (events s) EndReached"
  using interpolateAtTime_shape [of sq sqt H t s] by auto

lemma interpolateAtTime_empty_iff:
  "keyFrame (interpolateAtTime sq sqt H t s) = [] \<longleftrightarrow> keyFrame s = []"
  using interpolateAtTime_fields(8) [of sq sqt H t s] by (metis map_is_Nil_conv)

lemma interpolateAtTime_times:
  assumes "keyFrame s \<noteq> []"
  shows "kf_time (hd (keyFrame (interpolateAtTime sq sqt H t s))) = firstTime s"
    and "kf_time (last (keyFrame (interpolateAtTime sq sqt H t s))) = lastTime s"
proof -
  have ne: "keyFrame (interpolateAtTime sq sqt H t s) \<noteq> []"
    using assms by (simp add: interpolateAtTime_empty_iff)
  show "kf_time (hd (keyFrame (interpolateAtTime sq sqt H t s))) = firstTime s"
    using assms by (simp add: hd_time_map [OF ne] interpolateAtTime_fields firstTime_def hd_time_map)
  show "kf_time (last (keyFrame (interpolateAtTime sq sqt H t s))) = lastTime s"
    using assms by (simp add: last_time_map [OF ne] interpolateAtTime_fields lastTime_def last_time_map)
qed

lemma update_unfold:
  assumes ne: "keyFrame s \<noteq> []"
  shows "update sq sqt H s =
    (if advanced s > lastTime s
     then Some (emit EndReached
       (if loopInterpolation s
        then setInterpolationTime (firstTime s + advanced s - lastTime s) (ticked sq sqt H s)
        else stopInterpolation (interpolateAtTime sq sqt H (lastTime s) (ticked sq sqt H s))))
     else if advanced s < firstTime s
     then Some (emit EndReached
       (if loopInterpolation s
        then setInterpolationTime (lastTime s - firstTime s + advanced s) (ticked sq sqt H s)
        else stopInterpolation (interpolateAtTime sq sqt H (firstTime s) (ticked sq sqt H s))))
     else Some (ticked sq sqt H s))"
proof -
  let ?s1 = "interpolateAtTime sq sqt H (interpolationTime s) s"
  have ne1: "keyFrame ?s1 \<noteq> []" using ne by (simp add: interpolateAtTime_empty_iff)
  note tm = interpolateAtTime_times [OF ne, of sq sqt H "interpolationTime s"]
  show ?thesis
    unfolding update_def Let_def
    by (simp add: ticked_def advanced_def interpolateAtTime_fields ne1 tm)
qed

lemma sorted_hd_le_last: "sorted xs \<Longrightarrow> xs \<noteq> [] \<Longrightarrow> hd xs \<le> (last xs :: real)"
  by (cases xs) (auto)

lemma firstTime_le_lastTime: "consistent s \<Longrightarrow> firstTime s \<le> lastTime s"
  by (auto simp: consistent_def firstTime_def lastTime_def hd_time_map last_time_map intro: sorted_hd_le_last)

lemma count_emit [simp]:
  "count_list (events (emit e s)) x = count_list (events s) x + (if e = x then 1 else 0)"
  by (simp add: emit_def)

lemma ticked_fields:
  "interpolationStarted (ticked sq sqt H s) = interpolationStarted s"
  "timer (ticked sq sqt H s) = timer s"
  "count_list (events (ticked sq sqt H s)) EndReached = count_list (events s) EndReached"
  "interpolationTime (ticked sq sqt H s) = advanced s"
  by (simp_all add: ticked_def interpolateAtTime_fields)

subsection \<open>Path sampling\<close>

lemma pathLoop_length:
  "length (fst (pathLoop sq k1 k2 rest pth)) = length pth + nbSteps * Suc (length rest)"
  by (induction sq k1 k2 rest pth rule: pathLoop.induct) simp_all

lemma pathLoop_last: "snd (pathLoop sq k1 k2 rest pth) = last (k2 # rest)"
  by (induction sq k1 k2 rest pth rule: pathLoop.induct) simp_all

lemma refresh_keyFrame_cong:
  "keyFrame s = keyFrame s' \<Longrightarrow>
   keyFrame (updateModifiedFrameValues sqt H s) = keyFrame (updateModifiedFrameValues sqt H s')"
  by (simp add: updateModifiedFrameValues_def Let_def)

lemma sampled_length [simp]: "length (sampled sqt H s) = length (keyFrame s)"
  by (simp add: sampled_def)

lemma drawPath_cases:
  assumes "\<not> pathIsValid s"
  shows "keyFrame (drawPath sq sqt H s) = sampled sqt H s \<and>
         path (drawPath sq sqt H s) =
           (case sampled sqt H s of
              [] \<Rightarrow> []
            | [k] \<Rightarrow> [Frame (kf_p k) (kf_q k)]
            | k0 # k1 # rest \<Rightarrow>
                fst (pathLoop sq k0 k1 rest []) @
                [Frame (kf_p (snd (pathLoop sq k0 k1 rest []))) (kf_q (snd (pathLoop sq k0 k1 rest [])))])"
proof (cases "keyFrame s = []")
  case True
  then show ?thesis using assms by (simp add: drawPath_def sampled_def updateModifiedFrameValues_def Let_def)
next
  case False
  define s2 where "s2 = (if \<not> valuesAreValid (s\<lparr>path := []\<rparr>)
      then updateModifiedFrameValues sqt H (s\<lparr>path := []\<rparr>) else s\<lparr>path := []\<rparr>)"
  have k2: "keyFrame s2 = sampled sqt H s"
    unfolding s2_def sampled_def
    using refresh_keyFrame_cong [of "s\<lparr>path := []\<rparr>" s sqt H] by simp
  have p2: "path s2 = []"
    unfolding s2_def by (simp add: updateModifiedFrameValues_def Let_def)
  have d: "drawPath sq sqt H s =
     (case keyFrame s2 of
        [] \<Rightarrow> s2
      | [k] \<Rightarrow> s2\<lparr>path := path s2 @ [Frame (kf_p k) (kf_q k)]\<rparr>
      | k0 # k1 # rest \<Rightarrow>
          (let (pth, kl) = pathLoop sq k0 k1 rest (path s2)
           in s2\<lparr>path := pth @ [Frame (kf_p kl) (kf_q kl)]\<rparr>))\<lparr>pathIsValid := True\<rparr>"
    using assms False unfolding drawPath_def Let_def s2_def by simp
  show ?thesis
  proof (cases "sampled sqt H s")
    case Nil
    then show ?thesis using d k2 p2 by simp
  next
    case (Cons k0 ks)
    show ?thesis
    proof (cases ks)
      case Nil
      then show ?thesis using d k2 p2 Cons by simp
    next
      case (Cons k1 rest)
      then show ?thesis using d k2 p2 \<open>sampled sqt H s = k0 # ks\<close>
        by (simp add: case_prod_beta)
    qed
  qed
qed

subsection \<open>The invariant along an evaluation\<close>

lemma consistent_setInterpolationTime [simp]: "consistent (setInterpolationTime t s) = consistent s"
  by (simp add: consistent_def window_ok_def cache_ok_def setInterpolationTime_def)

lemma consistent_window: "consistent s \<Longrightarrow> currentFrameValid s \<Longrightarrow> window_ok s"
  by (simp add: consistent_def split: if_splits)

lemma consistent_sorted: "consistent s \<Longrightarrow> sorted (map kf_time (keyFrame s))"
  by (simp add: consistent_def)

lemma consistent_continuity: "consistent s \<Longrightarrow> valuesAreValid s \<Longrightarrow> continuity (keyFrame s)"
  by (simp add: consistent_def split: if_splits)

lemma refresh_consistent:
  assumes "consistent s" "\<not> valuesAreValid s"
  shows "consistent (updateModifiedFrameValues sqt H s)"
proof -
  have nv: "\<not> currentFrameValid s"
    using consistent_window [OF assms(1)] assms(2) by (auto simp: window_ok_def)
  have c: "continuity (keyFrame (updateModifiedFrameValues sqt H s))" by (rule refresh_continuity)
  have t: "map kf_time (keyFrame (updateModifiedFrameValues sqt H s)) = map kf_time (keyFrame s)"
    by simp
  have e: "keyFrame (updateModifiedFrameValues sqt H s) = [] \<longleftrightarrow> keyFrame s = []"
    using refresh_length [of sqt H s] by (metis length_0_conv)
  have f: "currentFrameValid (updateModifiedFrameValues sqt H s) = currentFrameValid s"
    "valuesAreValid (updateModifiedFrameValues sqt H s)"
    "interpolationStarted (updateModifiedFrameValues sqt H s) = interpolationStarted s"
    "timer (updateModifiedFrameValues sqt H s) = timer s"
    by (simp_all add: updateModifiedFrameValues_def Let_def)
  show ?thesis
    using assms(1) nv c unfolding consistent_def t e f by simp
qed

lemma located_state:
  assumes l: "located t s = (c1, c2, kept)"
  shows "keyFrame (updateCurrentKeyFrameForTime t s) = keyFrame s"
    "valuesAreValid (updateCurrentKeyFrameForTime t s) = valuesAreValid s"
    "interpolationStarted (updateCurrentKeyFrameForTime t s) = interpolationStarted s"
    "timer (updateCurrentKeyFrameForTime t s) = timer s"
    "cache_v1 (updateCurrentKeyFrameForTime t s) = cache_v1 s"
    "cache_v2 (updateCurrentKeyFrameForTime t s) = cache_v2 s"
    "currentFrameValid (updateCurrentKeyFrameForTime t s)"
    "currentFrame1 (updateCurrentKeyFrameForTime t s) = c1"
    "currentFrame2 (updateCurrentKeyFrameForTime t s) = c2"
    "splineCacheIsValid (updateCurrentKeyFrameForTime t s) = (kept \<and> splineCacheIsValid s)"
  by (simp_all add: locate_unfold l)

lemma locate_consistent:
  fixes t :: real
  assumes i: "consistent s" and v: "valuesAreValid s" and ne: "keyFrame s \<noteq> []"
  defines "s2 \<equiv> updateCurrentKeyFrameForTime t s"
  shows "consistent s2 \<and> window_ok s2 \<and> currentFrameValid s2 \<and> keyFrame s2 = keyFrame s \<and>
         (splineCacheIsValid s2 \<longrightarrow> cache_ok s2) \<and>
         (kf_time (keyFrame s ! currentFrame1 s2) \<le> t \<or> (currentFrame1 s2 = 0 \<and> currentFrame2 s2 = 0)) \<and>
         (t \<le> kf_time (keyFrame s ! currentFrame2 s2) \<or>
            (Suc (currentFrame2 s2) = length (keyFrame s) \<and> currentFrame1 s2 = currentFrame2 s2))"
proof -
  obtain c1 c2 kept where l: "located t s = (c1, c2, kept)" by (cases "located t s")
  note st = located_state [OF l, folded s2_def]
  have w: "currentFrameValid s \<Longrightarrow> currentFrame1 s \<le> currentFrame2 s \<and>
              currentFrame2 s \<le> Suc (currentFrame1 s) \<and> currentFrame2 s < length (keyFrame s)"
    using consistent_window [OF i] by (simp add: window_ok_def)
  note P = located_props [OF ne w l]
  have wo: "window_ok s2" using P v by (simp add: window_ok_def st)
  have co: "cache_ok s2" if "splineCacheIsValid s2"
  proof -
    from that have k: kept and sv: "splineCacheIsValid s" by (simp_all add: st)
    from P k have cv: "currentFrameValid s" and e: "c1 = currentFrame1 s" "c2 = currentFrame2 s" by simp_all
    from i cv sv have "cache_ok s" by (simp add: consistent_def)
    then show ?thesis by (simp add: cache_ok_def st e)
  qed
  have "consistent s2"
    using i v wo co unfolding consistent_def st by (simp split: if_splits)
  with wo co P show ?thesis by (simp add: st)
qed

lemma prepared_props:
  fixes t :: real and sqt :: squadTangent_fn and H :: heap
  assumes i: "consistent s" and ne: "keyFrame s \<noteq> []"
  defines "s3 \<equiv> prepared sqt H t s"
  shows "consistent s3 \<and> window_ok s3 \<and> cache_ok s3 \<and> currentFrameValid s3 \<and> splineCacheIsValid s3 \<and>
         keyFrame s3 = sampled sqt H s \<and> continuity (keyFrame s3) \<and>
         (kf_time (keyFrame s3 ! currentFrame1 s3) \<le> t \<or> (currentFrame1 s3 = 0 \<and> currentFrame2 s3 = 0)) \<and>
         (t \<le> kf_time (keyFrame s3 ! currentFrame2 s3) \<or>
            (Suc (currentFrame2 s3) = length (keyFrame s3) \<and> currentFrame1 s3 = currentFrame2 s3))"
proof -
  define s0 where "s0 = setInterpolationTime t s"
  define s1 where "s1 = (if \<not> valuesAreValid s0 then updateModifiedFrameValues sqt H s0 else s0)"
  define s2 where "s2 = updateCurrentKeyFrameForTime t s1"
  have p: "s3 = (if \<not> splineCacheIsValid s2 then updateSplineCache s2 else s2)"
    unfolding s3_def prepared_def Let_def s2_def s1_def s0_def ..
  have i0: "consistent s0" using i by (simp add: s0_def)
  have i1: "consistent s1" using i0 refresh_consistent [of s0 sqt H] by (simp add: s1_def)
  have v1: "valuesAreValid s1" by (simp add: s1_def updateModifiedFrameValues_def Let_def)
  have k1: "keyFrame s1 = sampled sqt H s"
    unfolding s1_def s0_def sampled_def setInterpolationTime_def
    using refresh_keyFrame_cong [of "s\<lparr>interpolationTime := t\<rparr>" s sqt H] by simp
  have ne1: "keyFrame s1 \<noteq> []" using ne sampled_length [of sqt H s] unfolding k1
    by (metis length_0_conv)
  note L = locate_consistent [OF i1 v1 ne1, of t, folded s2_def]
  have k2: "keyFrame s2 = keyFrame s1" using L by simp
  have f3: "keyFrame s3 = keyFrame s2" "currentFrame1 s3 = currentFrame1 s2"
    "currentFrame2 s3 = currentFrame2 s2" "currentFrameValid s3 = currentFrameValid s2"
    "valuesAreValid s3 = valuesAreValid s2" "interpolationStarted s3 = interpolationStarted s2"
    "timer s3 = timer s2" "splineCacheIsValid s3"
    unfolding p by (simp_all add: updateSplineCache_def Let_def)
  have w2: "window_ok s2" using L by blast
  have w3: "window_ok s3" using w2 by (simp add: window_ok_def f3)
  have c3: "cache_ok s3"
  proof (cases "splineCacheIsValid s2")
    case True
    with L have "cache_ok s2" by simp
    with True show ?thesis by (simp add: p)
  next
    case False
    then show ?thesis by (simp add: p cache_ok_def updateSplineCache_def Let_def)
  qed
  have i2: "consistent s2" using L by blast
  then have a: "sorted (map kf_time (keyFrame s2))"
    and b: "if valuesAreValid s2 then continuity (keyFrame s2) else True"
    and c: "if interpolationStarted s2 then keyFrame s2 \<noteq> [] \<and> timer s2 \<noteq> None
            else timer s2 = None"
    by (simp_all add: consistent_def)
  have i3: "consistent s3"
    unfolding consistent_def f3 using a b c w3 c3 by simp
  have ct: "continuity (keyFrame s3)"
    using consistent_continuity [OF i1 v1] by (simp add: f3 k2)
  show ?thesis
    using i3 w3 c3 ct L by (simp add: f3 k2 k1)
qed

lemma cubic_zero [simp]: "cubic p tg v1 v2 0 = p"
  by (cases p; cases tg; cases v1; cases v2) (simp add: cubic_def)

lemma cubic_one: "cubic (kf_p k1) (kf_tgP k1) (spline_v1 k1 k2) (spline_v2 k1 k2) 1 = kf_p k2"
  by (cases "kf_p k1"; cases "kf_p k2"; cases "kf_tgP k1"; cases "kf_tgP k2")
     (simp add: cubic_def spline_v1_def spline_v2_def Let_def)

lemma sampled_times [simp]: "map kf_time (sampled sqt H s) = map kf_time (keyFrame s)"
  by (simp add: sampled_def)

lemma sampled_time_nth:
  "i < length (keyFrame s) \<Longrightarrow> kf_time (sampled sqt H s ! i) = kf_time (keyFrame s ! i)"
  using sampled_times [of sqt H s] by (metis nth_map sampled_length)

lemma sorted_nth_le_last:
  "sorted (map kf_time ks) \<Longrightarrow> i < length ks \<Longrightarrow> kf_time (ks ! i) \<le> kf_time (last ks)"
  by (cases "ks = []") (auto simp: last_conv_nth sorted_iff_nth_mono dest!: spec [of _ i])

lemma sorted_hd_le_nth:
  "sorted (map kf_time ks) \<Longrightarrow> i < length ks \<Longrightarrow> kf_time (hd ks) \<le> kf_time (ks ! i)"
  by (cases "ks = []") (auto simp: hd_conv_nth sorted_iff_nth_mono)

lemma sorted_nth_mono_time:
  "sorted (map kf_time ks) \<Longrightarrow> i \<le> j \<Longrightarrow> j < length ks \<Longrightarrow> kf_time (ks ! i) \<le> kf_time (ks ! j)"
  by (auto simp: sorted_iff_nth_mono)

text \<open>What an evaluation with keyframes and a frame leaves behind.\<close>

lemma evaluation_result:
  fixes t :: real and sq :: squad_fn and sqt :: squadTangent_fn and H :: heap
  assumes i: "consistent s" and ne: "keyFrame s \<noteq> []" and fr: "frame s = Some a"
  defines "s' \<equiv> interpolateAtTime sq sqt H t s"
  shows "events s' = events s @
           [SetPositionAndOrientation a (evalPosition t s') (evalOrientation sq t s'), Interpolated]"
    and "keyFrame s' = sampled sqt H s"
    and "consistent s'" and "window_ok s'" and "cache_ok s'" and "continuity (keyFrame s')"
    and "kf_time (keyFrame s' ! currentFrame1 s') \<le> t \<or> (currentFrame1 s' = 0 \<and> currentFrame2 s' = 0)"
    and "t \<le> kf_time (keyFrame s' ! currentFrame2 s') \<or>
            (Suc (currentFrame2 s') = length (keyFrame s') \<and> currentFrame1 s' = currentFrame2 s')"
    and "currentFrameValid s'" and "splineCacheIsValid s'" and "valuesAreValid s'"
proof -
  define s3 where "s3 = prepared sqt H t s"
  define ev where "ev = [SetPositionAndOrientation a (evalPosition t s3) (evalOrientation sq t s3), Interpolated]"
  have e: "s' = s3\<lparr>events := events s3 @ ev\<rparr>"
    unfolding s'_def interpolateAtTime_active [OF ne fr] s3_def ev_def by (simp add: emit_def)
  have e3: "events s3 = events s"
    using prepared_shape [of sqt H t s] unfolding s3_def by auto
  have f: "keyFrame s' = keyFrame s3" "currentFrame1 s' = currentFrame1 s3"
    "currentFrame2 s' = currentFrame2 s3" "cache_v1 s' = cache_v1 s3" "cache_v2 s' = cache_v2 s3"
    "currentFrameValid s' = currentFrameValid s3" "splineCacheIsValid s' = splineCacheIsValid s3"
    "valuesAreValid s' = valuesAreValid s3" "interpolationStarted s' = interpolationStarted s3"
    "timer s' = timer s3"
    by (simp_all add: e)
  have p: "evalPosition t s' = evalPosition t s3" "evalOrientation sq t s' = evalOrientation sq t s3"
    by (simp_all add: evalPosition_def evalOrientation_def segmentAlpha_def f)
  note P = prepared_props [OF i ne, of sqt H t, folded s3_def]
  show "events s' = events s @
           [SetPositionAndOrientation a (evalPosition t s') (evalOrientation sq t s'), Interpolated]"
    unfolding p by (simp add: e e3 ev_def)
  show "keyFrame s' = sampled sqt H s" using P by (simp add: f)
  show "consistent s'" using P unfolding consistent_def window_ok_def cache_ok_def f by blast
  show "window_ok s'" using P unfolding window_ok_def f by blast
  show "cache_ok s'" using P unfolding cache_ok_def f by blast
  show "continuity (keyFrame s')" using P unfolding f by blast
  show "kf_time (keyFrame s' ! currentFrame1 s') \<le> t \<or> (currentFrame1 s' = 0 \<and> currentFrame2 s' = 0)"
    using P unfolding f by blast
  show "t \<le> kf_time (keyFrame s' ! currentFrame2 s') \<or>
            (Suc (currentFrame2 s') = length (keyFrame s') \<and> currentFrame1 s' = currentFrame2 s')"
    using P unfolding f by blast
  show "currentFrameValid s'" "splineCacheIsValid s'" using P unfolding f by blast+
  show "valuesAreValid s'" using P unfolding window_ok_def f by blast
qed

lemma alpha_same_cursor: "currentFrame1 s = currentFrame2 s \<Longrightarrow> segmentAlpha t s = 0"
  by (simp add: segmentAlpha_def)

lemma continuity_nth:
  "continuity ks \<Longrightarrow> Suc i < length ks \<Longrightarrow> 0 \<le> dot (kf_q (ks ! i)) (kf_q (ks ! Suc i))"
  using successively_nth [of "\<lambda>a b. 0 \<le> dot a b" "map kf_q ks" i]
  by (simp add: continuity_def)

subsection \<open>Every operation keeps the invariant\<close>

lemma sorted_snoc_time:
  assumes "sorted (map kf_time ks)" and "ks = [] \<or> kf_time (last ks) \<le> kf_time k"
  shows "sorted (map kf_time (ks @ [k]))"
proof (cases "ks = []")
  case True
  then show ?thesis by simp
next
  case False
  have "kf_time x \<le> kf_time k" if "x \<in> set ks" for x
  proof -
    from that obtain i where "i < length ks" "x = ks ! i" by (auto simp: in_set_conv_nth)
    with sorted_nth_le_last [OF assms(1)] assms(2) False show ?thesis by fastforce
  qed
  with assms(1) show ?thesis by (auto simp: sorted_append)
qed

lemma consistent_cong:
  assumes "keyFrame s' = keyFrame s" "currentFrameValid s' = currentFrameValid s"
    "valuesAreValid s' = valuesAreValid s" "splineCacheIsValid s' = splineCacheIsValid s"
    "currentFrame1 s' = currentFrame1 s" "currentFrame2 s' = currentFrame2 s"
    "cache_v1 s' = cache_v1 s" "cache_v2 s' = cache_v2 s"
    "interpolationStarted s' = interpolationStarted s" "timer s' = timer s"
  shows "consistent s' = consistent s"
  unfolding consistent_def window_ok_def cache_ok_def assms ..

lemma consistent_playback:
  assumes "consistent s" and "if b then keyFrame s \<noteq> [] \<and> tm \<noteq> None else tm = None"
  shows "consistent (s\<lparr>timer := tm, interpolationStarted := b\<rparr>)"
proof -
  let ?s = "s\<lparr>timer := tm, interpolationStarted := b\<rparr>"
  have w: "window_ok ?s = window_ok s" "cache_ok ?s = cache_ok s"
    by (simp_all add: window_ok_def cache_ok_def)
  from assms(1) have "sorted (map kf_time (keyFrame s))"
    and "if currentFrameValid s then window_ok s \<and> (if splineCacheIsValid s then cache_ok s else True)
         else True"
    and "if valuesAreValid s then continuity (keyFrame s) else True"
    by (simp_all add: consistent_def)
  with assms(2) show ?thesis unfolding consistent_def w by simp
qed

lemma consistent_init: "consistent (KeyFrameInterpolator fr b)"
  by (simp add: consistent_def KeyFrameInterpolator_def continuity_def)

lemma appendKeyFrame_sorted:
  "sorted (map kf_time (keyFrame s)) \<Longrightarrow> kf_time kf = t \<Longrightarrow>
   sorted (map kf_time (keyFrame (appendKeyFrame kf t s)))"
proof (cases "keyFrame s \<noteq> [] \<and> t < kf_time (last (keyFrame s))")
  case True
  assume "sorted (map kf_time (keyFrame s))"
  with True show ?thesis by (simp add: appendKeyFrame_def)
next
  case False
  assume a: "sorted (map kf_time (keyFrame s))" and b: "kf_time kf = t"
  from False b have "keyFrame s = [] \<or> kf_time (last (keyFrame s)) \<le> kf_time kf" by auto
  from sorted_snoc_time [OF a this] have c: "sorted (map kf_time (keyFrame s @ [kf]))" .
  have "appendKeyFrame kf t s = s\<lparr>keyFrame := keyFrame s @ [kf]\<rparr>"
    using False by (auto simp: appendKeyFrame_def)
  with c show ?thesis by simp
qed

lemma consistent_invalidateAll:
  "sorted (map kf_time (keyFrame s)) \<Longrightarrow> consistent (invalidateAll s)"
  by (simp add: invalidateAll_def resetInterpolation_def stopInterpolation_def
        setInterpolationTime_def consistent_def)

lemma consistent_addKeyFrame_value: "consistent s \<Longrightarrow> consistent (addKeyFrame_value fr t s)"
  unfolding addKeyFrame_value_def Let_def
  by (rule consistent_invalidateAll, rule appendKeyFrame_sorted)
     (auto simp: KeyFrame_value_def dest: consistent_sorted)

lemma consistent_addKeyFrame_pointer: "consistent s \<Longrightarrow> consistent (addKeyFrame_pointer H fr t s)"
proof (cases fr)
  case None
  then show "consistent s \<Longrightarrow> ?thesis" by (simp add: addKeyFrame_pointer_def)
next
  case (Some a)
  assume i: "consistent s"
  have "sorted (map kf_time (keyFrame (appendKeyFrame (KeyFrame_pointer H a t) t
          (if keyFrame s = [] then s\<lparr>interpolationTime := t\<rparr> else s))))"
    by (rule appendKeyFrame_sorted)
       (use consistent_sorted [OF i] in \<open>auto simp: KeyFrame_pointer_def updateValuesFromPointer_def\<close>)
  then show ?thesis
    unfolding addKeyFrame_pointer_def Let_def Some option.case
    by (intro consistent_invalidateAll) simp
qed

lemma consistent_deletePath: "consistent (deletePath s)"
  by (simp add: deletePath_def stopInterpolation_def consistent_def)

lemma consistent_stopInterpolation: "consistent s \<Longrightarrow> consistent (stopInterpolation s)"
  unfolding stopInterpolation_def by (rule consistent_playback) simp_all

lemma consistent_resetInterpolation: "consistent s \<Longrightarrow> consistent (resetInterpolation s)"
  by (simp add: resetInterpolation_def consistent_stopInterpolation)

lemma consistent_setFrame: "consistent (setFrame fr s) = consistent s"
  by (rule consistent_cong) (simp_all add: setFrame_def)

lemma consistent_emit [simp]: "consistent (emit e s) = consistent s"
  by (rule consistent_cong) (simp_all add: emit_def)

lemma consistent_interpolateAtTime:
  assumes "consistent s"
  shows "consistent (interpolateAtTime sq sqt H t s)"
proof (cases "keyFrame s = [] \<or> frame s = None")
  case True
  then show ?thesis using assms by (simp add: interpolateAtTime_idle)
next
  case False
  then obtain a where "keyFrame s \<noteq> []" "frame s = Some a" by auto
  from evaluation_result(3) [OF assms this] show ?thesis .
qed

lemma consistent_ticked:
  assumes "consistent s"
  shows "consistent (ticked sq sqt H s)"
proof -
  have "consistent (ticked sq sqt H s) = consistent (interpolateAtTime sq sqt H (interpolationTime s) s)"
    by (rule consistent_cong) (simp_all add: ticked_def)
  then show ?thesis using consistent_interpolateAtTime [OF assms] by simp
qed

lemma consistent_update:
  assumes "consistent s" and "update sq sqt H s = Some s'"
  shows "consistent s'"
proof -
  have ne: "keyFrame s \<noteq> []"
  proof
    assume "keyFrame s = []"
    then have "keyFrame (interpolateAtTime sq sqt H (interpolationTime s) s) = []"
      by (simp add: interpolateAtTime_empty_iff)
    then have "update sq sqt H s = None" by (simp add: update_def Let_def)
    with assms(2) show False by simp
  qed
  note T = consistent_ticked [OF assms(1), of sq sqt H]
  have a: "consistent (setInterpolationTime x (ticked sq sqt H s))" for x using T by simp
  have b: "consistent (stopInterpolation (interpolateAtTime sq sqt H x (ticked sq sqt H s)))" for x
    by (intro consistent_stopInterpolation consistent_interpolateAtTime T)
  note u = assms(2) [unfolded update_unfold [OF ne]]
  show ?thesis
  proof (cases "lastTime s < advanced s")
    case True
    with u a b show ?thesis by (cases "loopInterpolation s") auto
  next
    case False
    show ?thesis
    proof (cases "advanced s < firstTime s")
      case True
      with u \<open>\<not> lastTime s < advanced s\<close> a b show ?thesis
        by (cases "loopInterpolation s") auto
    next
      case nlo: False
      with u False T show ?thesis by simp
    qed
  qed
qed

lemma consistent_startInterpolation:
  assumes "consistent s" and "startInterpolation sq sqt H p s = Some s'"
  shows "consistent s'"
proof (cases "keyFrame s = []")
  case True
  then have "s' = (if 0 \<le> p then setInterpolationPeriod p s else s)"
    using assms(2)
    by (cases "0 \<le> p") (simp_all add: startInterpolation_def setInterpolationPeriod_def Let_def)
  moreover have "consistent (setInterpolationPeriod p s) = consistent s"
    by (rule consistent_cong) (simp_all add: setInterpolationPeriod_def)
  ultimately show ?thesis using assms(1) by simp
next
  case False
  define s0 where "s0 = (if 0 \<le> p then setInterpolationPeriod p s else s)"
  define s1 where "s1 = (if interpolationSpeed s0 > 0 \<and> interpolationTime s0 \<ge> kf_time (last (keyFrame s0))
                     then setInterpolationTime (kf_time (hd (keyFrame s0))) s0 else s0)"
  define s2 where "s2 = (if interpolationSpeed s1 < 0 \<and> interpolationTime s1 \<le> kf_time (hd (keyFrame s1))
                     then setInterpolationTime (kf_time (last (keyFrame s1))) s1 else s1)"
  define s3 where "s3 = s2\<lparr>timer := Some (period s2), interpolationStarted := True\<rparr>"
  have k0: "keyFrame s0 = keyFrame s" by (simp add: s0_def setInterpolationPeriod_def)
  have "consistent (setInterpolationPeriod p s) = consistent s"
    by (rule consistent_cong) (simp_all add: setInterpolationPeriod_def)
  then have i0: "consistent s0" using assms(1) by (simp add: s0_def)
  have i1: "consistent s1" using i0 by (simp add: s1_def)
  have k1: "keyFrame s1 = keyFrame s" using k0 by (simp add: s1_def setInterpolationTime_def)
  have i2: "consistent s2" using i1 by (simp add: s2_def)
  have k2: "keyFrame s2 = keyFrame s" using k1 by (simp add: s2_def setInterpolationTime_def)
  have i3: "consistent s3" unfolding s3_def
    by (rule consistent_playback [OF i2]) (simp add: k2 False)
  have "startInterpolation sq sqt H p s = update sq sqt H s3"
    using False unfolding startInterpolation_def Let_def s3_def s2_def s1_def s0_def
    by (simp add: setInterpolationPeriod_def)
  with assms(2) consistent_update [OF i3] show ?thesis by simp
qed

lemma consistent_drawPath:
  assumes "consistent s"
  shows "consistent (drawPath sq sqt H s)"
proof (cases "pathIsValid s \<or> keyFrame s = []")
  case True
  then have "drawPath sq sqt H s = s \<or> drawPath sq sqt H s = s\<lparr>path := []\<rparr>"
    by (auto simp: drawPath_def Let_def)
  moreover have "consistent (s\<lparr>path := []\<rparr>) = consistent s" by (rule consistent_cong) simp_all
  ultimately show ?thesis using assms by auto
next
  case False
  define s2 where "s2 = (if \<not> valuesAreValid (s\<lparr>path := []\<rparr>)
      then updateModifiedFrameValues sqt H (s\<lparr>path := []\<rparr>) else s\<lparr>path := []\<rparr>)"
  have "consistent (s\<lparr>path := []\<rparr>) = consistent s" by (rule consistent_cong) simp_all
  then have i1: "consistent (s\<lparr>path := []\<rparr>)" using assms by simp
  have i2: "consistent s2" using i1 refresh_consistent [of "s\<lparr>path := []\<rparr>" sqt H] by (simp add: s2_def)
  define X where "X = (case keyFrame s2 of
        [] \<Rightarrow> s2
      | [k] \<Rightarrow> s2\<lparr>path := path s2 @ [Frame (kf_p k) (kf_q k)]\<rparr>
      | k0 # k1 # rest \<Rightarrow>
          (let (pth, kl) = pathLoop sq k0 k1 rest (path s2)
           in s2\<lparr>path := pth @ [Frame (kf_p kl) (kf_q kl)]\<rparr>))"
  have d: "drawPath sq sqt H s = X\<lparr>pathIsValid := True\<rparr>"
    using False unfolding drawPath_def Let_def X_def s2_def by simp
  have "consistent (X\<lparr>pathIsValid := True\<rparr>) = consistent s2"
    by (rule consistent_cong) (simp_all add: X_def case_prod_beta split: list.splits)
  then show ?thesis using i2 d by simp
qed

lemma consistent_setInterpolationPeriod [simp]: "consistent (setInterpolationPeriod p s) = consistent s"
  by (rule consistent_cong) (simp_all add: setInterpolationPeriod_def)

lemma consistent_setInterpolationSpeed [simp]: "consistent (setInterpolationSpeed v s) = consistent s"
  by (rule consistent_cong) (simp_all add: setInterpolationSpeed_def)

lemma consistent_setLoopInterpolation [simp]: "consistent (setLoopInterpolation b s) = consistent s"
  by (rule consistent_cong) (simp_all add: setLoopInterpolation_def)

text \<open>The invariant holds in every state the operations can produce.\<close>

lemma reachable_consistent: "reachable sq sqt s \<Longrightarrow> consistent s"
proof (induction rule: reachable.induct)
  case (constructed fr b)
  show ?case by (rule consistent_init)
next
  case (updated s H s')
  then show ?case by (blast intro: consistent_update)
next
  case (started s H p s')
  then show ?case by (blast intro: consistent_startInterpolation)
qed (simp_all add: consistent_setFrame consistent_addKeyFrame_value consistent_addKeyFrame_pointer consistent_deletePath
       consistent_stopInterpolation consistent_resetInterpolation consistent_interpolateAtTime consistent_drawPath)

subsection \<open>The events of an evaluation and of a tick\<close>

lemma eval_cong:
  assumes "keyFrame s' = keyFrame s" "currentFrame1 s' = currentFrame1 s"
    "currentFrame2 s' = currentFrame2 s" "cache_v1 s' = cache_v1 s" "cache_v2 s' = cache_v2 s"
  shows "evalPosition t s' = evalPosition t s" "evalOrientation sq t s' = evalOrientation sq t s"
  by (simp_all add: evalPosition_def evalOrientation_def segmentAlpha_def assms)

lemma poseEvents_cong:
  assumes "frame s' = frame s" "keyFrame s' = keyFrame s" "currentFrame1 s' = currentFrame1 s"
    "currentFrame2 s' = currentFrame2 s" "cache_v1 s' = cache_v1 s" "cache_v2 s' = cache_v2 s"
  shows "poseEvents sq t s' = poseEvents sq t s"
  unfolding poseEvents_def assms(1) eval_cong [OF assms(2-6)] ..

lemma count_poseEvents [simp]: "count_list (poseEvents sq t s) EndReached = 0"
  by (simp add: poseEvents_def split: option.splits)

lemma evaluation_events:
  assumes "consistent s" "keyFrame s \<noteq> []"
  shows "events (interpolateAtTime sq sqt H t s) =
         events s @ poseEvents sq t (interpolateAtTime sq sqt H t s)"
proof (cases "frame s")
  case None
  then show ?thesis
    by (simp add: poseEvents_def interpolateAtTime_fields interpolateAtTime_idle
          setInterpolationTime_def)
next
  case (Some a)
  from evaluation_result(1) [OF assms Some, where sq = sq and sqt = sqt and H = H and t = t]
  show ?thesis by (simp add: poseEvents_def interpolateAtTime_fields Some)
qed

text \<open>The pose applied at the time of an end of the path is that of a keyframe with that time.\<close>

lemma evaluated_at_lastTime:
  fixes sq :: squad_fn and sqt :: squadTangent_fn and H :: heap
  assumes i: "consistent s" and ne: "keyFrame s \<noteq> []" and fr: "frame s = Some a"
  defines "s' \<equiv> interpolateAtTime sq sqt H (lastTime s) s"
  shows "\<exists>j<length (keyFrame s'). kf_time (keyFrame s' ! j) = lastTime s \<and>
           evalPosition (lastTime s) s' = kf_p (keyFrame s' ! j) \<and>
           ((\<forall>p tp tq q. 0 \<le> dot p q \<longrightarrow> sq p tp tq q 0 = p \<and> sq p tp tq q 1 = q) \<longrightarrow>
              evalOrientation sq (lastTime s) s' = kf_q (keyFrame s' ! j))"
proof -
  note R = evaluation_result [OF i ne fr, where sq = sq and sqt = sqt and H = H and t = "lastTime s",
      folded s'_def]
  let ?c1 = "currentFrame1 s'" and ?c2 = "currentFrame2 s'"
  let ?t = "lastTime s"
  have n: "length (keyFrame s') = length (keyFrame s)" using R(2) by simp
  have ne': "keyFrame s' \<noteq> []" using ne n by (metis length_0_conv)
  have w: "?c1 \<le> ?c2" "?c2 \<le> Suc ?c1" "?c2 < length (keyFrame s')"
    using R(4) by (simp_all add: window_ok_def)
  have srt: "sorted (map kf_time (keyFrame s'))" using R(3) by (rule consistent_sorted)
  have lt: "kf_time (last (keyFrame s')) = ?t"
    using ne ne' sampled_times [of sqt H s]
    by (simp add: R(2) lastTime_def last_time_map del: sampled_times)
  have le: "kf_time (keyFrame s' ! ?c2) \<le> ?t"
    using sorted_nth_le_last [OF srt w(3)] lt by simp
  have t2: "kf_time (keyFrame s' ! ?c2) = ?t"
  proof -
    from R(8) show ?thesis
    proof
      assume "?t \<le> kf_time (keyFrame s' ! ?c2)"
      with le show ?thesis by simp
    next
      assume "Suc ?c2 = length (keyFrame s') \<and> ?c1 = ?c2"
      then have "?c2 = length (keyFrame s') - 1" by linarith
      then show ?thesis using lt ne' by (simp add: last_conv_nth)
    qed
  qed
  show ?thesis
  proof (cases "kf_time (keyFrame s' ! ?c1) = ?t")
    case True
    have al: "segmentAlpha ?t s' = 0" by (simp add: segmentAlpha_def Let_def True t2)
    have d: "0 \<le> dot (kf_q (keyFrame s' ! ?c1)) (kf_q (keyFrame s' ! ?c2))"
    proof (cases "?c1 = ?c2")
      case True
      then show ?thesis by simp
    next
      case False
      with w have "?c2 = Suc ?c1" by simp
      with continuity_nth [OF R(6), of ?c1] w show ?thesis by simp
    qed
    have "evalPosition ?t s' = kf_p (keyFrame s' ! ?c1)"
      by (simp add: evalPosition_def al)
    moreover have "evalOrientation sq ?t s' = kf_q (keyFrame s' ! ?c1)"
      if "\<forall>p tp tq q. 0 \<le> dot p q \<longrightarrow> sq p tp tq q 0 = p \<and> sq p tp tq q 1 = q"
      using that d by (simp add: evalOrientation_def al)
    moreover have "?c1 < length (keyFrame s')" using w by simp
    ultimately show ?thesis using True by blast
  next
    case False
    then have al: "segmentAlpha ?t s' = 1" by (simp add: segmentAlpha_def Let_def t2)
    from False t2 have "?c1 \<noteq> ?c2" by auto
    with w have S: "?c2 = Suc ?c1" by simp
    have d: "0 \<le> dot (kf_q (keyFrame s' ! ?c1)) (kf_q (keyFrame s' ! ?c2))"
      using continuity_nth [OF R(6), of ?c1] w S by simp
    have "evalPosition ?t s' = kf_p (keyFrame s' ! ?c2)"
      using R(5) by (simp add: evalPosition_def al cache_ok_def cubic_one)
    moreover have "evalOrientation sq ?t s' = kf_q (keyFrame s' ! ?c2)"
      if "\<forall>p tp tq q. 0 \<le> dot p q \<longrightarrow> sq p tp tq q 0 = p \<and> sq p tp tq q 1 = q"
      using that d by (simp add: evalOrientation_def al)
    ultimately show ?thesis using t2 w(3) by blast
  qed
qed

lemma evaluated_at_firstTime:
  fixes sq :: squad_fn and sqt :: squadTangent_fn and H :: heap
  assumes i: "consistent s" and ne: "keyFrame s \<noteq> []" and fr: "frame s = Some a"
  defines "s' \<equiv> interpolateAtTime sq sqt H (firstTime s) s"
  shows "\<exists>j<length (keyFrame s'). kf_time (keyFrame s' ! j) = firstTime s \<and>
           evalPosition (firstTime s) s' = kf_p (keyFrame s' ! j) \<and>
           ((\<forall>p tp tq q. 0 \<le> dot p q \<longrightarrow> sq p tp tq q 0 = p \<and> sq p tp tq q 1 = q) \<longrightarrow>
              evalOrientation sq (firstTime s) s' = kf_q (keyFrame s' ! j))"
proof -
  note R = evaluation_result [OF i ne fr, where sq = sq and sqt = sqt and H = H and t = "firstTime s",
      folded s'_def]
  let ?c1 = "currentFrame1 s'" and ?c2 = "currentFrame2 s'"
  let ?t = "firstTime s"
  have n: "length (keyFrame s') = length (keyFrame s)" using R(2) by simp
  have ne': "keyFrame s' \<noteq> []" using ne n by (metis length_0_conv)
  have w: "?c1 \<le> ?c2" "?c2 \<le> Suc ?c1" "?c2 < length (keyFrame s')"
    using R(4) by (simp_all add: window_ok_def)
  have w1: "?c1 < length (keyFrame s')" using w by simp
  have srt: "sorted (map kf_time (keyFrame s'))" using R(3) by (rule consistent_sorted)
  have ft: "kf_time (hd (keyFrame s')) = ?t"
    using ne ne' sampled_times [of sqt H s]
    by (simp add: R(2) firstTime_def hd_time_map del: sampled_times)
  have ge: "?t \<le> kf_time (keyFrame s' ! ?c1)"
    using sorted_hd_le_nth [OF srt w1] ft by simp
  have t1: "kf_time (keyFrame s' ! ?c1) = ?t"
  proof -
    from R(7) show ?thesis
    proof
      assume "kf_time (keyFrame s' ! ?c1) \<le> ?t"
      with ge show ?thesis by simp
    next
      assume "?c1 = 0 \<and> ?c2 = 0"
      then show ?thesis using ft ne' by (simp add: hd_conv_nth)
    qed
  qed
  have al: "segmentAlpha ?t s' = 0" by (simp add: segmentAlpha_def Let_def t1)
  have d: "0 \<le> dot (kf_q (keyFrame s' ! ?c1)) (kf_q (keyFrame s' ! ?c2))"
  proof (cases "?c1 = ?c2")
    case True
    then show ?thesis by simp
  next
    case False
    with w have "?c2 = Suc ?c1" by simp
    with continuity_nth [OF R(6), of ?c1] w show ?thesis by simp
  qed
  have "evalPosition ?t s' = kf_p (keyFrame s' ! ?c1)"
    by (simp add: evalPosition_def al)
  moreover have "evalOrientation sq ?t s' = kf_q (keyFrame s' ! ?c1)"
    if "\<forall>p tp tq q. 0 \<le> dot p q \<longrightarrow> sq p tp tq q 0 = p \<and> sq p tp tq q 1 = q"
    using that d by (simp add: evalOrientation_def al)
  ultimately show ?thesis using t1 w1 by blast
qed

lemma ticked_times:
  assumes "keyFrame s \<noteq> []"
  shows "firstTime (ticked sq sqt H s) = firstTime s" "lastTime (ticked sq sqt H s) = lastTime s"
    "keyFrame (ticked sq sqt H s) \<noteq> []" "frame (ticked sq sqt H s) = frame s"
proof -
  let ?e = "interpolateAtTime sq sqt H (interpolationTime s) s"
  have k: "keyFrame (ticked sq sqt H s) = keyFrame ?e" by (simp add: ticked_def)
  have ne: "keyFrame ?e \<noteq> []" using assms by (simp add: interpolateAtTime_empty_iff)
  show "keyFrame (ticked sq sqt H s) \<noteq> []" unfolding k by (rule ne)
  show "firstTime (ticked sq sqt H s) = firstTime s"
    using ne interpolateAtTime_times(1) [OF assms, of sq sqt H "interpolationTime s"]
    by (simp add: firstTime_def k)
  show "lastTime (ticked sq sqt H s) = lastTime s"
    using ne interpolateAtTime_times(2) [OF assms, of sq sqt H "interpolationTime s"]
    by (simp add: lastTime_def k)
  show "frame (ticked sq sqt H s) = frame s"
    by (simp add: ticked_def interpolateAtTime_fields)
qed

lemma ticked_events:
  assumes "consistent s" "keyFrame s \<noteq> []"
  shows "events (ticked sq sqt H s) =
         events s @ poseEvents sq (interpolationTime s) (ticked sq sqt H s)"
proof -
  let ?e = "interpolateAtTime sq sqt H (interpolationTime s) s"
  have "poseEvents sq (interpolationTime s) (ticked sq sqt H s) =
        poseEvents sq (interpolationTime s) ?e"
    by (rule poseEvents_cong) (simp_all add: ticked_def)
  moreover have "events (ticked sq sqt H s) = events ?e" by (simp add: ticked_def)
  ultimately show ?thesis using evaluation_events [OF assms, of sq sqt H "interpolationTime s"]
    by simp
qed

text \<open>A tick that ends, without looping, on the evaluation at the boundary time \<open>t\<close>.\<close>

lemma stopped_at_boundary:
  fixes sq :: squad_fn and sqt :: squadTangent_fn and H :: heap
  assumes i: "consistent s" and ne: "keyFrame s \<noteq> []"
    and t: "t = lastTime s \<or> t = firstTime s"
  defines "s' \<equiv> emit EndReached
                   (stopInterpolation (interpolateAtTime sq sqt H t (ticked sq sqt H s)))"
  shows "events s' = events s @ poseEvents sq (interpolationTime s) (ticked sq sqt H s) @
                     poseEvents sq t s' @ [EndReached]"
    and "frame s \<noteq> None \<longrightarrow>
         (\<exists>j<length (keyFrame s'). kf_time (keyFrame s' ! j) = t \<and>
            evalPosition t s' = kf_p (keyFrame s' ! j) \<and>
            ((\<forall>p tp tq q. 0 \<le> dot p q \<longrightarrow> sq p tp tq q 0 = p \<and> sq p tp tq q 1 = q) \<longrightarrow>
               evalOrientation sq t s' = kf_q (keyFrame s' ! j)))"
proof -
  let ?T = "ticked sq sqt H s"
  let ?E = "interpolateAtTime sq sqt H t ?T"
  note T = ticked_times [OF ne, of sq sqt H]
  have iT: "consistent ?T" by (rule consistent_ticked [OF i])
  have f: "frame s' = frame ?E" "keyFrame s' = keyFrame ?E" "currentFrame1 s' = currentFrame1 ?E"
    "currentFrame2 s' = currentFrame2 ?E" "cache_v1 s' = cache_v1 ?E" "cache_v2 s' = cache_v2 ?E"
    "events s' = events ?E @ [EndReached]"
    by (simp_all add: s'_def emit_def stopInterpolation_def)
  have p: "poseEvents sq t s' = poseEvents sq t ?E" by (rule poseEvents_cong [OF f(1-6)])
  have e: "evalPosition t s' = evalPosition t ?E" "evalOrientation sq t s' = evalOrientation sq t ?E"
    by (rule eval_cong [OF f(2-6)])+
  show "events s' = events s @ poseEvents sq (interpolationTime s) ?T @
                     poseEvents sq t s' @ [EndReached]"
    unfolding f(7) p evaluation_events [OF iT T(3)] ticked_events [OF i ne] by simp
  show "frame s \<noteq> None \<longrightarrow>
         (\<exists>j<length (keyFrame s'). kf_time (keyFrame s' ! j) = t \<and>
            evalPosition t s' = kf_p (keyFrame s' ! j) \<and>
            ((\<forall>p tp tq q. 0 \<le> dot p q \<longrightarrow> sq p tp tq q 0 = p \<and> sq p tp tq q 1 = q) \<longrightarrow>
               evalOrientation sq t s' = kf_q (keyFrame s' ! j)))"
  proof
    assume "frame s \<noteq> None"
    then obtain a where a: "frame ?T = Some a" using T(4) by auto
    from t show "\<exists>j<length (keyFrame s'). kf_time (keyFrame s' ! j) = t \<and>
            evalPosition t s' = kf_p (keyFrame s' ! j) \<and>
            ((\<forall>p tp tq q. 0 \<le> dot p q \<longrightarrow> sq p tp tq q 0 = p \<and> sq p tp tq q 1 = q) \<longrightarrow>
               evalOrientation sq t s' = kf_q (keyFrame s' ! j))"
    proof
      assume "t = lastTime s"
      then have tt: "t = lastTime ?T" using T(2) by simp
      show ?thesis unfolding e f(2)
        using evaluated_at_lastTime [OF iT T(3) a, where sq = sq and sqt = sqt and H = H]
        unfolding tt [symmetric] .
    next
      assume "t = firstTime s"
      then have tt: "t = firstTime ?T" using T(1) by simp
      show ?thesis unfolding e f(2)
        using evaluated_at_firstTime [OF iT T(3) a, where sq = sq and sqt = sqt and H = H]
        unfolding tt [symmetric] .
    qed
  qed
qed

lemma wrapped_at_boundary:
  assumes i: "consistent s" and ne: "keyFrame s \<noteq> []"
  shows "events (emit EndReached (setInterpolationTime x (ticked sq sqt H s))) =
         events s @ poseEvents sq (interpolationTime s) (ticked sq sqt H s) @ [EndReached]"
  by (simp add: emit_def setInterpolationTime_def ticked_events [OF i ne])

text \<open>
  Where the time of an end of the path belongs to one keyframe only, the evaluation at
  that time applies that keyframe: the first keyframe at the first time when the second
  keyframe is later (or there is no second one), the last keyframe at the last time when
  the keyframe before it is earlier. The orientation relies on \<^verbatim>\<open>squad\<close> returning its
  first orientation at parameter 0 and its last at parameter 1, for ends with a
  non-negative dot product.
\<close>

lemma evaluation_at_strict_end_times:
  fixes sq :: squad_fn and sqt :: squadTangent_fn and H :: heap
  assumes i: "consistent s" and ne: "keyFrame s \<noteq> []" and fr: "frame s = Some a"
    and sq0: "\<And>p tp tq q. 0 \<le> dot p q \<Longrightarrow> sq p tp tq q 0 = p"
    and sq1: "\<And>p tp tq q. 0 \<le> dot p q \<Longrightarrow> sq p tp tq q 1 = q"
  defines "sF \<equiv> interpolateAtTime sq sqt H (firstTime s) s"
    and "sL \<equiv> interpolateAtTime sq sqt H (lastTime s) s"
  shows "(length (keyFrame s) = 1 \<or> firstTime s < kf_time (keyFrame s ! 1) \<longrightarrow>
           events sF = events s @
             [SetPositionAndOrientation a (kf_p (hd (keyFrame sF))) (kf_q (hd (keyFrame sF))),
              Interpolated]) \<and>
         (length (keyFrame s) = 1 \<or> kf_time (keyFrame s ! (length (keyFrame s) - 2)) < lastTime s \<longrightarrow>
           events sL = events s @
             [SetPositionAndOrientation a (kf_p (last (keyFrame sL))) (kf_q (last (keyFrame sL))),
              Interpolated])"
proof (intro conjI impI)
  assume strict: "length (keyFrame s) = 1 \<or> firstTime s < kf_time (keyFrame s ! 1)"
  note R = evaluation_result [OF i ne fr, where sq = sq and sqt = sqt and H = H and t = "firstTime s",
      folded sF_def]
  let ?c1 = "currentFrame1 sF" and ?c2 = "currentFrame2 sF"
  have n: "length (keyFrame sF) = length (keyFrame s)" using R(2) by simp
  have ne': "keyFrame sF \<noteq> []" using ne n by (metis length_0_conv)
  have w: "?c1 \<le> ?c2" "?c2 \<le> Suc ?c1" "?c2 < length (keyFrame sF)"
    using R(4) by (simp_all add: window_ok_def)
  have srt: "sorted (map kf_time (keyFrame sF))" using R(3) by (rule consistent_sorted)
  have tm: "\<And>j. j < length (keyFrame s) \<Longrightarrow> kf_time (keyFrame sF ! j) = kf_time (keyFrame s ! j)"
    unfolding R(2) by (rule sampled_time_nth)
  have c1: "?c1 = 0"
  proof (rule ccontr)
    assume nz: "?c1 \<noteq> 0"
    then have l2: "1 < length (keyFrame s)" using w n by simp
    with strict have st: "firstTime s < kf_time (keyFrame s ! 1)" by simp
    have "kf_time (keyFrame sF ! 1) \<le> kf_time (keyFrame sF ! ?c1)"
      using nz w by (intro sorted_nth_mono_time [OF srt]) simp_all
    then have "firstTime s < kf_time (keyFrame sF ! ?c1)" using st tm [of 1] l2 by simp
    with R(7) nz show False by simp
  qed
  have k: "keyFrame sF ! 0 = hd (keyFrame sF)" using ne' by (simp add: hd_conv_nth)
  have ft: "kf_time (hd (keyFrame sF)) = firstTime s"
    using tm [of 0] ne by (simp add: k [symmetric] firstTime_def hd_conv_nth)
  have al: "segmentAlpha (firstTime s) sF = 0"
    by (simp add: segmentAlpha_def Let_def c1 k ft)
  have d: "0 \<le> dot (kf_q (hd (keyFrame sF))) (kf_q (keyFrame sF ! ?c2))"
  proof (cases "?c2 = 0")
    case True
    then show ?thesis by (simp add: k)
  next
    case False
    with w c1 have "?c2 = Suc 0" by simp
    with continuity_nth [OF R(6), of 0] w show ?thesis by (simp add: k)
  qed
  have "evalPosition (firstTime s) sF = kf_p (hd (keyFrame sF))"
    by (simp add: evalPosition_def al c1 k)
  moreover have "evalOrientation sq (firstTime s) sF = kf_q (hd (keyFrame sF))"
    by (simp add: evalOrientation_def al c1 k sq0 [OF d])
  ultimately show "events sF = events s @
             [SetPositionAndOrientation a (kf_p (hd (keyFrame sF))) (kf_q (hd (keyFrame sF))),
              Interpolated]" using R(1) by simp
next
  assume strict: "length (keyFrame s) = 1 \<or>
                  kf_time (keyFrame s ! (length (keyFrame s) - 2)) < lastTime s"
  note R = evaluation_result [OF i ne fr, where sq = sq and sqt = sqt and H = H and t = "lastTime s",
      folded sL_def]
  let ?c1 = "currentFrame1 sL" and ?c2 = "currentFrame2 sL"
  let ?n = "length (keyFrame s)"
  have n: "length (keyFrame sL) = ?n" using R(2) by simp
  have ne': "keyFrame sL \<noteq> []" using ne n by (metis length_0_conv)
  have w: "?c1 \<le> ?c2" "?c2 \<le> Suc ?c1" "?c2 < ?n"
    using R(4) n by (simp_all add: window_ok_def)
  have srt: "sorted (map kf_time (keyFrame sL))" using R(3) by (rule consistent_sorted)
  have tm: "\<And>j. j < ?n \<Longrightarrow> kf_time (keyFrame sL ! j) = kf_time (keyFrame s ! j)"
    unfolding R(2) by (rule sampled_time_nth)
  have c2: "?c2 = ?n - 1"
  proof (rule ccontr)
    assume nl: "?c2 \<noteq> ?n - 1"
    then have l2: "?c2 \<le> ?n - 2" "1 < ?n" using w by simp_all
    with strict have st: "kf_time (keyFrame s ! (?n - 2)) < lastTime s" by simp
    have "kf_time (keyFrame sL ! ?c2) \<le> kf_time (keyFrame sL ! (?n - 2))"
      using l2 n by (intro sorted_nth_mono_time [OF srt]) simp_all
    then have "kf_time (keyFrame sL ! ?c2) < lastTime s" using st tm [of "?n - 2"] l2 by simp
    with R(8) nl n show False by auto
  qed
  have k: "keyFrame sL ! ?c2 = last (keyFrame sL)" using ne' n by (simp add: c2 last_conv_nth)
  have lt: "kf_time (last (keyFrame sL)) = lastTime s"
    using tm [of "?n - 1"] ne n ne' by (simp add: lastTime_def last_conv_nth)
  show "events sL = events s @
             [SetPositionAndOrientation a (kf_p (last (keyFrame sL))) (kf_q (last (keyFrame sL))),
              Interpolated]"
  proof (cases "?c1 = ?c2")
    case True
    have al: "segmentAlpha (lastTime s) sL = 0" by (rule alpha_same_cursor [OF True])
    have "evalPosition (lastTime s) sL = kf_p (last (keyFrame sL))"
      by (simp add: evalPosition_def al True k)
    moreover have "evalOrientation sq (lastTime s) sL = kf_q (last (keyFrame sL))"
      by (simp add: evalOrientation_def al True k sq0)
    ultimately show ?thesis using R(1) by simp
  next
    case False
    with w c2 have c1: "?c1 = ?n - 2" and l2: "1 < ?n" by simp_all
    with strict have st: "kf_time (keyFrame s ! (?n - 2)) < lastTime s" by simp
    have t1: "kf_time (keyFrame sL ! ?c1) < lastTime s"
      using st tm [of "?n - 2"] l2 by (simp add: c1)
    have al: "segmentAlpha (lastTime s) sL = 1"
      using t1 by (simp add: segmentAlpha_def Let_def k lt)
    have S: "Suc ?c1 = ?c2" using c1 c2 l2 by simp
    have d: "0 \<le> dot (kf_q (keyFrame sL ! ?c1)) (kf_q (last (keyFrame sL)))"
      using continuity_nth [OF R(6), of ?c1] w n by (simp add: S k)
    have "evalPosition (lastTime s) sL = kf_p (last (keyFrame sL))"
      using R(5) by (simp add: evalPosition_def al cache_ok_def k cubic_one)
    moreover have "evalOrientation sq (lastTime s) sL = kf_q (last (keyFrame sL))"
      by (simp add: evalOrientation_def al k sq1 [OF d])
    ultimately show ?thesis using R(1) by simp
  qed
qed

subsection \<open>Evaluations on the concrete interpolators\<close>

lemmas eval_defs = interpolateAtTime_def updateModifiedFrameValues_def
  updateCurrentKeyFrameForTime_def updateSplineCache_def emit_def setInterpolationTime_def
  flipOrientation_def computeTangent_def cubic_def spline_v1_def spline_v2_def
  ex_squadTangent_def KeyFrame_value_def Let_def

lemma ex_squad_first [simp]: "ex_squad p tp tq q 0 = p"
  by (cases p; cases q) simp

lemma ex_squad_last [simp]: "ex_squad p tp tq q 1 = q"
  by (cases p; cases q) simp

lemma ex_two_flags:
  "\<not> currentFrameValid ex_two" "\<not> valuesAreValid ex_two" "\<not> pathIsValid ex_two"
  "\<not> interpolationStarted ex_two" "timer ex_two = None" "frame ex_two = Some 7"
  "events ex_two = []" "interpolationTime ex_two = 1" "interpolationSpeed ex_two = 1"
  "period ex_two = 40" "\<not> loopInterpolation ex_two"
  by (simp_all add: ex_two_def ex_one_def ex_new_def KeyFrameInterpolator_def append_defs
        KeyFrame_value_def Let_def)

lemma ex_live_flags:
  "\<not> currentFrameValid ex_live" "\<not> valuesAreValid ex_live" "\<not> pathIsValid ex_live"
  "\<not> interpolationStarted ex_live" "timer ex_live = None" "frame ex_live = Some 7"
  "events ex_live = []"
  by (simp_all add: ex_live_def ex_two_flags keyFrame_ex_two append_defs KeyFrame_value_def
        Let_def)

lemma consistent_ex_new: "consistent ex_new"
  unfolding ex_new_def by (rule consistent_init)

lemma consistent_ex_two: "consistent ex_two"
  unfolding ex_two_def ex_one_def by (intro consistent_addKeyFrame_value consistent_ex_new)

lemma ex_two_times: "firstTime ex_two = 1" "lastTime ex_two = 2"
  by (simp_all add: firstTime_def lastTime_def keyFrame_ex_two KeyFrame_value_def)

lemma sampled_ex_two:
  "kf_p (hd (sampled ex_squadTangent ex_heap ex_two)) = Vec 0 0 0"
  "kf_q (hd (sampled ex_squadTangent ex_heap ex_two)) = Quaternion 0 0 0 1"
  "kf_p (last (sampled ex_squadTangent ex_heap ex_two)) = Vec 1 0 0"
  "kf_q (last (sampled ex_squadTangent ex_heap ex_two)) = Quaternion 0 0 0 1"
  by (simp_all add: sampled_def ex_two_flags updateModifiedFrameValues_def keyFrame_ex_two
        KeyFrame_value_def flipOrientation_def computeTangent_def Let_def)

lemma ex_dup_last_value:
  "ex_dup_last = (KeyFrameInterpolator (Some 7) False)
     \<lparr>keyFrame := [KeyFrame_value (Frame (Vec 0 0 0) (Quaternion 0 0 0 1)) 0,
                   KeyFrame_value (Frame (Vec 1 0 0) (Quaternion 0 0 0 1)) 1,
                   KeyFrame_value (Frame (Vec 1 1 0) (Quaternion 0 0 0 1)) 1],
      valuesAreValid := False\<rparr>"
  by (simp add: ex_dup_last_def ex_new_def KeyFrameInterpolator_def append_defs
        KeyFrame_value_def Let_def)

lemma ex_dup_first_value:
  "ex_dup_first = (KeyFrameInterpolator (Some 7) False)
     \<lparr>keyFrame := [KeyFrame_value (Frame (Vec 0 0 0) (Quaternion 0 0 0 1)) 0,
                   KeyFrame_value (Frame (Vec 0 1 0) (Quaternion 0 0 0 1)) 0,
                   KeyFrame_value (Frame (Vec 0 0 1) (Quaternion 0 0 0 1)) 1],
      valuesAreValid := False\<rparr>"
  by (simp add: ex_dup_first_def ex_new_def KeyFrameInterpolator_def append_defs
        KeyFrame_value_def Let_def)

text \<open>The whole state after evaluating \<open>ex_dup_last\<close> at the time of its last keyframe.\<close>

lemma ex_dup_last_evaluated:
  "interpolateAtTime ex_squad ex_squadTangent ex_heap 1 ex_dup_last =
   (KeyFrameInterpolator (Some 7) False)
     \<lparr>keyFrame := [
        \<lparr>kf_p = Vec 0 0 0, kf_q = Quaternion 0 0 0 1, kf_tgP = Vec (1/2) 0 0,
         kf_tgQ = Quaternion 0 0 0 1, kf_time = 0, kf_frame = None\<rparr>,
        \<lparr>kf_p = Vec 1 0 0, kf_q = Quaternion 0 0 0 1, kf_tgP = Vec (1/2) (1/2) 0,
         kf_tgQ = Quaternion 0 0 0 1, kf_time = 1, kf_frame = None\<rparr>,
        \<lparr>kf_p = Vec 1 1 0, kf_q = Quaternion 0 0 0 1, kf_tgP = Vec 0 (1/2) 0,
         kf_tgQ = Quaternion 0 0 0 1, kf_time = 1, kf_frame = None\<rparr>],
      currentFrame0 := 0, currentFrame1 := 1, currentFrame2 := 1, currentFrame3 := 2,
      interpolationTime := 1, valuesAreValid := True, currentFrameValid := True,
      splineCacheIsValid := True,
      cache_v1 := Vec (- 3/2) (- 3/2) 0, cache_v2 := Vec 1 1 0,
      events := [SetPositionAndOrientation 7 (Vec 1 0 0) (Quaternion 0 0 0 1), Interpolated]\<rparr>"
  by (simp add: ex_dup_last_value KeyFrameInterpolator_def eval_defs)

text \<open>The state after evaluating \<open>ex_dup_first\<close> between its second and third keyframe.\<close>

lemma ex_dup_first_evaluated:
  "interpolateAtTime ex_squad ex_squadTangent ex_heap (1/2) ex_dup_first =
   (KeyFrameInterpolator (Some 7) False)
     \<lparr>keyFrame := [
        \<lparr>kf_p = Vec 0 0 0, kf_q = Quaternion 0 0 0 1, kf_tgP = Vec 0 (1/2) 0,
         kf_tgQ = Quaternion 0 0 0 1, kf_time = 0, kf_frame = None\<rparr>,
        \<lparr>kf_p = Vec 0 1 0, kf_q = Quaternion 0 0 0 1, kf_tgP = Vec 0 0 (1/2),
         kf_tgQ = Quaternion 0 0 0 1, kf_time = 0, kf_frame = None\<rparr>,
        \<lparr>kf_p = Vec 0 0 1, kf_q = Quaternion 0 0 0 1, kf_tgP = Vec 0 (- 1/2) (1/2),
         kf_tgQ = Quaternion 0 0 0 1, kf_time = 1, kf_frame = None\<rparr>],
      currentFrame0 := 0, currentFrame1 := 1, currentFrame2 := 2, currentFrame3 := 2,
      interpolationTime := 1/2, valuesAreValid := True, currentFrameValid := True,
      splineCacheIsValid := True,
      cache_v1 := Vec 0 (- 5/2) (3/2), cache_v2 := Vec 0 (3/2) (- 1),
      events := [SetPositionAndOrientation 7 (Vec 0 (9/16) (1/2)) (Quaternion 0 0 0 1),
                 Interpolated]\<rparr>"
  by (simp add: ex_dup_first_value KeyFrameInterpolator_def eval_defs)

lemma ex_dup_first_reevaluated:
  "events (interpolateAtTime ex_squad ex_squadTangent ex_heap 0
     (interpolateAtTime ex_squad ex_squadTangent ex_heap (1/2) ex_dup_first)) =
   [SetPositionAndOrientation 7 (Vec 0 (9/16) (1/2)) (Quaternion 0 0 0 1), Interpolated,
    SetPositionAndOrientation 7 (Vec 0 1 0) (Quaternion 0 0 0 1), Interpolated] \<and>
   kf_p (hd (keyFrame (interpolateAtTime ex_squad ex_squadTangent ex_heap 0
     (interpolateAtTime ex_squad ex_squadTangent ex_heap (1/2) ex_dup_first)))) = Vec 0 0 0"
  unfolding ex_dup_first_evaluated
  by (simp add: KeyFrameInterpolator_def eval_defs)

text \<open>Between the two keyframes of \<open>ex_two\<close>.\<close>

lemma ex_two_evaluated_between:
  "events (interpolateAtTime ex_squad ex_squadTangent ex_heap (3/2) ex_two) =
     [SetPositionAndOrientation 7 (Vec (1/2) 0 0) (Quaternion 0 0 0 1), Interpolated] \<and>
   currentFrame1 (interpolateAtTime ex_squad ex_squadTangent ex_heap (3/2) ex_two) = 0 \<and>
   currentFrame2 (interpolateAtTime ex_squad ex_squadTangent ex_heap (3/2) ex_two) = 1"
  by (simp add: ex_two_def ex_one_def ex_new_def addKeyFrame_value_def appendKeyFrame_def
        invalidateAll_def resetInterpolation_def stopInterpolation_def firstTime_def
        KeyFrameInterpolator_def eval_defs)

text \<open>Starting the interpolation on \<open>ex_two\<close>.\<close>

lemma start_ex_two:
  "startInterpolation ex_squad ex_squadTangent ex_heap 40 ex_two = Some ex_running"
proof -
  let ?s3 = "(setInterpolationPeriod 40 ex_two)\<lparr>timer := Some 40, interpolationStarted := True\<rparr>"
  have ne: "keyFrame ?s3 \<noteq> []" by (simp add: setInterpolationPeriod_def keyFrame_ex_two)
  have t: "firstTime ?s3 = 1" "lastTime ?s3 = 2" "advanced ?s3 = 26 / 25"
    by (simp_all add: firstTime_def lastTime_def advanced_def setInterpolationPeriod_def
          keyFrame_ex_two KeyFrame_value_def ex_two_flags)
  have "startInterpolation ex_squad ex_squadTangent ex_heap 40 ex_two =
          update ex_squad ex_squadTangent ex_heap ?s3"
    by (simp add: startInterpolation_def setInterpolationPeriod_def setInterpolationTime_def
          keyFrame_ex_two KeyFrame_value_def ex_two_flags Let_def)
  also have "\<dots> = Some (ticked ex_squad ex_squadTangent ex_heap ?s3)"
    unfolding update_unfold [OF ne] t by simp
  finally show ?thesis by (simp add: ex_running_def)
qed

lemma ex_running_facts:
  "interpolationStarted ex_running" "timer ex_running = Some 40"
  "interpolationTime ex_running = 26 / 25" "valuesAreValid ex_running"
  "currentFrameValid ex_running" "keyFrame ex_running \<noteq> []"
  "kf_time (last (keyFrame ex_running)) = 2" "firstTime ex_running = 1"
proof -
  let ?s3 = "(setInterpolationPeriod 40 ex_two)\<lparr>timer := Some 40, interpolationStarted := True\<rparr>"
  let ?e = "interpolateAtTime ex_squad ex_squadTangent ex_heap (interpolationTime ?s3) ?s3"
  have ne: "keyFrame ?s3 \<noteq> []" by (simp add: setInterpolationPeriod_def keyFrame_ex_two)
  have fr: "frame ?s3 = Some 7" by (simp add: setInterpolationPeriod_def ex_two_flags)
  have "consistent (setInterpolationPeriod 40 ex_two)" using consistent_ex_two by simp
  then have i: "consistent ?s3" by (rule consistent_playback) (simp add: setInterpolationPeriod_def keyFrame_ex_two)
  have t: "firstTime ?s3 = 1" "lastTime ?s3 = 2" "advanced ?s3 = 26 / 25"
    by (simp_all add: firstTime_def lastTime_def advanced_def setInterpolationPeriod_def
          keyFrame_ex_two KeyFrame_value_def ex_two_flags)
  note R = evaluation_result [OF i ne fr, where sq = ex_squad and sqt = ex_squadTangent
      and H = ex_heap and t = "interpolationTime ?s3"]
  have k: "keyFrame ex_running = keyFrame ?e" "valuesAreValid ex_running = valuesAreValid ?e"
    "currentFrameValid ex_running = currentFrameValid ?e"
    by (simp_all add: ex_running_def ticked_def)
  show "interpolationStarted ex_running" "timer ex_running = Some 40"
    "interpolationTime ex_running = 26 / 25"
    by (simp_all add: ex_running_def ticked_fields t)
  show "valuesAreValid ex_running" "currentFrameValid ex_running"
    unfolding k using R by blast+
  show ne': "keyFrame ex_running \<noteq> []"
    unfolding k using ne by (simp add: interpolateAtTime_empty_iff)
  show "kf_time (last (keyFrame ex_running)) = 2"
    unfolding k using interpolateAtTime_times(2) [OF ne] t by simp
  show "firstTime ex_running = 1"
    using ne' interpolateAtTime_times(1) [OF ne, of ex_squad ex_squadTangent ex_heap
        "interpolationTime ?s3"] t
    by (simp add: firstTime_def k)
qed

lemma consistent_ex_running: "consistent ex_running"
  by (rule consistent_startInterpolation [OF consistent_ex_two start_ex_two])

text \<open>The whole state \<open>ex_running\<close>.\<close>

lemma ex_running_value:
  "ex_running = (KeyFrameInterpolator (Some 7) False)
     \<lparr>keyFrame := [
        \<lparr>kf_p = Vec 0 0 0, kf_q = Quaternion 0 0 0 1, kf_tgP = Vec (1/2) 0 0,
         kf_tgQ = Quaternion 0 0 0 1, kf_time = 1, kf_frame = None\<rparr>,
        \<lparr>kf_p = Vec 1 0 0, kf_q = Quaternion 0 0 0 1, kf_tgP = Vec (1/2) 0 0,
         kf_tgQ = Quaternion 0 0 0 1, kf_time = 2, kf_frame = None\<rparr>],
      currentFrame0 := 0, currentFrame1 := 0, currentFrame2 := 0, currentFrame3 := 1,
      timer := Some 40, interpolationTime := 26/25, interpolationStarted := True,
      valuesAreValid := True, currentFrameValid := True, splineCacheIsValid := True,
      cache_v1 := Vec (- 3/2) 0 0, cache_v2 := Vec 1 0 0,
      events := [SetPositionAndOrientation 7 (Vec 0 0 0) (Quaternion 0 0 0 1), Interpolated]\<rparr>"
  by (simp add: ex_running_def ticked_def advanced_def setInterpolationPeriod_def ex_two_def
        ex_one_def ex_new_def addKeyFrame_value_def appendKeyFrame_def invalidateAll_def
        resetInterpolation_def stopInterpolation_def firstTime_def KeyFrameInterpolator_def
        eval_defs)

lemmas tick_defs = update_def stopInterpolation_def setLoopInterpolation_def
  setInterpolationSpeed_def KeyFrameInterpolator_def eval_defs

text \<open>Ticks of \<open>ex_running\<close> that leave the path at its last and at its first keyframe.\<close>

lemma ex_running_past_last:
  "update ex_squad ex_squadTangent ex_heap (setInterpolationTime 2 ex_running) =
   Some (ex_running\<lparr>currentFrame1 := 1, currentFrame2 := 1, timer := None,
     interpolationTime := 2, interpolationStarted := False,
     events := [SetPositionAndOrientation 7 (Vec 0 0 0) (Quaternion 0 0 0 1), Interpolated,
                SetPositionAndOrientation 7 (Vec 1 0 0) (Quaternion 0 0 0 1), Interpolated,
                SetPositionAndOrientation 7 (Vec 1 0 0) (Quaternion 0 0 0 1), Interpolated,
                EndReached]\<rparr>)"
  unfolding ex_running_value by (simp add: tick_defs)

lemma ex_running_past_last_loop:
  "update ex_squad ex_squadTangent ex_heap
     (setLoopInterpolation True (setInterpolationTime 2 ex_running)) =
   Some (ex_running\<lparr>currentFrame1 := 1, currentFrame2 := 1, loopInterpolation := True,
     events := [SetPositionAndOrientation 7 (Vec 0 0 0) (Quaternion 0 0 0 1), Interpolated,
                SetPositionAndOrientation 7 (Vec 1 0 0) (Quaternion 0 0 0 1), Interpolated,
                EndReached]\<rparr>)"
  unfolding ex_running_value by (simp add: tick_defs)

lemma ex_running_before_first:
  "update ex_squad ex_squadTangent ex_heap
     (setInterpolationSpeed (- 1) (setInterpolationTime 1 ex_running)) =
   Some (ex_running\<lparr>timer := None, interpolationTime := 1, interpolationSpeed := - 1,
     interpolationStarted := False,
     events := [SetPositionAndOrientation 7 (Vec 0 0 0) (Quaternion 0 0 0 1), Interpolated,
                SetPositionAndOrientation 7 (Vec 0 0 0) (Quaternion 0 0 0 1), Interpolated,
                SetPositionAndOrientation 7 (Vec 0 0 0) (Quaternion 0 0 0 1), Interpolated,
                EndReached]\<rparr>)"
  unfolding ex_running_value by (simp add: tick_defs)

lemma ex_running_before_first_loop:
  "update ex_squad ex_squadTangent ex_heap
     (setLoopInterpolation True (setInterpolationSpeed (- 1) (setInterpolationTime 1 ex_running))) =
   Some (ex_running\<lparr>interpolationTime := 49/25, interpolationSpeed := - 1,
     loopInterpolation := True,
     events := [SetPositionAndOrientation 7 (Vec 0 0 0) (Quaternion 0 0 0 1), Interpolated,
                SetPositionAndOrientation 7 (Vec 0 0 0) (Quaternion 0 0 0 1), Interpolated,
                EndReached]\<rparr>)"
  unfolding ex_running_value by (simp add: tick_defs)

text \<open>
  An evaluation of \<open>ex_dup_last\<close> beyond its last keyframe leaves the window on that
  keyframe, and the evaluation at the time of the last keyframe that follows keeps it there.
\<close>

lemma ex_dup_last_overshoot:
  "interpolateAtTime ex_squad ex_squadTangent ex_heap 2 ex_dup_last =
   (KeyFrameInterpolator (Some 7) False)
     \<lparr>keyFrame := [
        \<lparr>kf_p = Vec 0 0 0, kf_q = Quaternion 0 0 0 1, kf_tgP = Vec (1/2) 0 0,
         kf_tgQ = Quaternion 0 0 0 1, kf_time = 0, kf_frame = None\<rparr>,
        \<lparr>kf_p = Vec 1 0 0, kf_q = Quaternion 0 0 0 1, kf_tgP = Vec (1/2) (1/2) 0,
         kf_tgQ = Quaternion 0 0 0 1, kf_time = 1, kf_frame = None\<rparr>,
        \<lparr>kf_p = Vec 1 1 0, kf_q = Quaternion 0 0 0 1, kf_tgP = Vec 0 (1/2) 0,
         kf_tgQ = Quaternion 0 0 0 1, kf_time = 1, kf_frame = None\<rparr>],
      currentFrame0 := 1, currentFrame1 := 2, currentFrame2 := 2, currentFrame3 := 2,
      interpolationTime := 2, valuesAreValid := True, currentFrameValid := True,
      splineCacheIsValid := True,
      cache_v1 := Vec 0 (- 3/2) 0, cache_v2 := Vec 0 1 0,
      events := [SetPositionAndOrientation 7 (Vec 1 1 0) (Quaternion 0 0 0 1), Interpolated]\<rparr>"
  by (simp add: ex_dup_last_value KeyFrameInterpolator_def eval_defs)

lemma ex_dup_last_after_overshoot:
  "events (interpolateAtTime ex_squad ex_squadTangent ex_heap 1
     (interpolateAtTime ex_squad ex_squadTangent ex_heap 2 ex_dup_last)) =
   [SetPositionAndOrientation 7 (Vec 1 1 0) (Quaternion 0 0 0 1), Interpolated,
    SetPositionAndOrientation 7 (Vec 1 1 0) (Quaternion 0 0 0 1), Interpolated]"
  unfolding ex_dup_last_overshoot
  by (simp add: KeyFrameInterpolator_def eval_defs)

lemma ex_dup_first_fresh:
  "events (interpolateAtTime ex_squad ex_squadTangent ex_heap 0 ex_dup_first) =
   [SetPositionAndOrientation 7 (Vec 0 0 0) (Quaternion 0 0 0 1), Interpolated]"
  by (simp add: ex_dup_first_value KeyFrameInterpolator_def eval_defs)

text \<open>
  Playing \<open>ex_dup_last\<close> forwards and \<open>ex_dup_first\<close> backwards with a period of one second:
  \<^verbatim>\<open>startInterpolation\<close> makes the first tick and the second tick leaves the path.
\<close>

lemma ex_dup_last_started:
  "startInterpolation ex_squad ex_squadTangent ex_heap 1000 ex_dup_last =
   Some ((KeyFrameInterpolator (Some 7) False)
     \<lparr>keyFrame := [
        \<lparr>kf_p = Vec 0 0 0, kf_q = Quaternion 0 0 0 1, kf_tgP = Vec (1/2) 0 0,
         kf_tgQ = Quaternion 0 0 0 1, kf_time = 0, kf_frame = None\<rparr>,
        \<lparr>kf_p = Vec 1 0 0, kf_q = Quaternion 0 0 0 1, kf_tgP = Vec (1/2) (1/2) 0,
         kf_tgQ = Quaternion 0 0 0 1, kf_time = 1, kf_frame = None\<rparr>,
        \<lparr>kf_p = Vec 1 1 0, kf_q = Quaternion 0 0 0 1, kf_tgP = Vec 0 (1/2) 0,
         kf_tgQ = Quaternion 0 0 0 1, kf_time = 1, kf_frame = None\<rparr>],
      currentFrame0 := 0, currentFrame1 := 0, currentFrame2 := 0, currentFrame3 := 1,
      timer := Some 1000, period := 1000, interpolationTime := 1,
      interpolationStarted := True, valuesAreValid := True, currentFrameValid := True,
      splineCacheIsValid := True,
      cache_v1 := Vec (- 3/2) 0 0, cache_v2 := Vec 1 0 0,
      events := [SetPositionAndOrientation 7 (Vec 0 0 0) (Quaternion 0 0 0 1), Interpolated]\<rparr>)"
  (is "_ = ?r")
proof -
  have "startInterpolation ex_squad ex_squadTangent ex_heap 1000 ex_dup_last =
        update ex_squad ex_squadTangent ex_heap
          (ex_dup_last\<lparr>period := 1000, timer := Some 1000, interpolationStarted := True\<rparr>)"
    by (simp add: startInterpolation_def setInterpolationPeriod_def setInterpolationTime_def
          ex_dup_last_value KeyFrameInterpolator_def KeyFrame_value_def Let_def)
  also have "\<dots> = ?r"
    unfolding ex_dup_last_value by (simp add: tick_defs)
  finally show ?thesis .
qed

lemma ex_dup_last_played:
  "map_option events
     (Option.bind (startInterpolation ex_squad ex_squadTangent ex_heap 1000 ex_dup_last)
        (update ex_squad ex_squadTangent ex_heap)) =
   Some [SetPositionAndOrientation 7 (Vec 0 0 0) (Quaternion 0 0 0 1), Interpolated,
         SetPositionAndOrientation 7 (Vec 1 0 0) (Quaternion 0 0 0 1), Interpolated,
         SetPositionAndOrientation 7 (Vec 1 0 0) (Quaternion 0 0 0 1), Interpolated,
         EndReached]"
  unfolding ex_dup_last_started by (simp add: tick_defs)

lemma ex_dup_first_started:
  "startInterpolation ex_squad ex_squadTangent ex_heap 1000
     (setInterpolationSpeed (- 1) ex_dup_first) =
   Some ((KeyFrameInterpolator (Some 7) False)
     \<lparr>keyFrame := [
        \<lparr>kf_p = Vec 0 0 0, kf_q = Quaternion 0 0 0 1, kf_tgP = Vec 0 (1/2) 0,
         kf_tgQ = Quaternion 0 0 0 1, kf_time = 0, kf_frame = None\<rparr>,
        \<lparr>kf_p = Vec 0 1 0, kf_q = Quaternion 0 0 0 1, kf_tgP = Vec 0 0 (1/2),
         kf_tgQ = Quaternion 0 0 0 1, kf_time = 0, kf_frame = None\<rparr>,
        \<lparr>kf_p = Vec 0 0 1, kf_q = Quaternion 0 0 0 1, kf_tgP = Vec 0 (- 1/2) (1/2),
         kf_tgQ = Quaternion 0 0 0 1, kf_time = 1, kf_frame = None\<rparr>],
      currentFrame0 := 1, currentFrame1 := 2, currentFrame2 := 2, currentFrame3 := 2,
      timer := Some 1000, period := 1000, interpolationTime := 0,
      interpolationSpeed := - 1,
      interpolationStarted := True, valuesAreValid := True, currentFrameValid := True,
      splineCacheIsValid := True,
      cache_v1 := Vec 0 (3/2) (- 3/2), cache_v2 := Vec 0 (- 1) 1,
      events := [SetPositionAndOrientation 7 (Vec 0 0 1) (Quaternion 0 0 0 1), Interpolated]\<rparr>)"
  (is "_ = ?r")
proof -
  have "startInterpolation ex_squad ex_squadTangent ex_heap 1000
          (setInterpolationSpeed (- 1) ex_dup_first) =
        update ex_squad ex_squadTangent ex_heap
          (ex_dup_first\<lparr>period := 1000, interpolationTime := 1, interpolationSpeed := - 1,
             timer := Some 1000, interpolationStarted := True\<rparr>)"
    by (simp add: startInterpolation_def setInterpolationPeriod_def setInterpolationTime_def
          setInterpolationSpeed_def ex_dup_first_value KeyFrameInterpolator_def
          KeyFrame_value_def Let_def)
  also have "\<dots> = ?r"
    unfolding ex_dup_first_value by (simp add: tick_defs)
  finally show ?thesis .
qed

lemma ex_dup_first_played:
  "map_option events
     (Option.bind (startInterpolation ex_squad ex_squadTangent ex_heap 1000
                     (setInterpolationSpeed (- 1) ex_dup_first))
        (update ex_squad ex_squadTangent ex_heap)) =
   Some [SetPositionAndOrientation 7 (Vec 0 0 1) (Quaternion 0 0 0 1), Interpolated,
         SetPositionAndOrientation 7 (Vec 0 1 0) (Quaternion 0 0 0 1), Interpolated,
         SetPositionAndOrientation 7 (Vec 0 1 0) (Quaternion 0 0 0 1), Interpolated,
         EndReached]"
  unfolding ex_dup_first_started by (simp add: tick_defs)

section \<open>The claims\<close>

text \<open>
  C10. Appending a keyframe through a null frame pointer does nothing at all: the whole
  interpolator state (keyframes and their number, the four validity flags,
  \<^verbatim>\<open>interpolationTime_\<close>, the running flag and the timer) is the one before the call. An
  append through a non-null pointer that is refused for its time is different: it keeps the
  keyframes but clears three validity flags, stops the interpolation and rewinds the time.
\<close>

theorem null_pointer_append_noop:
  "addKeyFrame_pointer H None t s = s \<and>
   (keyFrame s \<noteq> [] \<and> t < kf_time (last (keyFrame s)) \<longrightarrow>
      keyFrame (addKeyFrame_pointer H (Some a) t s) = keyFrame s \<and>
      \<not> valuesAreValid (addKeyFrame_pointer H (Some a) t s) \<and>
      \<not> pathIsValid (addKeyFrame_pointer H (Some a) t s) \<and>
      \<not> currentFrameValid (addKeyFrame_pointer H (Some a) t s) \<and>
      \<not> interpolationStarted (addKeyFrame_pointer H (Some a) t s) \<and>
      timer (addKeyFrame_pointer H (Some a) t s) = None \<and>
      interpolationTime (addKeyFrame_pointer H (Some a) t s) = firstTime s)"
proof (intro conjI impI)
  show "addKeyFrame_pointer H None t s = s" by (simp add: addKeyFrame_pointer_def)
next
  assume "keyFrame s \<noteq> [] \<and> t < kf_time (last (keyFrame s))"
  then have r: "addKeyFrame_pointer H (Some a) t s =
     s\<lparr>events := events s @ [Warning], connections := connections s @ [a],
       valuesAreValid := False, pathIsValid := False, currentFrameValid := False,
       timer := None, interpolationStarted := False, interpolationTime := firstTime s\<rparr>"
    by (simp add: rejected_pointer)
  show "keyFrame (addKeyFrame_pointer H (Some a) t s) = keyFrame s"
    "\<not> valuesAreValid (addKeyFrame_pointer H (Some a) t s)"
    "\<not> pathIsValid (addKeyFrame_pointer H (Some a) t s)"
    "\<not> currentFrameValid (addKeyFrame_pointer H (Some a) t s)"
    "\<not> interpolationStarted (addKeyFrame_pointer H (Some a) t s)"
    "timer (addKeyFrame_pointer H (Some a) t s) = None"
    "interpolationTime (addKeyFrame_pointer H (Some a) t s) = firstTime s"
    unfolding r by simp_all
qed

text \<open>
  C1, as the code has it. An append whose time is strictly below the time of the last
  keyframe is refused: the keyframes and their number stay as they were and a warning is
  reported. The call nevertheless clears \<^verbatim>\<open>valuesAreValid_\<close>, \<^verbatim>\<open>pathIsValid_\<close> and
  \<^verbatim>\<open>currentFrameValid_\<close>, stops the interpolation and sets \<^verbatim>\<open>interpolationTime_\<close> to the
  time of the first keyframe. An append whose time equals the time of the last keyframe
  (or exceeds it) is accepted.
\<close>

theorem out_of_order_append:
  assumes "keyFrame s \<noteq> []"
  shows "(t < kf_time (last (keyFrame s)) \<longrightarrow>
            numberOfKeyFrames (addKeyFrame_value fr t s) = numberOfKeyFrames s \<and>
            addKeyFrame_value fr t s =
              s\<lparr>events := events s @ [Warning], valuesAreValid := False, pathIsValid := False,
                currentFrameValid := False, timer := None, interpolationStarted := False,
                interpolationTime := firstTime s\<rparr> \<and>
            numberOfKeyFrames (addKeyFrame_pointer H (Some a) t s) = numberOfKeyFrames s \<and>
            addKeyFrame_pointer H (Some a) t s =
              s\<lparr>events := events s @ [Warning], connections := connections s @ [a],
                valuesAreValid := False, pathIsValid := False, currentFrameValid := False,
                timer := None, interpolationStarted := False,
                interpolationTime := firstTime s\<rparr>) \<and>
         (kf_time (last (keyFrame s)) \<le> t \<longrightarrow>
            keyFrame (addKeyFrame_value fr t s) = keyFrame s @ [KeyFrame_value fr t] \<and>
            keyFrame (addKeyFrame_pointer H (Some a) t s) = keyFrame s @ [KeyFrame_pointer H a t])"
proof (intro conjI impI)
  assume lt: "t < kf_time (last (keyFrame s))"
  show "addKeyFrame_value fr t s =
      s\<lparr>events := events s @ [Warning], valuesAreValid := False, pathIsValid := False,
        currentFrameValid := False, timer := None, interpolationStarted := False,
        interpolationTime := firstTime s\<rparr>"
    by (rule rejected_value [OF assms lt])
  then show "numberOfKeyFrames (addKeyFrame_value fr t s) = numberOfKeyFrames s"
    by (simp add: numberOfKeyFrames_def)
  show "addKeyFrame_pointer H (Some a) t s =
      s\<lparr>events := events s @ [Warning], connections := connections s @ [a],
        valuesAreValid := False, pathIsValid := False, currentFrameValid := False,
        timer := None, interpolationStarted := False, interpolationTime := firstTime s\<rparr>"
    by (rule rejected_pointer [OF assms lt])
  then show "numberOfKeyFrames (addKeyFrame_pointer H (Some a) t s) = numberOfKeyFrames s"
    by (simp add: numberOfKeyFrames_def)
next
  assume le: "kf_time (last (keyFrame s)) \<le> t"
  show "keyFrame (addKeyFrame_value fr t s) = keyFrame s @ [KeyFrame_value fr t]"
    by (rule accepted_value [OF assms le])
  show "keyFrame (addKeyFrame_pointer H (Some a) t s) = keyFrame s @ [KeyFrame_pointer H a t]"
    by (rule accepted_pointer [OF assms le])
qed

text \<open>
  C3. After \<^verbatim>\<open>updateModifiedFrameValues\<close> any two consecutive keyframes of the path have
  orientations whose dot product is not negative.
\<close>

theorem refresh_orientation_continuity:
  assumes "Suc i < length (keyFrame s)"
  shows "0 \<le> dot (kf_q (keyFrame (updateModifiedFrameValues sqt H s) ! i))
                 (kf_q (keyFrame (updateModifiedFrameValues sqt H s) ! Suc i))"
proof -
  let ?ks = "keyFrame (updateModifiedFrameValues sqt H s)"
  have len: "length ?ks = length (keyFrame s)"
    by (simp add: updateModifiedFrameValues_def Let_def)
  have "successively (\<lambda>a b. 0 \<le> dot a b) (map kf_q ?ks)"
    using refresh_continuity [of sqt H s] by (simp add: continuity_def)
  from successively_nth [OF this, of i] assms len show ?thesis by simp
qed

text \<open>
  C7. Running \<^verbatim>\<open>updateModifiedFrameValues\<close> a second time, on the same frames, changes
  nothing: positions, orientations and both tangents of every keyframe are those of the
  first run.
\<close>

theorem refresh_idempotent:
  assumes "keyFrame s \<noteq> []"
  shows "updateModifiedFrameValues sqt H (updateModifiedFrameValues sqt H s) =
         updateModifiedFrameValues sqt H s"
proof -
  let ?F = "flipLoop H (kf_q (hd (keyFrame s))) (keyFrame s)"
  let ?T = "tangentLoop sqt (hd ?F) ?F"
  have ne: "?F \<noteq> []" using assms by (cases "keyFrame s") (simp_all add: Let_def)
  have q: "kf_q (hd ?T) = kf_q (hd ?F)" and p: "kf_p (hd ?T) = kf_p (hd ?F)"
    using hd_flipLoop_tangent [OF ne] by simp_all
  have "flipLoop H (kf_q (hd ?F)) ?F = ?F" by (rule flipLoop_idem_hd)
  then have 1: "flipLoop H (kf_q (hd ?T)) ?T = ?T"
    unfolding q by (rule flipLoop_tangentLoop_fix)
  have 2: "tangentLoop sqt (hd ?T) ?T = ?T"
    by (rule tangentLoop_idem) (simp_all add: p q)
  show ?thesis
    by (simp add: updateModifiedFrameValues_def Let_def 1 2)
qed

text \<open>
  C5. A tick of the timer on a path with keyframes first hands to the attached frame the
  position and orientation at the current time and signals \<^verbatim>\<open>interpolated\<close> (nothing of
  the two when no frame is attached), then advances the time by speed times period. When
  the advanced time is beyond the last keyframe: with \<^verbatim>\<open>loopInterpolation\<close> the time
  becomes the first time plus the overshoot, the running state and the timer are untouched
  and the tick adds \<^verbatim>\<open>endReached\<close> only; without it the tick hands a second pose to the
  frame, the one evaluated at the last time, which is the position and orientation of a
  keyframe whose time is the last time, signals \<^verbatim>\<open>interpolated\<close> again, stops the timer
  and adds \<^verbatim>\<open>endReached\<close>. Either way the tick emits \<^verbatim>\<open>endReached\<close> once. The same
  holds, mirrored, when the advanced time is before the first keyframe. The orientation at
  an end relies on \<^verbatim>\<open>squad\<close> returning its first orientation at parameter 0 and its last
  at parameter 1, for ends with a non-negative dot product.
\<close>

theorem playback_tick_at_boundary:
  fixes sq :: squad_fn and sqt :: squadTangent_fn and H :: heap
  assumes ne: "keyFrame s \<noteq> []" and i: "consistent s"
  shows "(lastTime s < advanced s \<longrightarrow>
          (\<exists>s'. update sq sqt H s = Some s' \<and>
             count_list (events s') EndReached = count_list (events s) EndReached + 1 \<and>
             (if loopInterpolation s
              then s' = emit EndReached
                          (setInterpolationTime (firstTime s + (advanced s - lastTime s))
                             (ticked sq sqt H s)) \<and>
                   interpolationTime s' = firstTime s + (advanced s - lastTime s) \<and>
                   interpolationStarted s' = interpolationStarted s \<and> timer s' = timer s \<and>
                   events s' = events s @
                     poseEvents sq (interpolationTime s) (ticked sq sqt H s) @ [EndReached]
              else s' = emit EndReached
                          (stopInterpolation
                             (interpolateAtTime sq sqt H (lastTime s) (ticked sq sqt H s))) \<and>
                   interpolationTime s' = lastTime s \<and>
                   \<not> interpolationStarted s' \<and> timer s' = None \<and>
                   events s' = events s @
                     poseEvents sq (interpolationTime s) (ticked sq sqt H s) @
                     poseEvents sq (lastTime s) s' @ [EndReached] \<and>
                   (frame s \<noteq> None \<longrightarrow>
                     (\<exists>j<length (keyFrame s'). kf_time (keyFrame s' ! j) = lastTime s \<and>
                        evalPosition (lastTime s) s' = kf_p (keyFrame s' ! j) \<and>
                        ((\<forall>p tp tq q. 0 \<le> dot p q \<longrightarrow>
                             sq p tp tq q 0 = p \<and> sq p tp tq q 1 = q) \<longrightarrow>
                           evalOrientation sq (lastTime s) s' = kf_q (keyFrame s' ! j))))))) \<and>
         (advanced s < firstTime s \<longrightarrow>
          (\<exists>s'. update sq sqt H s = Some s' \<and>
             count_list (events s') EndReached = count_list (events s) EndReached + 1 \<and>
             (if loopInterpolation s
              then s' = emit EndReached
                          (setInterpolationTime (lastTime s - (firstTime s - advanced s))
                             (ticked sq sqt H s)) \<and>
                   interpolationTime s' = lastTime s - (firstTime s - advanced s) \<and>
                   interpolationStarted s' = interpolationStarted s \<and> timer s' = timer s \<and>
                   events s' = events s @
                     poseEvents sq (interpolationTime s) (ticked sq sqt H s) @ [EndReached]
              else s' = emit EndReached
                          (stopInterpolation
                             (interpolateAtTime sq sqt H (firstTime s) (ticked sq sqt H s))) \<and>
                   interpolationTime s' = firstTime s \<and>
                   \<not> interpolationStarted s' \<and> timer s' = None \<and>
                   events s' = events s @
                     poseEvents sq (interpolationTime s) (ticked sq sqt H s) @
                     poseEvents sq (firstTime s) s' @ [EndReached] \<and>
                   (frame s \<noteq> None \<longrightarrow>
                     (\<exists>j<length (keyFrame s'). kf_time (keyFrame s' ! j) = firstTime s \<and>
                        evalPosition (firstTime s) s' = kf_p (keyFrame s' ! j) \<and>
                        ((\<forall>p tp tq q. 0 \<le> dot p q \<longrightarrow>
                             sq p tp tq q 0 = p \<and> sq p tp tq q 1 = q) \<longrightarrow>
                           evalOrientation sq (firstTime s) s' = kf_q (keyFrame s' ! j)))))))"
proof (intro conjI impI)
  assume hi: "lastTime s < advanced s"
  show "\<exists>s'. update sq sqt H s = Some s' \<and>
             count_list (events s') EndReached = count_list (events s) EndReached + 1 \<and>
             (if loopInterpolation s
              then s' = emit EndReached
                          (setInterpolationTime (firstTime s + (advanced s - lastTime s))
                             (ticked sq sqt H s)) \<and>
                   interpolationTime s' = firstTime s + (advanced s - lastTime s) \<and>
                   interpolationStarted s' = interpolationStarted s \<and> timer s' = timer s \<and>
                   events s' = events s @
                     poseEvents sq (interpolationTime s) (ticked sq sqt H s) @ [EndReached]
              else s' = emit EndReached
                          (stopInterpolation
                             (interpolateAtTime sq sqt H (lastTime s) (ticked sq sqt H s))) \<and>
                   interpolationTime s' = lastTime s \<and>
                   \<not> interpolationStarted s' \<and> timer s' = None \<and>
                   events s' = events s @
                     poseEvents sq (interpolationTime s) (ticked sq sqt H s) @
                     poseEvents sq (lastTime s) s' @ [EndReached] \<and>
                   (frame s \<noteq> None \<longrightarrow>
                     (\<exists>j<length (keyFrame s'). kf_time (keyFrame s' ! j) = lastTime s \<and>
                        evalPosition (lastTime s) s' = kf_p (keyFrame s' ! j) \<and>
                        ((\<forall>p tp tq q. 0 \<le> dot p q \<longrightarrow>
                             sq p tp tq q 0 = p \<and> sq p tp tq q 1 = q) \<longrightarrow>
                           evalOrientation sq (lastTime s) s' = kf_q (keyFrame s' ! j)))))"
  proof (cases "loopInterpolation s")
    case True
    have a: "firstTime s + advanced s - lastTime s = firstTime s + (advanced s - lastTime s)" by simp
    have u: "update sq sqt H s = Some (emit EndReached
                          (setInterpolationTime (firstTime s + (advanced s - lastTime s))
                             (ticked sq sqt H s)))"
      using hi True unfolding update_unfold [OF ne] a by simp
    show ?thesis unfolding u using True wrapped_at_boundary [OF i ne, of _ sq sqt H]
      by (simp add: ticked_fields) (simp add: emit_def setInterpolationTime_def ticked_fields)
  next
    case False
    define s' where "s' = emit EndReached
                          (stopInterpolation
                             (interpolateAtTime sq sqt H (lastTime s) (ticked sq sqt H s)))"
    have u: "update sq sqt H s = Some s'"
      using hi False unfolding update_unfold [OF ne] s'_def by simp
    note B = stopped_at_boundary [OF i ne, where t = "lastTime s" and sq = sq and sqt = sqt
        and H = H, folded s'_def, simplified]
    have c: "count_list (events s') EndReached = count_list (events s) EndReached + 1"
      "interpolationTime s' = lastTime s" "\<not> interpolationStarted s'" "timer s' = None"
      unfolding s'_def
      by (simp_all add: emit_def stopInterpolation_def interpolateAtTime_fields ticked_fields)
    show ?thesis using u False c B s'_def by simp
  qed
next
  assume lo: "advanced s < firstTime s"
  with firstTime_le_lastTime [OF i] have nhi: "\<not> lastTime s < advanced s" by simp
  show "\<exists>s'. update sq sqt H s = Some s' \<and>
             count_list (events s') EndReached = count_list (events s) EndReached + 1 \<and>
             (if loopInterpolation s
              then s' = emit EndReached
                          (setInterpolationTime (lastTime s - (firstTime s - advanced s))
                             (ticked sq sqt H s)) \<and>
                   interpolationTime s' = lastTime s - (firstTime s - advanced s) \<and>
                   interpolationStarted s' = interpolationStarted s \<and> timer s' = timer s \<and>
                   events s' = events s @
                     poseEvents sq (interpolationTime s) (ticked sq sqt H s) @ [EndReached]
              else s' = emit EndReached
                          (stopInterpolation
                             (interpolateAtTime sq sqt H (firstTime s) (ticked sq sqt H s))) \<and>
                   interpolationTime s' = firstTime s \<and>
                   \<not> interpolationStarted s' \<and> timer s' = None \<and>
                   events s' = events s @
                     poseEvents sq (interpolationTime s) (ticked sq sqt H s) @
                     poseEvents sq (firstTime s) s' @ [EndReached] \<and>
                   (frame s \<noteq> None \<longrightarrow>
                     (\<exists>j<length (keyFrame s'). kf_time (keyFrame s' ! j) = firstTime s \<and>
                        evalPosition (firstTime s) s' = kf_p (keyFrame s' ! j) \<and>
                        ((\<forall>p tp tq q. 0 \<le> dot p q \<longrightarrow>
                             sq p tp tq q 0 = p \<and> sq p tp tq q 1 = q) \<longrightarrow>
                           evalOrientation sq (firstTime s) s' = kf_q (keyFrame s' ! j)))))"
  proof (cases "loopInterpolation s")
    case True
    have a: "lastTime s - firstTime s + advanced s = lastTime s - (firstTime s - advanced s)" by simp
    have u: "update sq sqt H s = Some (emit EndReached
                          (setInterpolationTime (lastTime s - (firstTime s - advanced s))
                             (ticked sq sqt H s)))"
      using lo nhi True unfolding update_unfold [OF ne] a by simp
    show ?thesis unfolding u using True wrapped_at_boundary [OF i ne, of _ sq sqt H]
      by (simp add: ticked_fields) (simp add: emit_def setInterpolationTime_def ticked_fields)
  next
    case False
    define s' where "s' = emit EndReached
                          (stopInterpolation
                             (interpolateAtTime sq sqt H (firstTime s) (ticked sq sqt H s)))"
    have u: "update sq sqt H s = Some s'"
      using lo nhi False unfolding update_unfold [OF ne] s'_def by simp
    note B = stopped_at_boundary [OF i ne, where t = "firstTime s" and sq = sq and sqt = sqt
        and H = H, folded s'_def, simplified]
    have c: "count_list (events s') EndReached = count_list (events s) EndReached + 1"
      "interpolationTime s' = firstTime s" "\<not> interpolationStarted s'" "timer s' = None"
      unfolding s'_def
      by (simp_all add: emit_def stopInterpolation_def interpolateAtTime_fields ticked_fields)
    show ?thesis using u False c B s'_def by simp
  qed
qed

text \<open>
  C8. With no keyframe, or with no frame attached, \<^verbatim>\<open>interpolateAtTime\<close> only records the
  time: nothing is set on a frame and no signal is emitted. Starting the interpolation on an
  empty path leaves the running flag and the timer as they were, which is stopped.
\<close>

theorem empty_path_or_no_frame:
  "(keyFrame s = [] \<or> frame s = None \<longrightarrow>
      interpolateAtTime sq sqt H t s = setInterpolationTime t s \<and>
      events (interpolateAtTime sq sqt H t s) = events s) \<and>
   (keyFrame s = [] \<longrightarrow>
      (\<exists>s'. startInterpolation sq sqt H p s = Some s' \<and>
         interpolationStarted s' = interpolationStarted s \<and> timer s' = timer s \<and>
         events s' = events s \<and> keyFrame s' = [] \<and>
         (consistent s \<longrightarrow> \<not> interpolationStarted s' \<and> timer s' = None)))"
proof (intro conjI impI)
  assume h: "keyFrame s = [] \<or> frame s = None"
  show "interpolateAtTime sq sqt H t s = setInterpolationTime t s"
    by (rule interpolateAtTime_idle [OF h])
  then show "events (interpolateAtTime sq sqt H t s) = events s"
    by (simp add: setInterpolationTime_def)
next
  assume e: "keyFrame s = []"
  have "startInterpolation sq sqt H p s = Some (if 0 \<le> p then setInterpolationPeriod p s else s)"
    using e by (simp add: startInterpolation_def setInterpolationPeriod_def)
  moreover have "consistent s \<Longrightarrow> \<not> interpolationStarted s \<and> timer s = None"
    using e by (auto simp: consistent_def split: if_splits)
  ultimately show "\<exists>s'. startInterpolation sq sqt H p s = Some s' \<and>
         interpolationStarted s' = interpolationStarted s \<and> timer s' = timer s \<and>
         events s' = events s \<and> keyFrame s' = [] \<and>
         (consistent s \<longrightarrow> \<not> interpolationStarted s' \<and> timer s' = None)"
    using e by (simp add: setInterpolationPeriod_def)
qed

text \<open>
  C6. When \<^verbatim>\<open>drawPath\<close> recomputes the path of \<open>n\<close> keyframes it holds one frame for a
  single keyframe, that keyframe's, and \<open>30 * (n - 1) + 1\<close> frames for two keyframes or more
  (61 for three), the last one being the last keyframe's position and orientation.
\<close>

theorem path_sampling_count:
  assumes "\<not> pathIsValid s"
  shows "(length (keyFrame s) = 1 \<longrightarrow>
           path (drawPath sq sqt H s) =
             [Frame (kf_p (hd (keyFrame (drawPath sq sqt H s))))
                    (kf_q (hd (keyFrame (drawPath sq sqt H s))))]) \<and>
         (2 \<le> length (keyFrame s) \<longrightarrow>
           length (path (drawPath sq sqt H s)) = 30 * (length (keyFrame s) - 1) + 1 \<and>
           last (path (drawPath sq sqt H s)) =
             Frame (kf_p (last (keyFrame (drawPath sq sqt H s))))
                   (kf_q (last (keyFrame (drawPath sq sqt H s))))) \<and>
         (length (keyFrame s) = 3 \<longrightarrow> length (path (drawPath sq sqt H s)) = 61) \<and>
         length (keyFrame (drawPath sq sqt H s)) = length (keyFrame s)"
proof -
  note D = drawPath_cases [OF assms, of sq sqt H]
  let ?ks = "sampled sqt H s"
  have len: "length ?ks = length (keyFrame s)" by simp
  have one: "path (drawPath sq sqt H s) =
             [Frame (kf_p (hd (keyFrame (drawPath sq sqt H s))))
                    (kf_q (hd (keyFrame (drawPath sq sqt H s))))]"
    if "length (keyFrame s) = 1"
  proof -
    from that len obtain k where "?ks = [k]"
      by (cases ?ks) (auto simp del: sampled_length)
    with D show ?thesis by simp
  qed
  have many: "length (path (drawPath sq sqt H s)) = 30 * (length (keyFrame s) - 1) + 1 \<and>
           last (path (drawPath sq sqt H s)) =
             Frame (kf_p (last (keyFrame (drawPath sq sqt H s))))
                   (kf_q (last (keyFrame (drawPath sq sqt H s))))"
    if "2 \<le> length (keyFrame s)"
  proof -
    from that len obtain k0 k1 rest where e: "?ks = k0 # k1 # rest"
      by (cases ?ks; cases "tl ?ks") (auto simp del: sampled_length)
    have "length (keyFrame s) = Suc (Suc (length rest))" using len e by (simp del: sampled_length)
    with D e show ?thesis
      by (simp add: pathLoop_length pathLoop_last nbSteps_def)
  qed
  from many [of] have three: "length (path (drawPath sq sqt H s)) = 61" if "length (keyFrame s) = 3"
    using that by simp
  show ?thesis using one many three D by simp
qed

text \<open>
  C4. An evaluation at time \<open>t\<close> applies the position
  \<open>k1.p + alpha * (k1.tgP + alpha * (v1 + alpha * v2))\<close>, where \<open>k1\<close> and \<open>k2\<close> are the
  keyframes under the two middle cursors, \<open>delta = k2.p - k1.p\<close>,
  \<open>v1 = 3 * delta - 2 * k1.tgP - k2.tgP\<close>, \<open>v2 = - 2 * delta + k1.tgP + k2.tgP\<close>, and
  \<open>alpha\<close> is 0 when the two times agree and \<open>(t - k1.time) / (k2.time - k1.time)\<close>
  otherwise. For a time within the path the two keyframes bracket it.
\<close>

theorem evaluated_position_cubic:
  fixes t :: real and sq :: squad_fn and sqt :: squadTangent_fn and H :: heap
  assumes i: "consistent s" and ne: "keyFrame s \<noteq> []" and fr: "frame s = Some a"
  defines "s' \<equiv> interpolateAtTime sq sqt H t s"
  defines "k1 \<equiv> keyFrame s' ! currentFrame1 s'" and "k2 \<equiv> keyFrame s' ! currentFrame2 s'"
  defines "delta \<equiv> vsub (kf_p k2) (kf_p k1)"
  defines "v1 \<equiv> vsub (vsub (smul 3 delta) (smul 2 (kf_tgP k1))) (kf_tgP k2)"
    and "v2 \<equiv> vadd (vadd (smul (- 2) delta) (kf_tgP k1)) (kf_tgP k2)"
    and "alpha \<equiv> (if kf_time k2 - kf_time k1 = 0 then 0
                   else (t - kf_time k1) / (kf_time k2 - kf_time k1))"
  shows "(\<exists>q. events s' = events s @
            [SetPositionAndOrientation a
               (vadd (kf_p k1) (smul alpha (vadd (kf_tgP k1) (smul alpha (vadd v1 (smul alpha v2))))))
               q,
             Interpolated]) \<and>
         (firstTime s \<le> t \<and> t \<le> lastTime s \<longrightarrow> kf_time k1 \<le> t \<and> t \<le> kf_time k2)"
proof -
  note R = evaluation_result [OF i ne fr, where sq = sq and sqt = sqt and H = H and t = t,
      folded s'_def]
  have c: "cache_v1 s' = v1" "cache_v2 s' = v2"
    using R(5) by (simp_all add: cache_ok_def v1_def v2_def delta_def k1_def k2_def spline_v1_def spline_v2_def Let_def)
  have al: "segmentAlpha t s' = alpha"
    by (simp add: segmentAlpha_def alpha_def k1_def k2_def Let_def)
  have pos: "evalPosition t s' =
     vadd (kf_p k1) (smul alpha (vadd (kf_tgP k1) (smul alpha (vadd v1 (smul alpha v2)))))"
    by (simp add: evalPosition_def Let_def c al cubic_def k1_def)
  have 1: "\<exists>q. events s' = events s @
            [SetPositionAndOrientation a
               (vadd (kf_p k1) (smul alpha (vadd (kf_tgP k1) (smul alpha (vadd v1 (smul alpha v2))))))
               q,
             Interpolated]"
    using R(1) unfolding pos by blast
  have n: "length (keyFrame s') = length (keyFrame s)" using R(2) by simp
  have z: "kf_time (keyFrame s' ! 0) = firstTime s"
    using ne sampled_time_nth [of 0 s sqt H] by (simp add: R(2) firstTime_def hd_conv_nth)
  have l: "kf_time (keyFrame s' ! (length (keyFrame s) - 1)) = lastTime s"
    using ne sampled_time_nth [of "length (keyFrame s) - 1" s sqt H]
    by (simp add: R(2) lastTime_def last_conv_nth)
  have 2: "kf_time k1 \<le> t \<and> t \<le> kf_time k2" if "firstTime s \<le> t" "t \<le> lastTime s"
  proof
    from R(7) show "kf_time k1 \<le> t"
    proof
      assume "currentFrame1 s' = 0 \<and> currentFrame2 s' = 0"
      then show ?thesis using z that by (simp add: k1_def)
    qed (simp add: k1_def)
    from R(8) show "t \<le> kf_time k2"
    proof
      assume "Suc (currentFrame2 s') = length (keyFrame s') \<and> currentFrame1 s' = currentFrame2 s'"
      then have "currentFrame2 s' = length (keyFrame s) - 1" using n by linarith
      then show ?thesis using l that by (simp add: k2_def)
    qed (simp add: k2_def)
  qed
  from 1 2 show ?thesis by blast
qed

text \<open>
  C9. A time after the last keyframe puts both middle cursors on the last keyframe, so
  \<open>alpha\<close> is 0 and the last keyframe's position and orientation are applied; a time before
  the first keyframe applies the first keyframe's. The orientation relies on \<^verbatim>\<open>squad\<close>
  returning its first orientation at parameter 0 when both ends (and both tangents) agree.
\<close>

theorem evaluation_clamped_outside:
  fixes t :: real and sq :: squad_fn and sqt :: squadTangent_fn and H :: heap
  assumes i: "consistent s" and ne: "keyFrame s \<noteq> []" and fr: "frame s = Some a"
    and sq0: "\<And>q tg. sq q tg tg q 0 = q"
  defines "s' \<equiv> interpolateAtTime sq sqt H t s"
  shows "(lastTime s < t \<longrightarrow>
           events s' = events s @
             [SetPositionAndOrientation a (kf_p (last (keyFrame s'))) (kf_q (last (keyFrame s'))),
              Interpolated] \<and>
           currentFrame1 s' = length (keyFrame s') - 1 \<and>
           currentFrame2 s' = length (keyFrame s') - 1 \<and> segmentAlpha t s' = 0) \<and>
         (t < firstTime s \<longrightarrow>
           events s' = events s @
             [SetPositionAndOrientation a (kf_p (hd (keyFrame s'))) (kf_q (hd (keyFrame s'))),
              Interpolated] \<and>
           currentFrame1 s' = 0 \<and> currentFrame2 s' = 0 \<and> segmentAlpha t s' = 0)"
proof (intro conjI impI)
  note R = evaluation_result [OF i ne fr, where sq = sq and sqt = sqt and H = H and t = t,
      folded s'_def]
  have n: "length (keyFrame s') = length (keyFrame s)" using R(2) by simp
  have ne': "keyFrame s' \<noteq> []" using ne n by (metis length_0_conv)
  have w: "currentFrame2 s' < length (keyFrame s')" using R(4) by (simp add: window_ok_def)
  have srt: "sorted (map kf_time (keyFrame s'))" using R(3) by (rule consistent_sorted)
  have ft: "kf_time (hd (keyFrame s')) = firstTime s"
    using ne ne' sampled_times [of sqt H s]
    by (simp add: R(2) firstTime_def hd_time_map del: sampled_times)
  have lt: "kf_time (last (keyFrame s')) = lastTime s"
    using ne ne' sampled_times [of sqt H s]
    by (simp add: R(2) lastTime_def last_time_map del: sampled_times)
  {
    assume hi: "lastTime s < t"
    have "kf_time (keyFrame s' ! currentFrame2 s') \<le> lastTime s"
      using sorted_nth_le_last [OF srt w] lt by simp
    with hi R(8) have c: "Suc (currentFrame2 s') = length (keyFrame s')"
      "currentFrame1 s' = currentFrame2 s'" by auto
    then have c2: "currentFrame2 s' = length (keyFrame s') - 1" by linarith
    have al: "segmentAlpha t s' = 0" by (rule alpha_same_cursor [OF c(2)])
    have k: "keyFrame s' ! currentFrame2 s' = last (keyFrame s')"
      using ne' by (simp add: c2 last_conv_nth)
    have "evalPosition t s' = kf_p (last (keyFrame s'))"
      by (simp add: evalPosition_def al c(2) k)
    moreover have "evalOrientation sq t s' = kf_q (last (keyFrame s'))"
      by (simp add: evalOrientation_def al c(2) k sq0)
    ultimately show "events s' = events s @
             [SetPositionAndOrientation a (kf_p (last (keyFrame s'))) (kf_q (last (keyFrame s'))),
              Interpolated]" using R(1) by simp
    show "currentFrame1 s' = length (keyFrame s') - 1" using c c2 by simp
    show "currentFrame2 s' = length (keyFrame s') - 1" by (rule c2)
    show "segmentAlpha t s' = 0" by (rule al)
  }
  {
    assume lo: "t < firstTime s"
    have w1: "currentFrame1 s' < length (keyFrame s')" using R(4) by (simp add: window_ok_def)
    have "firstTime s \<le> kf_time (keyFrame s' ! currentFrame1 s')"
      using sorted_hd_le_nth [OF srt w1] ft by simp
    with lo R(7) have c: "currentFrame1 s' = 0" "currentFrame2 s' = 0" by auto
    have al: "segmentAlpha t s' = 0" by (rule alpha_same_cursor) (simp add: c)
    have k: "keyFrame s' ! 0 = hd (keyFrame s')"
      using ne' by (simp add: hd_conv_nth)
    have "evalPosition t s' = kf_p (hd (keyFrame s'))"
      by (simp add: evalPosition_def al c k)
    moreover have "evalOrientation sq t s' = kf_q (hd (keyFrame s'))"
      by (simp add: evalOrientation_def al c k sq0)
    ultimately show "events s' = events s @
             [SetPositionAndOrientation a (kf_p (hd (keyFrame s'))) (kf_q (hd (keyFrame s'))),
              Interpolated]" using R(1) by simp
    show "currentFrame1 s' = 0" by (rule c)
    show "currentFrame2 s' = 0" by (rule c)
    show "segmentAlpha t s' = 0" by (rule al)
  }
qed

text \<open>
  C2. Evaluating at the time of the first keyframe is to apply the first keyframe's
  position and orientation, and evaluating at the time of the last keyframe the last
  keyframe's. \<^verbatim>\<open>update\<close> relies on it: its comments say that the evaluation at the last
  (first) time makes sure that the last (first) keyframe is reached and displayed. The code
  does otherwise when two keyframes share the time of an end, which \<^verbatim>\<open>addKeyFrame\<close>
  accepts. On \<open>ex_dup_last\<close> (times 0, 1, 1) the evaluation at the last time applies the
  keyframe before the last, whereas the same evaluation after one beyond the end applies
  the last keyframe; played forwards, the path stops on the keyframe before the last and
  never shows the last one. On \<open>ex_dup_first\<close> (times 0, 0, 1) the evaluation at the first
  time applies the first keyframe, whereas the same evaluation after one at 1/2 applies
  the second keyframe; played backwards, the path stops on the second keyframe and never
  shows the first one.
\<close>

theorem end_time_evaluation_diverges:
  "frame ex_dup_last = Some 7 \<and> map kf_time (keyFrame ex_dup_last) = [0, 1, 1] \<and>
   lastTime ex_dup_last = 1 \<and> kf_p (last (keyFrame ex_dup_last)) = Vec 1 1 0 \<and>
   events (interpolateAtTime ex_squad ex_squadTangent ex_heap (lastTime ex_dup_last) ex_dup_last) =
     [SetPositionAndOrientation 7 (Vec 1 0 0) (Quaternion 0 0 0 1), Interpolated] \<and>
   events (interpolateAtTime ex_squad ex_squadTangent ex_heap (lastTime ex_dup_last)
     (interpolateAtTime ex_squad ex_squadTangent ex_heap 2 ex_dup_last)) =
     [SetPositionAndOrientation 7 (Vec 1 1 0) (Quaternion 0 0 0 1), Interpolated,
      SetPositionAndOrientation 7 (Vec 1 1 0) (Quaternion 0 0 0 1), Interpolated] \<and>
   map_option events
     (Option.bind (startInterpolation ex_squad ex_squadTangent ex_heap 1000 ex_dup_last)
        (update ex_squad ex_squadTangent ex_heap)) =
     Some [SetPositionAndOrientation 7 (Vec 0 0 0) (Quaternion 0 0 0 1), Interpolated,
           SetPositionAndOrientation 7 (Vec 1 0 0) (Quaternion 0 0 0 1), Interpolated,
           SetPositionAndOrientation 7 (Vec 1 0 0) (Quaternion 0 0 0 1), Interpolated,
           EndReached] \<and>
   frame ex_dup_first = Some 7 \<and> map kf_time (keyFrame ex_dup_first) = [0, 0, 1] \<and>
   firstTime ex_dup_first = 0 \<and> kf_p (hd (keyFrame ex_dup_first)) = Vec 0 0 0 \<and>
   events (interpolateAtTime ex_squad ex_squadTangent ex_heap (firstTime ex_dup_first)
     ex_dup_first) =
     [SetPositionAndOrientation 7 (Vec 0 0 0) (Quaternion 0 0 0 1), Interpolated] \<and>
   events (interpolateAtTime ex_squad ex_squadTangent ex_heap (firstTime ex_dup_first)
     (interpolateAtTime ex_squad ex_squadTangent ex_heap (1/2) ex_dup_first)) =
     [SetPositionAndOrientation 7 (Vec 0 (9/16) (1/2)) (Quaternion 0 0 0 1), Interpolated,
      SetPositionAndOrientation 7 (Vec 0 1 0) (Quaternion 0 0 0 1), Interpolated] \<and>
   map_option events
     (Option.bind (startInterpolation ex_squad ex_squadTangent ex_heap 1000
                     (setInterpolationSpeed (- 1) ex_dup_first))
        (update ex_squad ex_squadTangent ex_heap)) =
     Some [SetPositionAndOrientation 7 (Vec 0 0 1) (Quaternion 0 0 0 1), Interpolated,
           SetPositionAndOrientation 7 (Vec 0 1 0) (Quaternion 0 0 0 1), Interpolated,
           SetPositionAndOrientation 7 (Vec 0 1 0) (Quaternion 0 0 0 1), Interpolated,
           EndReached]"
proof -
  have a: "frame ex_dup_last = Some 7" "map kf_time (keyFrame ex_dup_last) = [0, 1, 1]"
    "lastTime ex_dup_last = 1" "kf_p (last (keyFrame ex_dup_last)) = Vec 1 1 0"
    by (simp_all add: ex_dup_last_value KeyFrameInterpolator_def lastTime_def KeyFrame_value_def)
  have b: "frame ex_dup_first = Some 7" "map kf_time (keyFrame ex_dup_first) = [0, 0, 1]"
    "firstTime ex_dup_first = 0" "kf_p (hd (keyFrame ex_dup_first)) = Vec 0 0 0"
    by (simp_all add: ex_dup_first_value KeyFrameInterpolator_def firstTime_def KeyFrame_value_def)
  have c: "events (interpolateAtTime ex_squad ex_squadTangent ex_heap 1 ex_dup_last) =
     [SetPositionAndOrientation 7 (Vec 1 0 0) (Quaternion 0 0 0 1), Interpolated]"
    unfolding ex_dup_last_evaluated by simp
  show ?thesis
    unfolding a b
    using c ex_dup_last_after_overshoot ex_dup_last_played ex_dup_first_fresh
      ex_dup_first_reevaluated ex_dup_first_played
    by simp
qed

section \<open>The claims on concrete interpolators\<close>

theorem null_pointer_append_noop_witness:
  "addKeyFrame_pointer ex_heap None 0 ex_running = ex_running \<and>
   keyFrame ex_running \<noteq> [] \<and> 0 < kf_time (last (keyFrame ex_running)) \<and>
   valuesAreValid ex_running \<and> currentFrameValid ex_running \<and>
   interpolationStarted ex_running \<and> timer ex_running = Some 40 \<and>
   interpolationTime ex_running = 26 / 25 \<and>
   keyFrame (addKeyFrame_pointer ex_heap (Some 3) 0 ex_running) = keyFrame ex_running \<and>
   \<not> valuesAreValid (addKeyFrame_pointer ex_heap (Some 3) 0 ex_running) \<and>
   \<not> currentFrameValid (addKeyFrame_pointer ex_heap (Some 3) 0 ex_running) \<and>
   \<not> interpolationStarted (addKeyFrame_pointer ex_heap (Some 3) 0 ex_running) \<and>
   timer (addKeyFrame_pointer ex_heap (Some 3) 0 ex_running) = None \<and>
   interpolationTime (addKeyFrame_pointer ex_heap (Some 3) 0 ex_running) = 1"
  using null_pointer_append_noop [of ex_heap 0 ex_running 3] ex_running_facts by simp

theorem out_of_order_append_witness:
  "keyFrame ex_two \<noteq> [] \<and> (0::real) < kf_time (last (keyFrame ex_two)) \<and>
   kf_time (last (keyFrame ex_two)) \<le> 2 \<and>
   numberOfKeyFrames ex_two = 2 \<and>
   numberOfKeyFrames (addKeyFrame_value (Frame (Vec 5 5 5) (Quaternion 0 0 0 1)) 0 ex_two) = 2 \<and>
   numberOfKeyFrames (addKeyFrame_pointer ex_heap (Some 3) 0 ex_two) = 2 \<and>
   keyFrame (addKeyFrame_value (Frame (Vec 5 5 5) (Quaternion 0 0 0 1)) 0 ex_two) = keyFrame ex_two \<and>
   keyFrame (addKeyFrame_pointer ex_heap (Some 3) 0 ex_two) = keyFrame ex_two \<and>
   interpolationTime (addKeyFrame_value (Frame (Vec 5 5 5) (Quaternion 0 0 0 1)) 0 ex_two) = 1 \<and>
   keyFrame (addKeyFrame_value (Frame (Vec 5 5 5) (Quaternion 0 0 0 1)) 2 ex_two) =
     keyFrame ex_two @ [KeyFrame_value (Frame (Vec 5 5 5) (Quaternion 0 0 0 1)) 2] \<and>
   keyFrame (addKeyFrame_pointer ex_heap (Some 3) 2 ex_two) =
     keyFrame ex_two @ [KeyFrame_pointer ex_heap 3 2]"
proof -
  have ne: "keyFrame ex_two \<noteq> []" by (simp add: keyFrame_ex_two)
  have lt: "(0::real) < kf_time (last (keyFrame ex_two))"
    and le: "kf_time (last (keyFrame ex_two)) \<le> 2"
    by (simp_all add: keyFrame_ex_two KeyFrame_value_def)
  have n: "numberOfKeyFrames ex_two = 2" by (simp add: numberOfKeyFrames_def keyFrame_ex_two)
  have f: "firstTime ex_two = 1" by (rule ex_two_times)
  from out_of_order_append [OF ne, of 0 "Frame (Vec 5 5 5) (Quaternion 0 0 0 1)" ex_heap 3] lt
  have "numberOfKeyFrames (addKeyFrame_value (Frame (Vec 5 5 5) (Quaternion 0 0 0 1)) 0 ex_two) =
          numberOfKeyFrames ex_two"
    and v: "addKeyFrame_value (Frame (Vec 5 5 5) (Quaternion 0 0 0 1)) 0 ex_two =
       ex_two\<lparr>events := events ex_two @ [Warning], valuesAreValid := False, pathIsValid := False,
         currentFrameValid := False, timer := None, interpolationStarted := False,
         interpolationTime := firstTime ex_two\<rparr>"
    and "numberOfKeyFrames (addKeyFrame_pointer ex_heap (Some 3) 0 ex_two) = numberOfKeyFrames ex_two"
    and p: "addKeyFrame_pointer ex_heap (Some 3) 0 ex_two =
       ex_two\<lparr>events := events ex_two @ [Warning], connections := connections ex_two @ [3],
         valuesAreValid := False, pathIsValid := False, currentFrameValid := False,
         timer := None, interpolationStarted := False, interpolationTime := firstTime ex_two\<rparr>"
    by blast+
  moreover
  from out_of_order_append [OF ne, of 2 "Frame (Vec 5 5 5) (Quaternion 0 0 0 1)" ex_heap 3] le
  have "keyFrame (addKeyFrame_value (Frame (Vec 5 5 5) (Quaternion 0 0 0 1)) 2 ex_two) =
     keyFrame ex_two @ [KeyFrame_value (Frame (Vec 5 5 5) (Quaternion 0 0 0 1)) 2]"
    and "keyFrame (addKeyFrame_pointer ex_heap (Some 3) 2 ex_two) =
     keyFrame ex_two @ [KeyFrame_pointer ex_heap 3 2]"
    by blast+
  ultimately show ?thesis using ne lt le n f by simp
qed

theorem refresh_orientation_continuity_witness:
  "Suc 0 < length (keyFrame ex_two) \<and>
   dot (kf_q (keyFrame ex_two ! 0)) (kf_q (keyFrame ex_two ! Suc 0)) < 0 \<and>
   0 \<le> dot (kf_q (keyFrame (updateModifiedFrameValues ex_squadTangent ex_heap ex_two) ! 0))
           (kf_q (keyFrame (updateModifiedFrameValues ex_squadTangent ex_heap ex_two) ! Suc 0))"
proof -
  have l: "Suc 0 < length (keyFrame ex_two)" by (simp add: keyFrame_ex_two)
  have "dot (kf_q (keyFrame ex_two ! 0)) (kf_q (keyFrame ex_two ! Suc 0)) < 0"
    by (simp add: keyFrame_ex_two KeyFrame_value_def)
  with l refresh_orientation_continuity [OF l, of ex_squadTangent ex_heap] show ?thesis by simp
qed

theorem refresh_idempotent_witness:
  "keyFrame ex_live \<noteq> [] \<and>
   map kf_q (keyFrame (updateModifiedFrameValues ex_squadTangent ex_heap ex_live)) =
     [Quaternion 0 0 0 1, Quaternion 0 0 0 1, Quaternion 0 0 0 1] \<and>
   updateModifiedFrameValues ex_squadTangent ex_heap
     (updateModifiedFrameValues ex_squadTangent ex_heap ex_live) =
   updateModifiedFrameValues ex_squadTangent ex_heap ex_live"
proof -
  have ne: "keyFrame ex_live \<noteq> []" by (simp add: keyFrame_ex_live)
  have "map kf_q (keyFrame (updateModifiedFrameValues ex_squadTangent ex_heap ex_live)) =
     [Quaternion 0 0 0 1, Quaternion 0 0 0 1, Quaternion 0 0 0 1]"
    by (simp add: updateModifiedFrameValues_def keyFrame_ex_live KeyFrame_value_def
          KeyFrame_pointer_def updateValuesFromPointer_def ex_heap_def flipOrientation_def Let_def)
  with ne refresh_idempotent [OF ne, of ex_squadTangent ex_heap] show ?thesis by simp
qed

theorem playback_tick_at_boundary_witness:
  "keyFrame (setInterpolationTime 2 ex_running) \<noteq> [] \<and>
   consistent (setInterpolationTime 2 ex_running) \<and>
   frame (setInterpolationTime 2 ex_running) = Some 7 \<and>
   interpolationStarted (setInterpolationTime 2 ex_running) \<and>
   timer (setInterpolationTime 2 ex_running) = Some 40 \<and>
   lastTime (setInterpolationTime 2 ex_running) = 2 \<and>
   advanced (setInterpolationTime 2 ex_running) = 51 / 25 \<and>
   (\<exists>s'. update ex_squad ex_squadTangent ex_heap (setInterpolationTime 2 ex_running) = Some s' \<and>
      interpolationTime s' = 2 \<and> \<not> interpolationStarted s' \<and> timer s' = None \<and>
      events s' = events (setInterpolationTime 2 ex_running) @
        [SetPositionAndOrientation 7 (Vec 1 0 0) (Quaternion 0 0 0 1), Interpolated,
         SetPositionAndOrientation 7 (Vec 1 0 0) (Quaternion 0 0 0 1), Interpolated,
         EndReached] \<and>
      kf_time (last (keyFrame s')) = 2 \<and> kf_p (last (keyFrame s')) = Vec 1 0 0 \<and>
      kf_q (last (keyFrame s')) = Quaternion 0 0 0 1) \<and>
   (\<exists>s'. update ex_squad ex_squadTangent ex_heap
            (setLoopInterpolation True (setInterpolationTime 2 ex_running)) = Some s' \<and>
      interpolationTime s' = 26 / 25 \<and> interpolationStarted s' \<and> timer s' = Some 40 \<and>
      events s' = events (setInterpolationTime 2 ex_running) @
        [SetPositionAndOrientation 7 (Vec 1 0 0) (Quaternion 0 0 0 1), Interpolated,
         EndReached]) \<and>
   firstTime (setInterpolationSpeed (- 1) (setInterpolationTime 1 ex_running)) = 1 \<and>
   advanced (setInterpolationSpeed (- 1) (setInterpolationTime 1 ex_running)) = 24 / 25 \<and>
   (\<exists>s'. update ex_squad ex_squadTangent ex_heap
            (setInterpolationSpeed (- 1) (setInterpolationTime 1 ex_running)) = Some s' \<and>
      interpolationTime s' = 1 \<and> \<not> interpolationStarted s' \<and> timer s' = None \<and>
      events s' = events ex_running @
        [SetPositionAndOrientation 7 (Vec 0 0 0) (Quaternion 0 0 0 1), Interpolated,
         SetPositionAndOrientation 7 (Vec 0 0 0) (Quaternion 0 0 0 1), Interpolated,
         EndReached] \<and>
      kf_time (hd (keyFrame s')) = 1 \<and> kf_p (hd (keyFrame s')) = Vec 0 0 0 \<and>
      kf_q (hd (keyFrame s')) = Quaternion 0 0 0 1) \<and>
   (\<exists>s'. update ex_squad ex_squadTangent ex_heap
            (setLoopInterpolation True
               (setInterpolationSpeed (- 1) (setInterpolationTime 1 ex_running))) = Some s' \<and>
      interpolationTime s' = 49 / 25 \<and> interpolationStarted s' \<and> timer s' = Some 40 \<and>
      events s' = events ex_running @
        [SetPositionAndOrientation 7 (Vec 0 0 0) (Quaternion 0 0 0 1), Interpolated,
         EndReached])"
proof -
  note v = ex_running_value KeyFrameInterpolator_def
  note d = setInterpolationTime_def setInterpolationSpeed_def setLoopInterpolation_def
    firstTime_def lastTime_def advanced_def
  let ?a = "setInterpolationTime 2 ex_running"
  let ?b = "setLoopInterpolation True ?a"
  let ?c = "setInterpolationSpeed (- 1) (setInterpolationTime 1 ex_running)"
  let ?d = "setLoopInterpolation True ?c"
  have ne: "keyFrame ?a \<noteq> []" "keyFrame ?b \<noteq> []" "keyFrame ?c \<noteq> []" "keyFrame ?d \<noteq> []"
    by (simp_all add: d ex_running_facts)
  have i: "consistent ?a" "consistent ?b" "consistent ?c" "consistent ?d"
    using consistent_ex_running by simp_all
  have a: "frame ?a = Some 7" "interpolationStarted ?a" "timer ?a = Some 40"
    "lastTime ?a = 2" "advanced ?a = 51 / 25" "\<not> loopInterpolation ?a"
    by (simp_all add: v d)
  have b: "lastTime ?b = 2" "advanced ?b = 51 / 25" "loopInterpolation ?b" "firstTime ?b = 1"
    "interpolationStarted ?b" "timer ?b = Some 40"
    by (simp_all add: v d)
  have c: "firstTime ?c = 1" "advanced ?c = 24 / 25" "\<not> loopInterpolation ?c"
    by (simp_all add: v d)
  have e: "firstTime ?d = 1" "advanced ?d = 24 / 25" "loopInterpolation ?d" "lastTime ?d = 2"
    "interpolationStarted ?d" "timer ?d = Some 40"
    by (simp_all add: v d)
  from playback_tick_at_boundary [OF ne(1) i(1), of ex_squad ex_squadTangent ex_heap] a
  obtain s1 where 1: "update ex_squad ex_squadTangent ex_heap ?a = Some s1"
    "interpolationTime s1 = 2" "\<not> interpolationStarted s1" "timer s1 = None"
    by auto
  from playback_tick_at_boundary [OF ne(2) i(2), of ex_squad ex_squadTangent ex_heap] b
  obtain s2 where 2: "update ex_squad ex_squadTangent ex_heap ?b = Some s2"
    "interpolationTime s2 = 26 / 25" "interpolationStarted s2" "timer s2 = Some 40"
    by auto
  from playback_tick_at_boundary [OF ne(3) i(3), of ex_squad ex_squadTangent ex_heap] c
  obtain s3 where 3: "update ex_squad ex_squadTangent ex_heap ?c = Some s3"
    "interpolationTime s3 = 1" "\<not> interpolationStarted s3" "timer s3 = None"
    by auto
  from playback_tick_at_boundary [OF ne(4) i(4), of ex_squad ex_squadTangent ex_heap] e
  obtain s4 where 4: "update ex_squad ex_squadTangent ex_heap ?d = Some s4"
    "interpolationTime s4 = 49 / 25" "interpolationStarted s4" "timer s4 = Some 40"
    by auto
  have 5: "events s1 = events ?a @
        [SetPositionAndOrientation 7 (Vec 1 0 0) (Quaternion 0 0 0 1), Interpolated,
         SetPositionAndOrientation 7 (Vec 1 0 0) (Quaternion 0 0 0 1), Interpolated,
         EndReached]"
    "kf_time (last (keyFrame s1)) = 2" "kf_p (last (keyFrame s1)) = Vec 1 0 0"
    "kf_q (last (keyFrame s1)) = Quaternion 0 0 0 1"
    using 1(1) unfolding ex_running_past_last by (auto simp: v d)
  have 6: "events s2 = events ?a @
        [SetPositionAndOrientation 7 (Vec 1 0 0) (Quaternion 0 0 0 1), Interpolated,
         EndReached]"
    using 2(1) unfolding ex_running_past_last_loop by (auto simp: v d)
  have 7: "events s3 = events ex_running @
        [SetPositionAndOrientation 7 (Vec 0 0 0) (Quaternion 0 0 0 1), Interpolated,
         SetPositionAndOrientation 7 (Vec 0 0 0) (Quaternion 0 0 0 1), Interpolated,
         EndReached]"
    "kf_time (hd (keyFrame s3)) = 1" "kf_p (hd (keyFrame s3)) = Vec 0 0 0"
    "kf_q (hd (keyFrame s3)) = Quaternion 0 0 0 1"
    using 3(1) unfolding ex_running_before_first by (auto simp: v d)
  have 8: "events s4 = events ex_running @
        [SetPositionAndOrientation 7 (Vec 0 0 0) (Quaternion 0 0 0 1), Interpolated,
         EndReached]"
    using 4(1) unfolding ex_running_before_first_loop by (auto simp: v d)
  from ne(1) i(1) a(1-5) 1 5 2 6 c(1,2) 3 7 4 8 show ?thesis by blast
qed

theorem empty_path_or_no_frame_witness:
  "keyFrame ex_new = [] \<and> consistent ex_new \<and>
   events (interpolateAtTime ex_squad ex_squadTangent ex_heap 3 ex_new) = [] \<and>
   (\<exists>s'. startInterpolation ex_squad ex_squadTangent ex_heap 25 ex_new = Some s' \<and>
      \<not> interpolationStarted s' \<and> timer s' = None \<and> events s' = []) \<and>
   keyFrame (setFrame None ex_two) \<noteq> [] \<and> frame (setFrame None ex_two) = None \<and>
   events (interpolateAtTime ex_squad ex_squadTangent ex_heap (3/2) (setFrame None ex_two)) = []"
proof -
  have e: "keyFrame ex_new = []" "events ex_new = []"
    by (simp_all add: ex_new_def KeyFrameInterpolator_def)
  have n: "keyFrame (setFrame None ex_two) \<noteq> []" "frame (setFrame None ex_two) = None"
    "events (setFrame None ex_two) = []"
    by (simp_all add: setFrame_def keyFrame_ex_two ex_two_flags)
  from empty_path_or_no_frame [of ex_new ex_squad ex_squadTangent ex_heap 3 25] e consistent_ex_new
  have 1: "events (interpolateAtTime ex_squad ex_squadTangent ex_heap 3 ex_new) = [] \<and>
   (\<exists>s'. startInterpolation ex_squad ex_squadTangent ex_heap 25 ex_new = Some s' \<and>
      \<not> interpolationStarted s' \<and> timer s' = None \<and> events s' = [])"
    by auto
  from empty_path_or_no_frame [of "setFrame None ex_two" ex_squad ex_squadTangent ex_heap "3/2" 25] n
  have 2: "events (interpolateAtTime ex_squad ex_squadTangent ex_heap (3/2) (setFrame None ex_two)) = []"
    by auto
  from e consistent_ex_new 1 n 2 show ?thesis by blast
qed

theorem path_sampling_count_witness:
  "\<not> pathIsValid ex_live \<and> length (keyFrame ex_live) = 3 \<and>
   length (path (drawPath ex_squad ex_squadTangent ex_heap ex_live)) = 61 \<and>
   last (path (drawPath ex_squad ex_squadTangent ex_heap ex_live)) =
     Frame (kf_p (last (keyFrame (drawPath ex_squad ex_squadTangent ex_heap ex_live))))
           (kf_q (last (keyFrame (drawPath ex_squad ex_squadTangent ex_heap ex_live)))) \<and>
   \<not> pathIsValid ex_one \<and> length (keyFrame ex_one) = 1 \<and>
   path (drawPath ex_squad ex_squadTangent ex_heap ex_one) =
     [Frame (Vec 0 0 0) (Quaternion 0 0 0 1)]"
proof -
  have p: "\<not> pathIsValid ex_live" by (rule ex_live_flags)
  have l: "length (keyFrame ex_live) = 3" by (simp add: keyFrame_ex_live)
  from path_sampling_count [OF p, of ex_squad ex_squadTangent ex_heap] l
  have 1: "length (path (drawPath ex_squad ex_squadTangent ex_heap ex_live)) = 61 \<and>
   last (path (drawPath ex_squad ex_squadTangent ex_heap ex_live)) =
     Frame (kf_p (last (keyFrame (drawPath ex_squad ex_squadTangent ex_heap ex_live))))
           (kf_q (last (keyFrame (drawPath ex_squad ex_squadTangent ex_heap ex_live))))"
    by simp
  have p1: "\<not> pathIsValid ex_one" and v1: "\<not> valuesAreValid ex_one"
    by (simp_all add: ex_one_def ex_new_def KeyFrameInterpolator_def append_defs Let_def)
  have l1: "length (keyFrame ex_one) = 1" by (simp add: keyFrame_ex_one)
  have k1: "keyFrame (drawPath ex_squad ex_squadTangent ex_heap ex_one) =
              sampled ex_squadTangent ex_heap ex_one"
    using drawPath_cases [OF p1] by blast
  have h1: "kf_p (hd (sampled ex_squadTangent ex_heap ex_one)) = Vec 0 0 0"
    "kf_q (hd (sampled ex_squadTangent ex_heap ex_one)) = Quaternion 0 0 0 1"
    by (simp_all add: sampled_def v1 updateModifiedFrameValues_def keyFrame_ex_one
          KeyFrame_value_def flipOrientation_def computeTangent_def Let_def)
  from path_sampling_count [OF p1, of ex_squad ex_squadTangent ex_heap] l1
  have 2: "path (drawPath ex_squad ex_squadTangent ex_heap ex_one) =
     [Frame (Vec 0 0 0) (Quaternion 0 0 0 1)]"
    by (simp add: k1 h1)
  from p l 1 p1 l1 2 show ?thesis by blast
qed

theorem evaluated_position_cubic_witness:
  "consistent ex_two \<and> keyFrame ex_two \<noteq> [] \<and> frame ex_two = Some 7 \<and>
   firstTime ex_two \<le> 3/2 \<and> 3/2 \<le> lastTime ex_two \<and>
   events (interpolateAtTime ex_squad ex_squadTangent ex_heap (3/2) ex_two) =
     [SetPositionAndOrientation 7 (Vec (1/2) 0 0) (Quaternion 0 0 0 1), Interpolated] \<and>
   kf_time (keyFrame (interpolateAtTime ex_squad ex_squadTangent ex_heap (3/2) ex_two) !
              currentFrame1 (interpolateAtTime ex_squad ex_squadTangent ex_heap (3/2) ex_two))
     \<le> 3/2 \<and>
   3/2 \<le> kf_time (keyFrame (interpolateAtTime ex_squad ex_squadTangent ex_heap (3/2) ex_two) !
              currentFrame2 (interpolateAtTime ex_squad ex_squadTangent ex_heap (3/2) ex_two))"
proof -
  have ne: "keyFrame ex_two \<noteq> []" by (simp add: keyFrame_ex_two)
  have fr: "frame ex_two = Some 7" by (rule ex_two_flags)
  have r: "firstTime ex_two \<le> 3/2" "3/2 \<le> lastTime ex_two" by (simp_all add: ex_two_times)
  from evaluated_position_cubic [OF consistent_ex_two ne fr,
      where sq = ex_squad and sqt = ex_squadTangent and H = ex_heap and t = "3/2"] r
  have "kf_time (keyFrame (interpolateAtTime ex_squad ex_squadTangent ex_heap (3/2) ex_two) !
              currentFrame1 (interpolateAtTime ex_squad ex_squadTangent ex_heap (3/2) ex_two))
     \<le> 3/2 \<and>
   3/2 \<le> kf_time (keyFrame (interpolateAtTime ex_squad ex_squadTangent ex_heap (3/2) ex_two) !
              currentFrame2 (interpolateAtTime ex_squad ex_squadTangent ex_heap (3/2) ex_two))"
    by blast
  with consistent_ex_two ne fr r ex_two_evaluated_between show ?thesis by blast
qed

theorem evaluation_clamped_outside_witness:
  "consistent ex_two \<and> keyFrame ex_two \<noteq> [] \<and> frame ex_two = Some 7 \<and>
   lastTime ex_two < 5 \<and> 0 < firstTime ex_two \<and>
   events (interpolateAtTime ex_squad ex_squadTangent ex_heap 5 ex_two) =
     [SetPositionAndOrientation 7 (Vec 1 0 0) (Quaternion 0 0 0 1), Interpolated] \<and>
   events (interpolateAtTime ex_squad ex_squadTangent ex_heap 0 ex_two) =
     [SetPositionAndOrientation 7 (Vec 0 0 0) (Quaternion 0 0 0 1), Interpolated]"
proof -
  have ne: "keyFrame ex_two \<noteq> []" by (simp add: keyFrame_ex_two)
  have fr: "frame ex_two = Some 7" by (rule ex_two_flags)
  have r: "lastTime ex_two < 5" "0 < firstTime ex_two" by (simp_all add: ex_two_times)
  have k: "keyFrame (interpolateAtTime ex_squad ex_squadTangent ex_heap t ex_two) =
           sampled ex_squadTangent ex_heap ex_two" for t
    by (rule evaluation_result(2) [OF consistent_ex_two ne fr])
  have sq: "\<And>q tg. ex_squad q tg tg q 0 = q" by simp
  from evaluation_clamped_outside [where sq = ex_squad and sqt = ex_squadTangent
      and H = ex_heap and t = 5, OF consistent_ex_two ne fr sq] r(1)
  have a: "events (interpolateAtTime ex_squad ex_squadTangent ex_heap 5 ex_two) =
     [SetPositionAndOrientation 7 (Vec 1 0 0) (Quaternion 0 0 0 1), Interpolated]"
    by (simp add: k sampled_ex_two ex_two_flags)
  from evaluation_clamped_outside [where sq = ex_squad and sqt = ex_squadTangent
      and H = ex_heap and t = 0, OF consistent_ex_two ne fr sq] r(2)
  have b: "events (interpolateAtTime ex_squad ex_squadTangent ex_heap 0 ex_two) =
     [SetPositionAndOrientation 7 (Vec 0 0 0) (Quaternion 0 0 0 1), Interpolated]"
    by (simp add: k sampled_ex_two ex_two_flags)
  from consistent_ex_two ne fr r a b show ?thesis by blast
qed

text \<open>
  C1 as stated fails twice. A keyframe whose time equals the time of the last keyframe is
  added. And an append that is refused for its time disrupts the playback: on \<open>ex_running\<close>,
  the state \<^verbatim>\<open>startInterpolation(40)\<close> leaves \<open>ex_two\<close> in, it stops the interpolation and
  moves \<^verbatim>\<open>interpolationTime_\<close> back to the first keyframe.
\<close>

theorem out_of_order_append_counterexample:
  "(1::real) \<le> kf_time (last (keyFrame ex_one)) \<and>
   numberOfKeyFrames ex_one = 1 \<and>
   numberOfKeyFrames (addKeyFrame_value (Frame (Vec 5 5 5) (Quaternion 0 0 0 1)) 1 ex_one) = 2 \<and>
   startInterpolation ex_squad ex_squadTangent ex_heap 40 ex_two = Some ex_running \<and>
   (0::real) \<le> kf_time (last (keyFrame ex_running)) \<and>
   interpolationStarted ex_running \<and> interpolationTime ex_running = 26 / 25 \<and>
   keyFrame (addKeyFrame_value (Frame (Vec 5 5 5) (Quaternion 0 0 0 1)) 0 ex_running) =
     keyFrame ex_running \<and>
   \<not> interpolationStarted (addKeyFrame_value (Frame (Vec 5 5 5) (Quaternion 0 0 0 1)) 0 ex_running) \<and>
   interpolationTime (addKeyFrame_value (Frame (Vec 5 5 5) (Quaternion 0 0 0 1)) 0 ex_running) = 1"
proof -
  have a: "(1::real) \<le> kf_time (last (keyFrame ex_one))" "numberOfKeyFrames ex_one = 1"
    "numberOfKeyFrames (addKeyFrame_value (Frame (Vec 5 5 5) (Quaternion 0 0 0 1)) 1 ex_one) = 2"
    by (simp_all add: numberOfKeyFrames_def keyFrame_ex_one append_defs KeyFrame_value_def)
  have lt: "0 < kf_time (last (keyFrame ex_running))" by (simp add: ex_running_facts)
  have r: "addKeyFrame_value (Frame (Vec 5 5 5) (Quaternion 0 0 0 1)) 0 ex_running =
     ex_running\<lparr>events := events ex_running @ [Warning], valuesAreValid := False,
       pathIsValid := False, currentFrameValid := False, timer := None,
       interpolationStarted := False, interpolationTime := firstTime ex_running\<rparr>"
    by (rule rejected_value [OF ex_running_facts(6) lt])
  show ?thesis unfolding r using a start_ex_two ex_running_facts by simp
qed

end
